(* ===== verification/Prelude.thy ===== *)
theory Prelude
  imports Main "HOL-Library.List_Lexorder" "HOL-Library.Char_ord"
begin

text \<open>
  Shared vocabulary of the development.

  The extension's modules are asynchronous TypeScript: every exported function returns a
  promise that either resolves to a value or rejects with a thrown error, and reads and
  writes module-level variables and browser storage on the way. Such a function is
  modelled as an effect: a function from the worker's state to a result (\<open>Inl\<close> the thrown
  error, \<open>Inr\<close> the resolved value) together with the state afterwards. This theory holds
  the effect combinators, the two judgements used all over the development
  (\<open>preserves I m\<close>: the effect keeps the invariant on success and on error;
  \<open>unchanged f m\<close>: the effect does not change the field \<open>f\<close>), and generic list facts.
\<close>

section \<open>Thrown values\<close>

text \<open>
  \<open>Error msg\<close> is an instance of the JavaScript class Error (DOMException and TypeError
  included) with its message; \<open>Thrown s\<close> is any other thrown value, with its string form.
\<close>

datatype js_error = Error string | Thrown string

definition error_text :: "js_error \<Rightarrow> string" where
  "error_text err = (case err of Error msg \<Rightarrow> msg | Thrown s \<Rightarrow> s)"

section \<open>Platform state shared by all modules\<close>

text \<open>\<open>clock\<close> is what \<open>Date.now()\<close> returns: milliseconds since the epoch.\<close>

record platform =
  clock :: int

section \<open>Effects\<close>

type_synonym ('w, 'a) eff = "'w \<Rightarrow> (js_error + 'a) \<times> 'w"

definition retE :: "'a \<Rightarrow> ('w, 'a) eff" where
  "retE a w = (Inr a, w)"

definition throwE :: "js_error \<Rightarrow> ('w, 'a) eff" where
  "throwE err w = (Inl err, w)"

definition bindE :: "('w, 'a) eff \<Rightarrow> ('a \<Rightarrow> ('w, 'b) eff) \<Rightarrow> ('w, 'b) eff" where
  "bindE m f w = (case m w of (Inl err, w') \<Rightarrow> (Inl err, w') | (Inr a, w') \<Rightarrow> f a w')"

definition catchE :: "('w, 'a) eff \<Rightarrow> (js_error \<Rightarrow> ('w, 'a) eff) \<Rightarrow> ('w, 'a) eff" where
  "catchE m h w = (case m w of (Inl err, w') \<Rightarrow> h err w' | (Inr a, w') \<Rightarrow> (Inr a, w'))"

definition finallyE :: "('w, 'a) eff \<Rightarrow> ('w \<Rightarrow> 'w) \<Rightarrow> ('w, 'a) eff" where
  "finallyE m g w = (case m w of (r, w') \<Rightarrow> (r, g w'))"

definition getE :: "('w \<Rightarrow> 'a) \<Rightarrow> ('w, 'a) eff" where
  "getE f w = (Inr (f w), w)"

definition modE :: "('w \<Rightarrow> 'w) \<Rightarrow> ('w, unit) eff" where
  "modE g w = (Inr (), g w)"

text \<open>\<open>for (const x of xs) \<dots>\<close>: with an accumulator, stopping at the first throw.\<close>

fun foldE :: "('s \<Rightarrow> 'x \<Rightarrow> ('w, 's) eff) \<Rightarrow> 's \<Rightarrow> 'x list \<Rightarrow> ('w, 's) eff" where
  "foldE f s [] = retE s"
| "foldE f s (x # xs) = bindE (f s x) (\<lambda>s'. foldE f s' xs)"

definition forE :: "('x \<Rightarrow> ('w, unit) eff) \<Rightarrow> 'x list \<Rightarrow> ('w, unit) eff" where
  "forE f xs = foldE (\<lambda>_ x. f x) () xs"

named_theorems eff "unfolding rules of the effect combinators"

declare retE_def [eff] throwE_def [eff] bindE_def [eff] catchE_def [eff] finallyE_def [eff]
  getE_def [eff] modE_def [eff]

lemma forE_simps [simp]:
  "forE f [] = retE ()"
  "forE f (x # xs) = bindE (f x) (\<lambda>_. forE f xs)"
  by (simp_all add: forE_def)

lemma bindE_retE [simp]: "bindE (retE a) f = f a"
  by (simp add: fun_eq_iff bindE_def retE_def)

lemma bindE_Inr_iff:
  "bindE m f w = (Inr b, w') \<longleftrightarrow> (\<exists>a v. m w = (Inr a, v) \<and> f a v = (Inr b, w'))"
  by (auto simp: bindE_def split: prod.splits sum.splits)

lemma bindE_Inl_iff:
  "bindE m f w = (Inl x, w') \<longleftrightarrow>
     m w = (Inl x, w') \<or> (\<exists>a v. m w = (Inr a, v) \<and> f a v = (Inl x, w'))"
  by (auto simp: bindE_def split: prod.splits sum.splits)

lemma bindE_InrI: "m w = (Inr a, v) \<Longrightarrow> f a v = r \<Longrightarrow> bindE m f w = r"
  by (simp add: bindE_def)

lemma bindE_InlI: "m w = (Inl err, v) \<Longrightarrow> bindE m f w = (Inl err, v)"
  by (simp add: bindE_def)

lemma retE_iff [simp]: "retE a w = (r, w') \<longleftrightarrow> r = Inr a \<and> w' = w"
  by (auto simp: retE_def)

lemma throwE_iff [simp]: "throwE x w = (r, w') \<longleftrightarrow> r = Inl x \<and> w' = w"
  by (auto simp: throwE_def)

lemma getE_iff [simp]: "getE f w = (r, w') \<longleftrightarrow> r = Inr (f w) \<and> w' = w"
  by (auto simp: getE_def)

lemma modE_iff [simp]: "modE g w = (r, w') \<longleftrightarrow> r = Inr () \<and> w' = g w"
  by (auto simp: modE_def)

lemma catchE_iff:
  "catchE m h w = (r, w') \<longleftrightarrow>
     (\<exists>a. m w = (Inr a, w') \<and> r = Inr a) \<or> (\<exists>x v. m w = (Inl x, v) \<and> h x v = (r, w'))"
  by (auto simp: catchE_def split: prod.splits sum.splits)

section \<open>Searching lists\<close>

lemma find_SomeD: "find P xs = Some x \<Longrightarrow> x \<in> set xs \<and> P x"
  by (auto simp: find_Some_iff)

lemma find_unique:
  assumes "x \<in> set xs" "P x" "\<And>y. y \<in> set xs \<Longrightarrow> P y \<Longrightarrow> y = x"
  shows "find P xs = Some x"
proof (cases "find P xs")
  case None
  with assms(1,2) show ?thesis by (simp add: find_None_iff)
next
  case (Some y)
  with assms(3) [of y] find_SomeD [OF Some] show ?thesis by simp
qed

lemma distinct_map_eq: "distinct (map f xs) \<Longrightarrow> x \<in> set xs \<Longrightarrow> y \<in> set xs \<Longrightarrow> f x = f y \<Longrightarrow> x = y"
  unfolding distinct_map by (blast dest: inj_onD)

lemma set_map_filter: "set (List.map_filter f xs) = {y. \<exists>x \<in> set xs. f x = Some y}"
  by (induction xs) (auto simp: List.map_filter_simps split: option.split)

lemma find_map: "find P (map f xs) = map_option f (find (\<lambda>x. P (f x)) xs)"
  by (induction xs) simp_all

section \<open>Invariants and frames of effects\<close>

definition preserves :: "('w \<Rightarrow> bool) \<Rightarrow> ('w, 'a) eff \<Rightarrow> bool" where
  "preserves I m \<longleftrightarrow> (\<forall>w. I w \<longrightarrow> I (snd (m w)))"

definition unchanged :: "('w \<Rightarrow> 'f) \<Rightarrow> ('w, 'a) eff \<Rightarrow> bool" where
  "unchanged f m \<longleftrightarrow> (\<forall>w. f (snd (m w)) = f w)"

named_theorems pres "preservation of invariants by effects"
named_theorems frame "fields that effects leave unchanged"

lemma preservesD: "preserves I m \<Longrightarrow> m w = (r, w') \<Longrightarrow> I w \<Longrightarrow> I w'"
  unfolding preserves_def by (metis snd_conv)

lemma unchangedD: "unchanged f m \<Longrightarrow> m w = (r, w') \<Longrightarrow> f w' = f w"
  unfolding unchanged_def by (metis snd_conv)

lemma unchanged_iff_preserves: "unchanged f m \<longleftrightarrow> (\<forall>c. preserves (\<lambda>w. f w = c) m)"
  by (auto simp: unchanged_def preserves_def)

lemma preserves_retE [pres]: "preserves I (retE a)"
  by (simp add: preserves_def retE_def)

lemma preserves_throwE [pres]: "preserves I (throwE x)"
  by (simp add: preserves_def throwE_def)

lemma preserves_getE [pres]: "preserves I (getE f)"
  by (simp add: preserves_def getE_def)

lemma preserves_modE: "(\<And>w. I w \<Longrightarrow> I (g w)) \<Longrightarrow> preserves I (modE g)"
  by (simp add: preserves_def modE_def)

lemma preserves_bindE [pres]:
  "preserves I m \<Longrightarrow> (\<And>a. preserves I (f a)) \<Longrightarrow> preserves I (bindE m f)"
  by (fastforce simp: preserves_def bindE_def split: prod.splits sum.splits)

lemma preserves_catchE [pres]:
  "preserves I m \<Longrightarrow> (\<And>x. preserves I (h x)) \<Longrightarrow> preserves I (catchE m h)"
  by (fastforce simp: preserves_def catchE_def split: prod.splits sum.splits)

lemma preserves_finallyE:
  "preserves I m \<Longrightarrow> (\<And>w. I w \<Longrightarrow> I (g w)) \<Longrightarrow> preserves I (finallyE m g)"
  by (fastforce simp: preserves_def finallyE_def split: prod.splits)

lemma preserves_foldE [pres]: "(\<And>s x. preserves I (f s x)) \<Longrightarrow> preserves I (foldE f s xs)"
  by (induction xs arbitrary: s) (simp_all add: pres)

lemma preserves_foldE_in:
  "(\<And>s x. x \<in> set xs \<Longrightarrow> preserves I (f s x)) \<Longrightarrow> preserves I (foldE f s xs)"
  by (induction xs arbitrary: s) (simp_all add: pres)

lemma preserves_forE [pres]: "(\<And>x. preserves I (f x)) \<Longrightarrow> preserves I (forE f xs)"
  by (simp add: forE_def pres)

lemma preserves_if [pres]:
  "(b \<Longrightarrow> preserves I m) \<Longrightarrow> (\<not> b \<Longrightarrow> preserves I n) \<Longrightarrow> preserves I (if b then m else n)"
  by simp

lemma preserves_case_option [pres]:
  "preserves I m \<Longrightarrow> (\<And>a. preserves I (f a)) \<Longrightarrow>
   preserves I (case x of None \<Rightarrow> m | Some a \<Rightarrow> f a)"
  by (cases x) simp_all

lemma preserves_case_prod [pres]:
  "(\<And>a b. preserves I (f a b)) \<Longrightarrow> preserves I (case x of (a, b) \<Rightarrow> f a b)"
  by (cases x) simp_all

lemma unchanged_retE [frame]: "unchanged f (retE a)"
  by (simp add: unchanged_def retE_def)

lemma unchanged_throwE [frame]: "unchanged f (throwE x)"
  by (simp add: unchanged_def throwE_def)

lemma unchanged_getE [frame]: "unchanged f (getE g)"
  by (simp add: unchanged_def getE_def)

lemma unchanged_modE: "(\<And>w. f (g w) = f w) \<Longrightarrow> unchanged f (modE g)"
  by (simp add: unchanged_def modE_def)

lemma unchanged_bindE [frame]:
  "unchanged f m \<Longrightarrow> (\<And>a. unchanged f (k a)) \<Longrightarrow> unchanged f (bindE m k)"
  by (simp add: unchanged_iff_preserves pres)

lemma unchanged_catchE [frame]:
  "unchanged f m \<Longrightarrow> (\<And>x. unchanged f (h x)) \<Longrightarrow> unchanged f (catchE m h)"
  by (simp add: unchanged_iff_preserves pres)

lemma unchanged_foldE [frame]: "(\<And>s x. unchanged f (k s x)) \<Longrightarrow> unchanged f (foldE k s xs)"
  by (simp add: unchanged_iff_preserves pres)

lemma unchanged_forE [frame]: "(\<And>x. unchanged f (k x)) \<Longrightarrow> unchanged f (forE k xs)"
  by (simp add: unchanged_iff_preserves pres)

lemma unchanged_if [frame]:
  "(b \<Longrightarrow> unchanged f m) \<Longrightarrow> (\<not> b \<Longrightarrow> unchanged f n) \<Longrightarrow> unchanged f (if b then m else n)"
  by simp

lemma unchanged_case_option [frame]:
  "unchanged f m \<Longrightarrow> (\<And>a. unchanged f (k a)) \<Longrightarrow>
   unchanged f (case x of None \<Rightarrow> m | Some a \<Rightarrow> k a)"
  by (cases x) simp_all

lemma unchanged_case_prod [frame]:
  "(\<And>a b. unchanged f (k a b)) \<Longrightarrow> unchanged f (case x of (a, b) \<Rightarrow> k a b)"
  by (cases x) simp_all

lemma unchanged_preserves: "unchanged I m \<Longrightarrow> preserves I m"
  by (simp add: unchanged_def preserves_def)

section \<open>Effects that resolve\<close>

text \<open>
  \<open>resolves I m\<close>: from a state satisfying \<open>I\<close> the effect resolves (does not throw) and
  satisfies \<open>I\<close> again. Liveness facts about the modules are stated with it.
\<close>

definition resolves :: "('w \<Rightarrow> bool) \<Rightarrow> ('w, 'a) eff \<Rightarrow> bool" where
  "resolves I m \<longleftrightarrow> (\<forall>w. I w \<longrightarrow> (\<exists>a w'. m w = (Inr a, w') \<and> I w'))"

named_theorems live "effects that resolve"

lemma resolvesD: "resolves I m \<Longrightarrow> I w \<Longrightarrow> \<exists>a w'. m w = (Inr a, w') \<and> I w'"
  by (simp add: resolves_def)

lemma resolves_retE [live]: "resolves I (retE a)"
  by (simp add: resolves_def)

lemma resolves_getE [live]: "resolves I (getE f)"
  by (simp add: resolves_def)

lemma resolves_modE: "(\<And>w. I w \<Longrightarrow> I (g w)) \<Longrightarrow> resolves I (modE g)"
  by (simp add: resolves_def)

lemma resolves_bindE [live]:
  "resolves I m \<Longrightarrow> (\<And>a. resolves I (f a)) \<Longrightarrow> resolves I (bindE m f)"
  unfolding resolves_def by (metis bindE_InrI)

lemma resolves_foldE [live]: "(\<And>s x. resolves I (f s x)) \<Longrightarrow> resolves I (foldE f s xs)"
  by (induction xs arbitrary: s) (simp_all add: live)

lemma resolves_forE [live]: "(\<And>x. resolves I (f x)) \<Longrightarrow> resolves I (forE f xs)"
  by (simp add: forE_def live)

lemma resolves_if [live]:
  "(b \<Longrightarrow> resolves I m) \<Longrightarrow> (\<not> b \<Longrightarrow> resolves I n) \<Longrightarrow> resolves I (if b then m else n)"
  by simp

lemma resolves_catchE:
  assumes "preserves I m" and "\<And>x. resolves I (h x)"
  shows "resolves I (catchE m h)"
  unfolding resolves_def
proof (intro allI impI)
  fix w assume I: "I w"
  obtain r v where m: "m w = (r, v)" by fastforce
  with assms(1) I have v: "I v" by (auto dest: preservesD)
  show "\<exists>a w'. catchE m h w = (Inr a, w') \<and> I w'"
  proof (cases r)
    case (Inl x)
    with m assms(2) [of x] v show ?thesis by (simp add: catchE_def resolves_def)
  next
    case (Inr a)
    with m v show ?thesis by (simp add: catchE_def)
  qed
qed

lemma resolves_preserves: "resolves I m \<Longrightarrow> preserves I m"
  unfolding resolves_def preserves_def by (metis snd_conv)

lemma resolves_unchanged: "resolves I m \<Longrightarrow> unchanged J m \<Longrightarrow> resolves (\<lambda>w. I w \<and> J w) m"
  unfolding resolves_def unchanged_def by (metis snd_conv)

section \<open>Systems with an invariant\<close>

text \<open>
  What the step relations of the modules share: every step keeps an invariant, so every
  reachable state satisfies it.
\<close>

locale step_system =
  fixes step :: "'s \<Rightarrow> 's \<Rightarrow> bool" and ok :: "'s \<Rightarrow> bool"
  assumes step_ok: "step s s' \<Longrightarrow> ok s \<Longrightarrow> ok s'"
begin

lemma steps_ok: "rtranclp step s s' \<Longrightarrow> ok s \<Longrightarrow> ok s'"
  by (induction rule: rtranclp_induct) (auto intro: step_ok)

lemma and_then: "step a b \<Longrightarrow> rtranclp step b c \<Longrightarrow> rtranclp step a c"
  by (rule converse_rtranclp_into_rtranclp)

lemmas no_step = rtranclp.rtrancl_refl [of step]

end

end
