(* ===== verification/Object_Store.thy ===== *)
theory Object_Store
  imports Prelude
begin

text \<open>
  The storage interface the cache module relies on: an IndexedDB object store with an
  inline key (its keyPath). The locale \<open>object_store\<close> states what the cache uses of it
  (\<open>get\<close>, \<open>put\<close>, \<open>delete\<close>, \<open>clear\<close>, \<open>getAll\<close> in ascending key order, \<open>count\<close>) and proves
  the bulk facts once; the functions \<open>store_*\<close> are the executable instance every
  component of the model runs on: the records of the store in ascending key order, which
  is the order \<open>getAll\<close> returns them in.
\<close>

section \<open>The interface\<close>

locale object_store =
  fixes key :: "'v \<Rightarrow> 'k::linorder"
    and get :: "'s \<Rightarrow> 'k \<Rightarrow> 'v option"
    and put :: "'v \<Rightarrow> 's \<Rightarrow> 's"
    and delete :: "'k \<Rightarrow> 's \<Rightarrow> 's"
    and clear :: "'s \<Rightarrow> 's"
    and get_all :: "'s \<Rightarrow> 'v list"
    and count :: "'s \<Rightarrow> nat"
    and ok :: "'s \<Rightarrow> bool"
  assumes ok_put: "ok s \<Longrightarrow> ok (put v s)"
    and ok_delete: "ok s \<Longrightarrow> ok (delete k s)"
    and ok_clear: "ok (clear s)"
    and get_put: "ok s \<Longrightarrow> get (put v s) = (get s)(key v \<mapsto> v)"
    and get_delete: "ok s \<Longrightarrow> get (delete k s) = (get s)(k := None)"
    and get_clear: "get (clear s) = Map.empty"
    and get_all_sorted: "ok s \<Longrightarrow> sorted_wrt (<) (map key (get_all s))"
    and get_all_iff: "ok s \<Longrightarrow> v \<in> set (get_all s) \<longleftrightarrow> get s (key v) = Some v"
    and get_key: "ok s \<Longrightarrow> get s k = Some v \<Longrightarrow> key v = k"
    and count_get_all: "ok s \<Longrightarrow> count s = length (get_all s)"
begin

lemma ok_put_all: "ok s \<Longrightarrow> ok (fold put vs s)"
  by (induction vs arbitrary: s) (simp_all add: ok_put)

lemma ok_delete_all: "ok s \<Longrightarrow> ok (fold delete ks s)"
  by (induction ks arbitrary: s) (simp_all add: ok_delete)

text \<open>A batch of puts: the last record of the batch with the key wins.\<close>

lemma get_put_all:
  "ok s \<Longrightarrow> get (fold put vs s) k =
     (case find (\<lambda>v. key v = k) (rev vs) of None \<Rightarrow> get s k | Some v \<Rightarrow> Some v)"
proof (induction vs arbitrary: s)
  case Nil
  then show ?case by simp
next
  case (Cons v vs)
  have "find P (xs @ [x]) = (case find P xs of None \<Rightarrow> (if P x then Some x else None) | Some y \<Rightarrow> Some y)"
    for P and x :: 'v and xs
    by (induction xs) simp_all
  with Cons show ?case
    by (auto simp: ok_put get_put split: option.splits)
qed

lemma get_delete_all:
  "ok s \<Longrightarrow> get (fold delete ks s) k = (if k \<in> set ks then None else get s k)"
  by (induction ks arbitrary: s) (auto simp: ok_delete get_delete)

lemma get_all_distinct: "ok s \<Longrightarrow> distinct (map key (get_all s))"
  using get_all_sorted strict_sorted_iff by blast

lemma keys_get_all: "ok s \<Longrightarrow> set (map key (get_all s)) = dom (get s)"
  by (force simp: get_all_iff dest: get_key)

lemma count_card: "ok s \<Longrightarrow> count s = card (dom (get s))"
  by (metis count_get_all distinct_card get_all_distinct keys_get_all length_map)

lemma finite_dom_get: "ok s \<Longrightarrow> finite (dom (get s))"
  by (metis keys_get_all List.finite_set)

text \<open>The records are determined by the lookups, so lookups decide observable equality.\<close>

lemma get_all_ext:
  assumes "ok s" "ok t" "get s = get t"
  shows "get_all s = get_all t"
proof -
  have keys: "map key (get_all s) = map key (get_all t)"
    using assms get_all_sorted keys_get_all by (metis strict_sorted_equal)
  have "inj_on key (set (get_all s) \<union> set (get_all t))"
    using assms by (auto simp: inj_on_def get_all_iff)
  with keys show ?thesis
    by (metis inj_on_Un_image_eq_iff map_inj_on)
qed

lemma get_all_clear: "get_all (clear s) = []"
  by (metis all_not_in_conv get_all_iff get_clear ok_clear option.distinct(1) set_empty)

lemma count_put_le: "ok s \<Longrightarrow> count (put v s) \<le> Suc (count s)"
  by (simp add: count_card ok_put get_put card_insert_if finite_dom_get)

text \<open>Removing a record and putting it back restores the lookups.\<close>

lemma get_put_delete: "ok s \<Longrightarrow> get (put v (delete (key v) s)) = get (put v s)"
  by (simp add: get_put get_delete ok_delete)

end

section \<open>The executable store\<close>

type_synonym 'v store = "'v list"

definition store_ok :: "('v \<Rightarrow> 'k::linorder) \<Rightarrow> 'v store \<Rightarrow> bool" where
  "store_ok kp s = sorted_wrt (<) (map kp s)"

definition store_get :: "('v \<Rightarrow> 'k::linorder) \<Rightarrow> 'v store \<Rightarrow> 'k \<Rightarrow> 'v option" where
  "store_get kp s k = find (\<lambda>v. kp v = k) s"

fun store_put :: "('v \<Rightarrow> 'k::linorder) \<Rightarrow> 'v \<Rightarrow> 'v store \<Rightarrow> 'v store" where
  "store_put kp v [] = [v]"
| "store_put kp v (x # xs) =
     (if kp v < kp x then v # x # xs
      else if kp v = kp x then v # xs
      else x # store_put kp v xs)"

definition store_delete :: "('v \<Rightarrow> 'k::linorder) \<Rightarrow> 'k \<Rightarrow> 'v store \<Rightarrow> 'v store" where
  "store_delete kp k s = filter (\<lambda>v. kp v \<noteq> k) s"

definition store_clear :: "'v store \<Rightarrow> 'v store" where
  "store_clear s = []"

definition store_get_all :: "'v store \<Rightarrow> 'v list" where
  "store_get_all s = s"

definition store_count :: "'v store \<Rightarrow> nat" where
  "store_count s = length s"

lemma store_put_set: "kp ` set (store_put kp v s) = insert (kp v) (kp ` set s)"
  by (induction s) auto

lemma store_ok_put: "store_ok kp s \<Longrightarrow> store_ok kp (store_put kp v s)"
proof (induction s)
  case (Cons x xs)
  then have "\<forall>k \<in> kp ` set (store_put kp v xs). kp x < k" if "kp x < kp v"
    using that by (auto simp: store_put_set store_ok_def)
  with Cons show ?case
    by (auto simp: store_ok_def intro: less_trans)
qed (simp add: store_ok_def)

lemma store_get_put:
  "store_ok kp s \<Longrightarrow> store_get kp (store_put kp v s) = (store_get kp s)(kp v \<mapsto> v)"
  by (induction s) (auto simp: store_get_def store_ok_def fun_eq_iff)

lemma store_ok_delete: "store_ok kp s \<Longrightarrow> store_ok kp (store_delete kp k s)"
  by (induction s) (auto simp: store_ok_def store_delete_def)

lemma store_get_delete: "store_get kp (store_delete kp k s) = (store_get kp s)(k := None)"
  by (induction s) (auto simp: store_get_def store_delete_def fun_eq_iff)

lemma store_get_key: "store_get kp s k = Some v \<Longrightarrow> kp v = k"
  by (auto simp: store_get_def find_Some_iff)

lemma store_get_iff: "store_ok kp s \<Longrightarrow> v \<in> set s \<longleftrightarrow> store_get kp s (kp v) = Some v"
  by (induction s) (auto simp: store_get_def store_ok_def)

interpretation store: object_store kp "store_get kp" "store_put kp" "store_delete kp"
  store_clear store_get_all store_count "store_ok kp" for kp :: "'v \<Rightarrow> 'k::linorder"
proof unfold_locales
  show "store_ok kp (store_clear s)" for s
    by (simp add: store_ok_def store_clear_def)
  show "store_get kp (store_clear s) = Map.empty" for s
    by (simp add: store_get_def store_clear_def fun_eq_iff)
  show "store_ok kp s \<Longrightarrow> sorted_wrt (<) (map kp (store_get_all s))" for s
    by (simp add: store_ok_def store_get_all_def)
  show "store_ok kp s \<Longrightarrow> store_count s = length (store_get_all s)" for s
    by (simp add: store_count_def store_get_all_def)
  show "store_ok kp s \<Longrightarrow> v \<in> set (store_get_all s) \<longleftrightarrow> store_get kp s (kp v) = Some v" for s v
    by (simp add: store_get_all_def store_get_iff)
qed (simp_all add: store_ok_put store_ok_delete store_get_put store_get_delete store_get_key)

end
