(* ===== verification/Cache.thy ===== *)
theory Cache
  imports Object_Store Complex_Main
begin

text \<open>
  The IndexedDB cache of the background worker, \<open>background/cache.ts\<close>: four object stores
  (videos, channels, pendingVotes, meta) in one database, opened on first use, each
  exported function one transaction. \<open>idb_data\<close> is the content of the stores, \<open>idb\<close> adds the
  module variable \<open>dbInstance\<close>, the database's version and object store names, and a
  counter of the awaited requests. A request or a transaction can fail: which ones do, and
  with what error, is the environment's choice (\<open>idbFault\<close>). A failed transaction leaves
  the stores as they were.

  Not modelled: a transaction that is aborted without an error event, for which the code's
  promise never settles.
\<close>

section \<open>Data\<close>

record CategoryVotes =
  votes :: int
  weightedScore :: rat

type_synonym Categories = "(string \<times> CategoryVotes) list"

record CachedVideo =
  videoId :: string
  score :: rat
  categories :: Categories
  channelId :: string
  lastUpdated :: string

record CachedChannel =
  channelId :: string
  score :: rat
  autoFlag :: bool
  lastUpdated :: string

record PendingVote =
  videoId :: string
  category :: string
  timestamp :: int

record CacheMeta =
  key :: string
  "value" :: string

abbreviation "video_key \<equiv> CachedVideo.videoId"
abbreviation "channel_key \<equiv> CachedChannel.channelId"
abbreviation "vote_key \<equiv> PendingVote.videoId"
abbreviation "meta_key \<equiv> CacheMeta.key"

record idb_data =
  videosStore :: "CachedVideo store"
  channelsStore :: "CachedChannel store"
  pendingVotesStore :: "PendingVote store"
  metaStore :: "CacheMeta store"

record idb = platform +
  data :: idb_data
  objectStoreNames :: "string list"
  dbVersion :: nat
  dbInstance :: bool
  idbOps :: nat

record idb_env =
  idbFault :: "nat \<Rightarrow> js_error option"

definition DB_VERSION :: nat where
  "DB_VERSION = 1"

section \<open>Opening the database\<close>

text \<open>Awaiting an IndexedDB request or transaction: \<open>txPromise\<close>, \<open>txComplete\<close>.\<close>

definition txPromise ::
  "'e idb_env_scheme \<Rightarrow> ('w idb_scheme \<Rightarrow> 'a \<times> 'w idb_scheme) \<Rightarrow> ('w idb_scheme, 'a) eff" where
  "txPromise e f w =
     (case idbFault e (idbOps w) of
        Some err \<Rightarrow> (Inl err, w\<lparr>idbOps := Suc (idbOps w)\<rparr>)
      | None \<Rightarrow> (case f w of (a, w') \<Rightarrow> (Inr a, w'\<lparr>idbOps := Suc (idbOps w)\<rparr>)))"

text \<open>\<open>onupgradeneeded\<close>: create the object stores that do not exist yet.\<close>

definition createStore :: "string \<Rightarrow> string list \<Rightarrow> string list" where
  "createStore name names = (if name \<notin> set names then names @ [name] else names)"

definition onupgradeneeded :: "string list \<Rightarrow> string list" where
  "onupgradeneeded names =
     createStore ''meta'' (createStore ''pendingVotes''
       (createStore ''channels'' (createStore ''videos'' names)))"

definition openDB :: "'e idb_env_scheme \<Rightarrow> ('w idb_scheme, unit) eff" where
  "openDB e w =
     (if DB_VERSION < dbVersion w then (Inl (Error ''VersionError''), w)
      else txPromise e (\<lambda>v. ((), if dbVersion v < DB_VERSION
             then v\<lparr>objectStoreNames := onupgradeneeded (objectStoreNames v), dbVersion := DB_VERSION\<rparr>
             else v)) w)"

definition getDB :: "'e idb_env_scheme \<Rightarrow> ('w idb_scheme, unit) eff" where
  "getDB e =
     bindE (getE dbInstance) (\<lambda>opened.
       if \<not> opened then bindE (openDB e) (\<lambda>_. modE (\<lambda>w. w\<lparr>dbInstance := True\<rparr>)) else retE ())"

definition transaction :: "string \<Rightarrow> ('w idb_scheme, unit) eff" where
  "transaction name w =
     (if name \<in> set (objectStoreNames w) then (Inr (), w) else (Inl (Error ''NotFoundError''), w))"

text \<open>The shape of every function below: get the database, open a transaction, await it.\<close>

definition idb_tx ::
  "'e idb_env_scheme \<Rightarrow> string \<Rightarrow> (idb_data \<Rightarrow> 'a \<times> idb_data) \<Rightarrow> ('w idb_scheme, 'a) eff" where
  "idb_tx e name f =
     bindE (getDB e) (\<lambda>_. bindE (transaction name) (\<lambda>_.
       txPromise e (\<lambda>w. case f (data w) of (a, d) \<Rightarrow> (a, w\<lparr>data := d\<rparr>))))"

definition read_tx :: "'e idb_env_scheme \<Rightarrow> string \<Rightarrow> (idb_data \<Rightarrow> 'a) \<Rightarrow> ('w idb_scheme, 'a) eff" where
  "read_tx e name f = idb_tx e name (\<lambda>d. (f d, d))"

definition write_tx :: "'e idb_env_scheme \<Rightarrow> string \<Rightarrow> (idb_data \<Rightarrow> idb_data) \<Rightarrow> ('w idb_scheme, unit) eff" where
  "write_tx e name g = idb_tx e name (\<lambda>d. ((), g d))"

section \<open>Video operations\<close>

definition getVideo :: "'e idb_env_scheme \<Rightarrow> string \<Rightarrow> ('w idb_scheme, CachedVideo option) eff" where
  "getVideo e k = read_tx e ''videos'' (\<lambda>d. store_get video_key (videosStore d) k)"

definition getVideos_body ::
  "'e idb_env_scheme \<Rightarrow> CachedVideo list \<Rightarrow> string \<Rightarrow> ('w idb_scheme, CachedVideo list) eff" where
  "getVideos_body e results k =
     bindE (txPromise e (\<lambda>w. (store_get video_key (videosStore (data w)) k, w))) (\<lambda>video.
       retE (case video of None \<Rightarrow> results | Some v \<Rightarrow> results @ [v]))"

definition getVideos :: "'e idb_env_scheme \<Rightarrow> string list \<Rightarrow> ('w idb_scheme, CachedVideo list) eff" where
  "getVideos e videoIds =
     bindE (getDB e) (\<lambda>_. bindE (transaction ''videos'') (\<lambda>_.
       foldE (getVideos_body e) [] videoIds))"

definition putVideo :: "'e idb_env_scheme \<Rightarrow> CachedVideo \<Rightarrow> ('w idb_scheme, unit) eff" where
  "putVideo e video = write_tx e ''videos''
     (\<lambda>d. d\<lparr>videosStore := store_put video_key video (videosStore d)\<rparr>)"

definition putVideos :: "'e idb_env_scheme \<Rightarrow> CachedVideo list \<Rightarrow> ('w idb_scheme, unit) eff" where
  "putVideos e vs = (if vs = [] then retE () else write_tx e ''videos''
     (\<lambda>d. d\<lparr>videosStore := fold (store_put video_key) vs (videosStore d)\<rparr>))"

definition deleteVideo :: "'e idb_env_scheme \<Rightarrow> string \<Rightarrow> ('w idb_scheme, unit) eff" where
  "deleteVideo e k = write_tx e ''videos''
     (\<lambda>d. d\<lparr>videosStore := store_delete video_key k (videosStore d)\<rparr>)"

definition clearVideos :: "'e idb_env_scheme \<Rightarrow> ('w idb_scheme, unit) eff" where
  "clearVideos e = write_tx e ''videos'' (\<lambda>d. d\<lparr>videosStore := store_clear (videosStore d)\<rparr>)"

definition getVideoCount :: "'e idb_env_scheme \<Rightarrow> ('w idb_scheme, nat) eff" where
  "getVideoCount e = read_tx e ''videos'' (\<lambda>d. store_count (videosStore d))"

section \<open>Channel operations\<close>

definition getChannel :: "'e idb_env_scheme \<Rightarrow> string \<Rightarrow> ('w idb_scheme, CachedChannel option) eff" where
  "getChannel e k = read_tx e ''channels'' (\<lambda>d. store_get channel_key (channelsStore d) k)"

definition putChannel :: "'e idb_env_scheme \<Rightarrow> CachedChannel \<Rightarrow> ('w idb_scheme, unit) eff" where
  "putChannel e channel = write_tx e ''channels''
     (\<lambda>d. d\<lparr>channelsStore := store_put channel_key channel (channelsStore d)\<rparr>)"

definition putChannels :: "'e idb_env_scheme \<Rightarrow> CachedChannel list \<Rightarrow> ('w idb_scheme, unit) eff" where
  "putChannels e cs = (if cs = [] then retE () else write_tx e ''channels''
     (\<lambda>d. d\<lparr>channelsStore := fold (store_put channel_key) cs (channelsStore d)\<rparr>))"

definition deleteChannel :: "'e idb_env_scheme \<Rightarrow> string \<Rightarrow> ('w idb_scheme, unit) eff" where
  "deleteChannel e k = write_tx e ''channels''
     (\<lambda>d. d\<lparr>channelsStore := store_delete channel_key k (channelsStore d)\<rparr>)"

definition clearChannels :: "'e idb_env_scheme \<Rightarrow> ('w idb_scheme, unit) eff" where
  "clearChannels e = write_tx e ''channels'' (\<lambda>d. d\<lparr>channelsStore := store_clear (channelsStore d)\<rparr>)"

definition getChannelCount :: "'e idb_env_scheme \<Rightarrow> ('w idb_scheme, nat) eff" where
  "getChannelCount e = read_tx e ''channels'' (\<lambda>d. store_count (channelsStore d))"

section \<open>Pending vote operations (offline queue)\<close>

definition addPendingVote :: "'e idb_env_scheme \<Rightarrow> PendingVote \<Rightarrow> ('w idb_scheme, unit) eff" where
  "addPendingVote e vote = write_tx e ''pendingVotes''
     (\<lambda>d. d\<lparr>pendingVotesStore := store_put vote_key vote (pendingVotesStore d)\<rparr>)"

definition getPendingVotes :: "'e idb_env_scheme \<Rightarrow> ('w idb_scheme, PendingVote list) eff" where
  "getPendingVotes e = read_tx e ''pendingVotes'' (\<lambda>d. store_get_all (pendingVotesStore d))"

definition removePendingVote :: "'e idb_env_scheme \<Rightarrow> string \<Rightarrow> ('w idb_scheme, unit) eff" where
  "removePendingVote e k = write_tx e ''pendingVotes''
     (\<lambda>d. d\<lparr>pendingVotesStore := store_delete vote_key k (pendingVotesStore d)\<rparr>)"

definition clearPendingVotes :: "'e idb_env_scheme \<Rightarrow> ('w idb_scheme, unit) eff" where
  "clearPendingVotes e = write_tx e ''pendingVotes''
     (\<lambda>d. d\<lparr>pendingVotesStore := store_clear (pendingVotesStore d)\<rparr>)"

section \<open>Meta operations (last sync time, etc.)\<close>

definition getMeta :: "'e idb_env_scheme \<Rightarrow> string \<Rightarrow> ('w idb_scheme, string option) eff" where
  "getMeta e k = read_tx e ''meta'' (\<lambda>d. map_option CacheMeta.value (store_get meta_key (metaStore d) k))"

definition setMeta :: "'e idb_env_scheme \<Rightarrow> string \<Rightarrow> string \<Rightarrow> ('w idb_scheme, unit) eff" where
  "setMeta e k v = write_tx e ''meta''
     (\<lambda>d. d\<lparr>metaStore := store_put meta_key \<lparr>key = k, value = v\<rparr> (metaStore d)\<rparr>)"

section \<open>What a transaction does\<close>

lemma data_openDB [frame]: "unchanged data (openDB e)"
  by (auto simp: unchanged_def openDB_def txPromise_def split: option.splits)

lemma data_getDB [frame]: "unchanged data (getDB e)"
  unfolding getDB_def by (intro frame unchanged_modE) simp

lemma data_transaction [frame]: "unchanged data (transaction name)"
  by (simp add: unchanged_def transaction_def)

lemma idb_tx_Inr: "idb_tx e name f w = (Inr a, w') \<Longrightarrow> f (data w) = (a, data w')"
  by (auto simp: idb_tx_def bindE_Inr_iff txPromise_def split: option.splits prod.splits
      dest!: unchangedD [OF data_getDB] unchangedD [OF data_transaction])

lemma idb_tx_Inl: "idb_tx e name f w = (Inl x, w') \<Longrightarrow> data w' = data w"
  by (auto simp: idb_tx_def bindE_Inl_iff txPromise_def split: option.splits prod.splits
      dest!: unchangedD [OF data_getDB] unchangedD [OF data_transaction])

lemma read_tx_data [frame]: "unchanged data (read_tx e name f)"
proof -
  have "data w' = data w" if "read_tx e name f w = (r, w')" for r w w'
    using that unfolding read_tx_def by (cases r) (auto dest: idb_tx_Inr idb_tx_Inl)
  then show ?thesis by (metis unchanged_def surjective_pairing)
qed

lemma read_tx_Inr: "read_tx e name f w = (Inr a, w') \<Longrightarrow> a = f (data w) \<and> data w' = data w"
  unfolding read_tx_def by (auto dest: idb_tx_Inr)

lemma write_tx_Inr: "write_tx e name g w = (Inr u, w') \<Longrightarrow> data w' = g (data w)"
  unfolding write_tx_def by (auto dest: idb_tx_Inr)

lemma write_tx_Inl: "write_tx e name g w = (Inl x, w') \<Longrightarrow> data w' = data w"
  unfolding write_tx_def by (auto dest: idb_tx_Inl)

text \<open>Reads change no record; writes change the data exactly as stated, or not at all.\<close>

lemma getVideo_data [frame]: "unchanged data (getVideo e k)"
  and getVideoCount_data [frame]: "unchanged data (getVideoCount e)"
  and getChannel_data [frame]: "unchanged data (getChannel e k)"
  and getChannelCount_data [frame]: "unchanged data (getChannelCount e)"
  and getPendingVotes_data [frame]: "unchanged data (getPendingVotes e)"
  and getMeta_data [frame]: "unchanged data (getMeta e k)"
  by (simp_all add: getVideo_def getVideoCount_def getChannel_def getChannelCount_def
      getPendingVotes_def getMeta_def frame)

lemma txPromise_read_data: "unchanged data (txPromise e (\<lambda>w. (f w, w)))"
  by (simp add: unchanged_def txPromise_def split: option.splits)

lemma getVideos_data [frame]: "unchanged data (getVideos e ks)"
  unfolding getVideos_def getVideos_body_def by (intro frame txPromise_read_data)

lemmas cache_reads = getVideo_def getVideoCount_def getChannel_def getChannelCount_def
  getPendingVotes_def getMeta_def

lemmas cache_writes = putVideo_def putVideos_def deleteVideo_def clearVideos_def putChannel_def
  putChannels_def deleteChannel_def clearChannels_def addPendingVote_def removePendingVote_def
  clearPendingVotes_def setMeta_def

lemma putVideos_Inr: "putVideos e vs w = (Inr u, w') \<Longrightarrow>
    data w' = (data w)\<lparr>videosStore := fold (store_put video_key) vs (videosStore (data w))\<rparr>"
  by (auto simp: putVideos_def dest: write_tx_Inr split: if_splits)

lemma putVideos_Inl: "putVideos e vs w = (Inl x, w') \<Longrightarrow> data w' = data w"
  by (auto simp: putVideos_def dest: write_tx_Inl split: if_splits)

lemma putChannels_Inr: "putChannels e cs w = (Inr u, w') \<Longrightarrow>
    data w' = (data w)\<lparr>channelsStore := fold (store_put channel_key) cs (channelsStore (data w))\<rparr>"
  by (auto simp: putChannels_def dest: write_tx_Inr split: if_splits)

lemma putChannels_Inl: "putChannels e cs w = (Inl x, w') \<Longrightarrow> data w' = data w"
  by (auto simp: putChannels_def dest: write_tx_Inl split: if_splits)

text \<open>A store that a write does not name keeps its records.\<close>

lemma write_tx_keeps:
  assumes "\<And>d. P d \<Longrightarrow> P (g d)"
  shows "preserves (\<lambda>w. P (data w)) (write_tx e name g :: ('w idb_scheme, unit) eff)"
  unfolding preserves_def
proof (intro allI impI)
  fix w :: "'w idb_scheme" assume P: "P (data w)"
  obtain r w' where run: "write_tx e name g w = (r, w')" by fastforce
  have "data w' = g (data w) \<or> data w' = data w"
    using run write_tx_Inr [of e name g w] write_tx_Inl [of e name g w] by (cases r) auto
  with run P assms show "P (data (snd (write_tx e name g w)))" by auto
qed

lemma data_keeps: "unchanged data m \<Longrightarrow> preserves (\<lambda>w. P (data w)) m"
  by (simp add: unchanged_def preserves_def)

section \<open>Invariant\<close>

definition DB_STORES :: "string list" where
  "DB_STORES = [''videos'', ''channels'', ''pendingVotes'', ''meta'']"

definition data_ok :: "idb_data \<Rightarrow> bool" where
  "data_ok d \<longleftrightarrow> store_ok video_key (videosStore d) \<and> store_ok channel_key (channelsStore d) \<and>
     store_ok vote_key (pendingVotesStore d) \<and> store_ok meta_key (metaStore d)"

text \<open>
  The stores are in key order with one record per key; an opened database has every object
  store the transactions name.
\<close>

definition db_ok :: "'w idb_scheme \<Rightarrow> bool" where
  "db_ok w \<longleftrightarrow> data_ok (data w) \<and>
     (dbInstance w \<longrightarrow> dbVersion w = DB_VERSION) \<and>
     (DB_VERSION \<le> dbVersion w \<longrightarrow> set DB_STORES \<subseteq> set (objectStoreNames w))"

lemma onupgradeneeded_stores: "set (onupgradeneeded names) = set DB_STORES \<union> set names"
  by (auto simp: onupgradeneeded_def createStore_def DB_STORES_def)

lemma onupgradeneeded_distinct: "distinct names \<Longrightarrow> distinct (onupgradeneeded names)"
  by (simp add: onupgradeneeded_def createStore_def)

lemma openDB_ok [pres]: "preserves db_ok (openDB e)"
  by (auto simp: preserves_def openDB_def txPromise_def db_ok_def onupgradeneeded_stores
      split: option.splits)

lemma openDB_version: "openDB e w = (Inr u, w') \<Longrightarrow> dbVersion w' = DB_VERSION"
  by (auto simp: openDB_def txPromise_def split: if_splits option.splits)

lemma getDB_Inr:
  assumes "getDB e w = (Inr u, w')" "db_ok w"
  shows "db_ok w' \<and> set DB_STORES \<subseteq> set (objectStoreNames w')"
proof (cases "dbInstance w")
  case True
  with assms show ?thesis by (auto simp: getDB_def bindE_Inr_iff db_ok_def)
next
  case False
  with assms(1) obtain v where v: "openDB e w = (Inr (), v)" "w' = v\<lparr>dbInstance := True\<rparr>"
    by (auto simp: getDB_def bindE_Inr_iff)
  from v(1) assms(2) have "db_ok v" by (rule preservesD [OF openDB_ok])
  with v openDB_version [OF v(1)] show ?thesis by (simp add: db_ok_def)
qed

lemma getDB_ok [pres]: "preserves db_ok (getDB e)"
  unfolding preserves_def
proof (intro allI impI)
  fix w :: "'a idb_scheme" assume ok: "db_ok w"
  show "db_ok (snd (getDB e w))"
  proof (cases "getDB e w")
    case (Pair r w')
    show ?thesis
    proof (cases r)
      case (Inl x)
      with Pair have "openDB e w = (Inl x, w')"
        by (auto simp: getDB_def bindE_Inl_iff split: if_splits)
      from preservesD [OF openDB_ok this ok] Pair show ?thesis by simp
    next
      case (Inr u)
      from getDB_Inr [OF Pair [unfolded Inr] ok] Pair show ?thesis by simp
    qed
  qed
qed

lemma transaction_ok [pres]: "preserves I (transaction name)"
  by (simp add: preserves_def transaction_def)

lemma db_ok_idbOps [simp]: "db_ok (w\<lparr>idbOps := n\<rparr>) = db_ok w"
  by (simp add: db_ok_def)

lemma txPromise_ok:
  assumes "\<And>w. db_ok w \<Longrightarrow> db_ok (snd (f w))"
  shows "preserves db_ok (txPromise e f)"
  using assms by (fastforce simp: preserves_def txPromise_def split: option.splits prod.splits)

lemma idb_tx_ok:
  assumes "\<And>d. data_ok d \<Longrightarrow> data_ok (snd (f d))"
  shows "preserves db_ok (idb_tx e name f :: ('w idb_scheme, 'a) eff)"
proof -
  have "db_ok (w\<lparr>data := snd (f (data w))\<rparr>)" if "db_ok w" for w :: "'w idb_scheme"
    using that assms by (simp add: db_ok_def)
  then show ?thesis
    unfolding idb_tx_def by (intro pres txPromise_ok) (simp add: split_def)
qed

lemma read_tx_ok [pres]: "preserves db_ok (read_tx e name f)"
  unfolding read_tx_def by (intro idb_tx_ok) simp

lemma write_tx_ok: "(\<And>d. data_ok d \<Longrightarrow> data_ok (g d)) \<Longrightarrow> preserves db_ok (write_tx e name g)"
  unfolding write_tx_def by (intro idb_tx_ok) simp

lemmas store_oks = store.ok_put store.ok_delete store.ok_clear store.ok_put_all store.ok_delete_all

lemma cache_reads_ok [pres]:
  "preserves db_ok (getVideo e k)" "preserves db_ok (getVideoCount e)"
  "preserves db_ok (getChannel e k)" "preserves db_ok (getChannelCount e)"
  "preserves db_ok (getPendingVotes e)" "preserves db_ok (getMeta e k)"
  by (simp_all add: cache_reads pres)

lemma getVideos_ok [pres]: "preserves db_ok (getVideos e ks)"
  unfolding getVideos_def getVideos_body_def by (intro pres txPromise_ok) simp

lemma cache_writes_ok [pres]:
  "preserves db_ok (putVideo e v)" "preserves db_ok (putVideos e vs)"
  "preserves db_ok (deleteVideo e k)" "preserves db_ok (clearVideos e)"
  "preserves db_ok (putChannel e c)" "preserves db_ok (putChannels e cs)"
  "preserves db_ok (deleteChannel e k)" "preserves db_ok (clearChannels e)"
  "preserves db_ok (addPendingVote e p)" "preserves db_ok (removePendingVote e k)"
  "preserves db_ok (clearPendingVotes e)" "preserves db_ok (setMeta e k s)"
  unfolding cache_writes
  by (intro pres write_tx_ok; simp add: data_ok_def store_oks)+

section \<open>Frame: what the cache does not touch\<close>

definition idb_indep :: "('w idb_scheme \<Rightarrow> 'f) \<Rightarrow> bool" where
  "idb_indep f \<longleftrightarrow> (\<forall>w d ns v i n. f (w\<lparr>data := d, objectStoreNames := ns, dbVersion := v,
     dbInstance := i, idbOps := n\<rparr>) = f w)"

lemma idb_indepD:
  assumes "idb_indep f"
  shows "f (w\<lparr>data := d\<rparr>) = f w" "f (w\<lparr>idbOps := n\<rparr>) = f w" "f (w\<lparr>dbInstance := i\<rparr>) = f w"
    "f (w\<lparr>objectStoreNames := ns, dbVersion := v\<rparr>) = f w"
proof -
  have eq: "w\<lparr>data := d, objectStoreNames := objectStoreNames w, dbVersion := dbVersion w,
        dbInstance := dbInstance w, idbOps := idbOps w\<rparr> = w\<lparr>data := d\<rparr>"
    "w\<lparr>data := data w, objectStoreNames := objectStoreNames w, dbVersion := dbVersion w,
        dbInstance := dbInstance w, idbOps := n\<rparr> = w\<lparr>idbOps := n\<rparr>"
    "w\<lparr>data := data w, objectStoreNames := objectStoreNames w, dbVersion := dbVersion w,
        dbInstance := i, idbOps := idbOps w\<rparr> = w\<lparr>dbInstance := i\<rparr>"
    "w\<lparr>data := data w, objectStoreNames := ns, dbVersion := v,
        dbInstance := dbInstance w, idbOps := idbOps w\<rparr> = w\<lparr>objectStoreNames := ns, dbVersion := v\<rparr>"
    by simp_all
  show "f (w\<lparr>data := d\<rparr>) = f w" "f (w\<lparr>idbOps := n\<rparr>) = f w" "f (w\<lparr>dbInstance := i\<rparr>) = f w"
    "f (w\<lparr>objectStoreNames := ns, dbVersion := v\<rparr>) = f w"
    using assms unfolding idb_indep_def by (metis eq)+
qed

lemma clock_indep [frame]: "idb_indep clock"
  by (simp add: idb_indep_def)

lemma getDB_frame: "idb_indep f \<Longrightarrow> unchanged f (getDB e)"
  unfolding getDB_def
  by (intro frame unchanged_modE)
    (auto simp: unchanged_def openDB_def txPromise_def idb_indepD split: option.splits)

lemma transaction_frame: "unchanged f (transaction name)"
  by (simp add: unchanged_def transaction_def)

lemma idb_tx_frame: "idb_indep f \<Longrightarrow> unchanged f (idb_tx e name g)"
  unfolding idb_tx_def
  by (intro unchanged_bindE getDB_frame transaction_frame)
    (auto simp: unchanged_def txPromise_def idb_indepD split: option.splits prod.splits)

lemma getVideos_frame: "idb_indep f \<Longrightarrow> unchanged f (getVideos e ks)"
  unfolding getVideos_def getVideos_body_def
  by (intro unchanged_bindE getDB_frame transaction_frame unchanged_foldE unchanged_retE)
    (auto simp: unchanged_def txPromise_def idb_indepD split: option.splits)

lemma tx_frame:
  "idb_indep f \<Longrightarrow> unchanged f (read_tx e name h)"
  "idb_indep f \<Longrightarrow> unchanged f (write_tx e name g)"
  by (simp_all add: read_tx_def write_tx_def idb_tx_frame)

lemma cache_frame [frame]:
  "idb_indep f \<Longrightarrow> unchanged f (getVideo e k)" "idb_indep f \<Longrightarrow> unchanged f (getVideoCount e)"
  "idb_indep f \<Longrightarrow> unchanged f (getChannel e k)" "idb_indep f \<Longrightarrow> unchanged f (getChannelCount e)"
  "idb_indep f \<Longrightarrow> unchanged f (getPendingVotes e)" "idb_indep f \<Longrightarrow> unchanged f (getMeta e k)"
  "idb_indep f \<Longrightarrow> unchanged f (putVideo e v)" "idb_indep f \<Longrightarrow> unchanged f (putVideos e vs)"
  "idb_indep f \<Longrightarrow> unchanged f (deleteVideo e k)" "idb_indep f \<Longrightarrow> unchanged f (clearVideos e)"
  "idb_indep f \<Longrightarrow> unchanged f (putChannel e c)" "idb_indep f \<Longrightarrow> unchanged f (putChannels e cs)"
  "idb_indep f \<Longrightarrow> unchanged f (deleteChannel e k)" "idb_indep f \<Longrightarrow> unchanged f (clearChannels e)"
  "idb_indep f \<Longrightarrow> unchanged f (addPendingVote e p)"
  "idb_indep f \<Longrightarrow> unchanged f (removePendingVote e k)"
  "idb_indep f \<Longrightarrow> unchanged f (clearPendingVotes e)" "idb_indep f \<Longrightarrow> unchanged f (setMeta e k s)"
  by (simp_all add: cache_reads cache_writes tx_frame unchanged_retE)

declare getVideos_frame [frame]

section \<open>Liveness: without faults every operation resolves\<close>

definition no_idb_faults :: "'e idb_env_scheme \<Rightarrow> bool" where
  "no_idb_faults e \<longleftrightarrow> (\<forall>n. idbFault e n = None)"

definition db_up :: "'w idb_scheme \<Rightarrow> bool" where
  "db_up w \<longleftrightarrow> db_ok w \<and> dbVersion w \<le> DB_VERSION"

lemma getDB_up:
  assumes "no_idb_faults e" "db_up w"
  obtains w' where "getDB e w = (Inr (), w')" "db_up w'"
    "set DB_STORES \<subseteq> set (objectStoreNames w')"
proof -
  obtain w' where w': "getDB e w = (Inr (), w')" "dbVersion w' \<le> DB_VERSION"
    using assms by (cases "dbInstance w")
      (auto simp: getDB_def openDB_def txPromise_def eff no_idb_faults_def db_up_def)
  with getDB_Inr [OF w'(1)] assms(2) that show ?thesis
    by (simp add: db_up_def)
qed

lemma txPromise_up:
  assumes "no_idb_faults e" "\<And>w. db_up w \<Longrightarrow> db_up (snd (f w))"
  shows "resolves db_up (txPromise e f :: ('w idb_scheme, 'a) eff)"
  unfolding resolves_def
proof (intro allI impI)
  fix w :: "'w idb_scheme" assume "db_up w"
  with assms(2) have "db_up ((snd (f w))\<lparr>idbOps := Suc (idbOps w)\<rparr>)"
    by (simp add: db_up_def)
  with assms(1) show "\<exists>a w'. txPromise e f w = (Inr a, w') \<and> db_up w'"
    by (simp add: txPromise_def no_idb_faults_def split_def)
qed

lemma tx_open_up:
  assumes "no_idb_faults e" "name \<in> set DB_STORES"
    and "resolves db_up m"
  shows "resolves db_up (bindE (getDB e) (\<lambda>_. bindE (transaction name) (\<lambda>_. m :: ('w idb_scheme, 'a) eff)))"
  unfolding resolves_def
proof (intro allI impI)
  fix w :: "'w idb_scheme" assume "db_up w"
  with assms(1) obtain v where v: "getDB e w = (Inr (), v)" "db_up v"
    "set DB_STORES \<subseteq> set (objectStoreNames v)"
    by (rule getDB_up)
  with assms(2) have "transaction name v = (Inr (), v)"
    by (auto simp: transaction_def)
  with v assms(3) show "\<exists>a w'. bindE (getDB e) (\<lambda>_. bindE (transaction name) (\<lambda>_. m)) w = (Inr a, w') \<and> db_up w'"
    by (simp add: bindE_def resolves_def)
qed

lemma idb_tx_up:
  assumes "no_idb_faults e" "name \<in> set DB_STORES" "\<And>d. data_ok d \<Longrightarrow> data_ok (snd (f d))"
  shows "resolves db_up (idb_tx e name f :: ('w idb_scheme, 'a) eff)"
proof -
  have "db_up (w\<lparr>data := snd (f (data w))\<rparr>)" if "db_up w" for w :: "'w idb_scheme"
    using that assms(3) by (simp add: db_ok_def db_up_def)
  then show ?thesis
    unfolding idb_tx_def using assms by (intro tx_open_up txPromise_up) (simp_all add: split_def)
qed

lemma cache_up [live]:
  assumes "no_idb_faults e"
  shows "resolves db_up (getVideo e k)" "resolves db_up (getVideoCount e)"
    "resolves db_up (getChannel e k)" "resolves db_up (getChannelCount e)"
    "resolves db_up (getPendingVotes e)" "resolves db_up (getMeta e k)"
    "resolves db_up (putVideo e v)" "resolves db_up (putVideos e vs)"
    "resolves db_up (deleteVideo e k)" "resolves db_up (clearVideos e)"
    "resolves db_up (putChannel e c)" "resolves db_up (putChannels e cs)"
    "resolves db_up (deleteChannel e k)" "resolves db_up (clearChannels e)"
    "resolves db_up (addPendingVote e p)" "resolves db_up (removePendingVote e k)"
    "resolves db_up (clearPendingVotes e)" "resolves db_up (setMeta e k s)"
  unfolding cache_reads cache_writes read_tx_def write_tx_def
  by (intro resolves_if resolves_retE idb_tx_up assms;
      simp add: DB_STORES_def data_ok_def store_oks)+

lemma getVideos_up [live]:
  assumes "no_idb_faults e"
  shows "resolves db_up (getVideos e ks)"
  unfolding getVideos_def getVideos_body_def
  by (intro tx_open_up resolves_foldE resolves_bindE resolves_retE txPromise_up assms)
    (simp_all add: DB_STORES_def)

section \<open>The module as a transition system\<close>

text \<open>
  Any caller, in any order: one step is one exported function run to its end, whether it
  resolves or rejects.
\<close>

inductive cache_step :: "'e idb_env_scheme \<Rightarrow> 'w idb_scheme \<Rightarrow> 'w idb_scheme \<Rightarrow> bool"
  for e :: "'e idb_env_scheme" where
  "getVideo e k w = (r, w') \<Longrightarrow> cache_step e w w'"
| "getVideos e ks w = (r', w') \<Longrightarrow> cache_step e w w'"
| "putVideo e v w = (u, w') \<Longrightarrow> cache_step e w w'"
| "putVideos e vs w = (u, w') \<Longrightarrow> cache_step e w w'"
| "deleteVideo e k w = (u, w') \<Longrightarrow> cache_step e w w'"
| "clearVideos e w = (u, w') \<Longrightarrow> cache_step e w w'"
| "getVideoCount e w = (n, w') \<Longrightarrow> cache_step e w w'"
| "getChannel e k w = (c', w') \<Longrightarrow> cache_step e w w'"
| "putChannel e c w = (u, w') \<Longrightarrow> cache_step e w w'"
| "putChannels e cs w = (u, w') \<Longrightarrow> cache_step e w w'"
| "deleteChannel e k w = (u, w') \<Longrightarrow> cache_step e w w'"
| "clearChannels e w = (u, w') \<Longrightarrow> cache_step e w w'"
| "getChannelCount e w = (n, w') \<Longrightarrow> cache_step e w w'"
| "addPendingVote e p w = (u, w') \<Longrightarrow> cache_step e w w'"
| "getPendingVotes e w = (ps, w') \<Longrightarrow> cache_step e w w'"
| "removePendingVote e k w = (u, w') \<Longrightarrow> cache_step e w w'"
| "clearPendingVotes e w = (u, w') \<Longrightarrow> cache_step e w w'"
| "getMeta e k w = (m, w') \<Longrightarrow> cache_step e w w'"
| "setMeta e k s w = (u, w') \<Longrightarrow> cache_step e w w'"

definition empty_data :: idb_data where
  "empty_data = \<lparr>videosStore = [], channelsStore = [], pendingVotesStore = [], metaStore = []\<rparr>"

text \<open>A profile in which the extension has never run: no database, nothing opened.\<close>

definition fresh_db :: "'w idb_scheme \<Rightarrow> bool" where
  "fresh_db w \<longleftrightarrow> data w = empty_data \<and> objectStoreNames w = [] \<and> dbVersion w = 0 \<and> \<not> dbInstance w"

lemma fresh_db_ok: "fresh_db w \<Longrightarrow> db_ok w"
  by (simp add: fresh_db_def db_ok_def data_ok_def empty_data_def store_ok_def DB_VERSION_def)

lemma fresh_db_up: "fresh_db w \<Longrightarrow> db_up w"
  by (simp add: db_up_def fresh_db_ok) (simp add: fresh_db_def)

lemmas cache_ok_steps = cache_reads_ok [THEN preservesD] cache_writes_ok [THEN preservesD]
  getVideos_ok [THEN preservesD]

lemma cache_step_ok: "cache_step e w w' \<Longrightarrow> db_ok w \<Longrightarrow> db_ok w'"
  by (erule cache_step.cases; simp only:; erule (1) cache_ok_steps)

interpretation cache_system: step_system "cache_step e" db_ok
  by unfold_locales (rule cache_step_ok)

definition sample_idb_env :: idb_env where
  "sample_idb_env = \<lparr>idbFault = (\<lambda>_. None)\<rparr>"

definition sample_idb :: idb where
  "sample_idb = \<lparr>clock = 0, data = empty_data, objectStoreNames = [], dbVersion = 0,
     dbInstance = False, idbOps = 0\<rparr>"

lemma sample_idb_fresh: "fresh_db sample_idb"
  by (simp add: sample_idb_def fresh_db_def)

section \<open>Properties\<close>



text \<open>
  Once the database is open, no transaction of the module names an object store that
  does not exist, whatever the operations before it and however they failed.
\<close>

theorem cache_stores_exist:
  assumes "fresh_db w0" and "rtranclp (cache_step e) w0 w"
    and "getDB e w = (Inr (), w1)" and "name \<in> {''videos'', ''channels'', ''pendingVotes'', ''meta''}"
  shows "transaction name w1 = (Inr (), w1)"
proof -
  have "db_ok w" using assms(1,2) by (blast intro: cache_system.steps_ok fresh_db_ok)
  from getDB_Inr [OF assms(3) this] assms(4) show ?thesis
    by (auto simp: transaction_def DB_STORES_def)
qed

theorem cache_stores_exist_witness:
  "transaction ''meta'' (snd (getDB sample_idb_env sample_idb)) =
     (Inr (), snd (getDB sample_idb_env sample_idb))"
proof (rule cache_stores_exist [OF sample_idb_fresh rtranclp.rtrancl_refl])
  show "getDB sample_idb_env sample_idb = (Inr (), snd (getDB sample_idb_env sample_idb))"
    by (simp add: getDB_def openDB_def txPromise_def eff sample_idb_def sample_idb_env_def DB_VERSION_def)
qed simp

text \<open>
  C19: a batch written by \<open>putVideos\<close> is what \<open>getVideo\<close> reads back: for every video the
  last record of the batch with its id, and the earlier record for every other video.
\<close>

theorem putVideos_getVideo:
  assumes "db_ok w" and "putVideos e vs w = (Inr (), w1)" and "getVideo e k w1 = (Inr r, w2)"
  shows "r = (case find (\<lambda>v. video_key v = k) (rev vs) of
                None \<Rightarrow> store_get video_key (videosStore (data w)) k | Some v \<Rightarrow> Some v)"
proof -
  from assms(3) have "r = store_get video_key (videosStore (data w1)) k"
    unfolding getVideo_def by (auto dest: read_tx_Inr)
  with putVideos_Inr [OF assms(2)] assms(1) show ?thesis
    by (simp add: store.get_put_all db_ok_def data_ok_def)
qed

definition sample_video :: "string \<Rightarrow> rat \<Rightarrow> CachedVideo" where
  "sample_video k sc = \<lparr>CachedVideo.videoId = k, CachedVideo.score = sc,
     categories = [(''fully_ai'', \<lparr>votes = 10, weightedScore = 80\<rparr>)],
     CachedVideo.channelId = ''ch001'', CachedVideo.lastUpdated = ''2025-01-01T00:00:00Z''\<rparr>"

theorem putVideos_getVideo_witness:
  "\<exists>w1 w2. putVideos sample_idb_env [sample_video ''v1'' 75, sample_video ''v1'' 99] sample_idb = (Inr (), w1) \<and>
     getVideo sample_idb_env ''v1'' w1 = (Inr (Some (sample_video ''v1'' 99)), w2)"
proof -
  have up: "no_idb_faults sample_idb_env" by (simp add: no_idb_faults_def sample_idb_env_def)
  obtain w1 where w1: "putVideos sample_idb_env [sample_video ''v1'' 75, sample_video ''v1'' 99] sample_idb = (Inr (), w1)"
    "db_up w1"
    using resolvesD [OF cache_up(8) [OF up] fresh_db_up [OF sample_idb_fresh]] by fastforce
  obtain r w2 where w2: "getVideo sample_idb_env ''v1'' w1 = (Inr r, w2)"
    using resolvesD [OF cache_up(1) [OF up] w1(2)] by blast
  from putVideos_getVideo [OF fresh_db_ok [OF sample_idb_fresh] w1(1) w2]
  have "r = Some (sample_video ''v1'' 99)" by (simp add: sample_video_def)
  with w1 w2 show ?thesis by blast
qed

lemma txPromise_get:
  "txPromise e (\<lambda>w. (f (data w), w)) w = (Inr a, w') \<Longrightarrow> a = f (data w) \<and> data w' = data w"
  by (auto simp: txPromise_def split: option.splits)

lemma getVideos_body_Inr:
  "getVideos_body e acc k w = (Inr r, w') \<Longrightarrow>
     r = (case store_get video_key (videosStore (data w)) k of None \<Rightarrow> acc | Some v \<Rightarrow> acc @ [v]) \<and>
     data w' = data w"
  by (auto simp: getVideos_body_def bindE_Inr_iff
      dest!: txPromise_get [of e "\<lambda>d. store_get video_key (videosStore d) k"])

lemma getVideos_loop:
  "foldE (getVideos_body e) acc ks w = (Inr vs, w') \<Longrightarrow>
   vs = acc @ List.map_filter (store_get video_key (videosStore (data w))) ks"
proof (induction ks arbitrary: acc w)
  case Nil
  then show ?case by (simp add: map_filter_simps)
next
  case (Cons k ks)
  let ?g = "store_get video_key (videosStore (data w)) k"
  from Cons.prems obtain w1 where w1: "data w1 = data w"
    "foldE (getVideos_body e) (case ?g of None \<Rightarrow> acc | Some v \<Rightarrow> acc @ [v]) ks w1 = (Inr vs, w')"
    by (auto simp: bindE_Inr_iff dest!: getVideos_body_Inr)
  from Cons.IH [OF w1(2)] w1(1) show ?case
    by (simp add: map_filter_simps split: option.splits)
qed

text \<open>
  C20: \<open>getVideos\<close> returns, in the order asked for, exactly the cached records of the
  requested ids, skips the missing ones, and changes nothing; without storage faults it
  always resolves.
\<close>

theorem getVideos_spec:
  assumes "db_ok w"
  shows "(getVideos e ks w = (Inr vs, w') \<longrightarrow>
            vs = List.map_filter (store_get video_key (videosStore (data w))) ks \<and> data w' = data w) \<and>
         (no_idb_faults e \<and> dbVersion w \<le> DB_VERSION \<longrightarrow> (\<exists>vs w'. getVideos e ks w = (Inr vs, w')))"
proof (intro conjI impI)
  assume *: "getVideos e ks w = (Inr vs, w')"
  show "vs = List.map_filter (store_get video_key (videosStore (data w))) ks"
    using * unfolding getVideos_def
    by (auto simp: bindE_Inr_iff dest!: getVideos_loop unchangedD [OF data_getDB] unchangedD [OF data_transaction])
  show "data w' = data w" by (rule unchangedD [OF getVideos_data *])
next
  assume "no_idb_faults e \<and> dbVersion w \<le> DB_VERSION"
  then show "\<exists>vs w'. getVideos e ks w = (Inr vs, w')"
    using assms resolvesD [OF getVideos_up] by (fastforce simp: db_up_def)
qed

theorem getVideos_spec_witness:
  "\<exists>vs w'. getVideos sample_idb_env [''v1'', ''missing''] sample_idb = (Inr vs, w') \<and> vs = []"
proof -
  have "no_idb_faults sample_idb_env \<and> dbVersion sample_idb \<le> DB_VERSION"
    by (simp add: no_idb_faults_def sample_idb_env_def sample_idb_def)
  with getVideos_spec [OF fresh_db_ok [OF sample_idb_fresh]] obtain vs w' where
    r: "getVideos sample_idb_env [''v1'', ''missing''] sample_idb = (Inr vs, w')" by blast
  with getVideos_spec [OF fresh_db_ok [OF sample_idb_fresh], of sample_idb_env "[''v1'', ''missing'']" vs w']
  show ?thesis
    by (auto simp: sample_idb_def empty_data_def store_get_def map_filter_simps)
qed

end
