(* ===== verification/Js_Std.thy ===== *)
theory Js_Std
  imports Prelude Complex_Main "HOL-Library.Word"
begin

text \<open>
  The part of the JavaScript standard library the modules use: string searching, number
  formatting and parsing, UTF-8 encoding and \<open>encodeURIComponent\<close>. A string is a list of
  characters, each a UTF-16 code unit below 256; code units from 256 on do not occur in the
  model.
\<close>

type_synonym byte = "8 word"

section \<open>Truth\<close>

text \<open>A string is falsy in JavaScript when it is null or empty.\<close>

definition truthy :: "string option \<Rightarrow> bool" where
  "truthy s = (s \<noteq> None \<and> s \<noteq> Some '''')"

lemma truthy_iff: "truthy s \<longleftrightarrow> (\<exists>t. s = Some t \<and> t \<noteq> '''')"
  by (cases s) (auto simp: truthy_def)

section \<open>Searching\<close>

definition startsWith :: "string \<Rightarrow> string \<Rightarrow> bool" where
  "startsWith s p = (take (length p) s = p)"

fun strIncludes :: "string \<Rightarrow> string \<Rightarrow> bool" where
  "strIncludes [] p = (p = [])"
| "strIncludes (c # cs) p = (startsWith (c # cs) p \<or> strIncludes cs p)"

text \<open>\<open>Math.round\<close>: halves are rounded up.\<close>

definition mathRound :: "rat \<Rightarrow> int" where
  "mathRound x = \<lfloor>x + 1 / 2\<rfloor>"

definition substring0 :: "string \<Rightarrow> nat \<Rightarrow> string" where
  "substring0 s n = take n s"

lemma startsWith_append [simp]: "startsWith (p @ s) p"
  by (simp add: startsWith_def)

lemma startsWith_iff: "startsWith s p \<longleftrightarrow> (\<exists>t. s = p @ t)"
  unfolding startsWith_def by (metis append_eq_conv_conj append_take_drop_id)

lemma startsWith_Nil [simp]: "startsWith s []"
  by (simp add: startsWith_def)

lemma strIncludes_iff: "strIncludes s p \<longleftrightarrow> (\<exists>a b. s = a @ p @ b)"
proof (induction s)
  case Nil
  then show ?case by auto
next
  case (Cons c s)
  then show ?case
    by (auto simp: startsWith_iff) (metis append_Cons append_Nil append_eq_Cons_conv)+
qed

lemma strIncludes_suffix [simp]: "strIncludes (s @ p) p"
  unfolding strIncludes_iff by (metis append_Nil2)

section \<open>Numbers as text\<close>

definition hexDigit :: "nat \<Rightarrow> char" where
  "hexDigit n = ''0123456789abcdef'' ! n"

definition hexChars :: "char set" where
  "hexChars = set ''0123456789abcdef''"

fun toString16 :: "nat \<Rightarrow> string" where
  "toString16 n = (if n < 16 then [hexDigit n] else toString16 (n div 16) @ [hexDigit (n mod 16)])"

fun toString10 :: "nat \<Rightarrow> string" where
  "toString10 n = (if n < 10 then [hexDigit n] else toString10 (n div 10) @ [hexDigit (n mod 10)])"

declare toString16.simps [simp del] toString10.simps [simp del]

definition padStart :: "nat \<Rightarrow> char \<Rightarrow> string \<Rightarrow> string" where
  "padStart n c s = replicate (n - length s) c @ s"

definition byteHex :: "byte \<Rightarrow> string" where
  "byteHex b = padStart 2 (CHR ''0'') (toString16 (unat b))"

lemma hexDigit_in: "n < 16 \<Longrightarrow> hexDigit n \<in> hexChars"
  unfolding hexDigit_def hexChars_def by (rule nth_mem) simp

lemma toString16_byte:
  assumes "n < 256"
  shows "length (toString16 n) \<le> 2 \<and> set (toString16 n) \<subseteq> hexChars"
proof -
  have low: "toString16 m = [hexDigit m]" if "m < 16" for m
    using that by (simp add: toString16.simps)
  have "n div 16 < 16" using assms by simp
  then have "toString16 n = (if n < 16 then [hexDigit n] else [hexDigit (n div 16), hexDigit (n mod 16)])"
    by (subst toString16.simps) (simp add: low)
  with \<open>n div 16 < 16\<close> show ?thesis by (simp add: hexDigit_in)
qed

lemma byteHex_hex: "length (byteHex b) = 2 \<and> set (byteHex b) \<subseteq> hexChars"
proof -
  have "unat b < 2 ^ LENGTH(8)" by (rule unsigned_less)
  then have "unat b < 256" by simp
  from toString16_byte [OF this] show ?thesis
    by (auto simp: byteHex_def padStart_def hexChars_def)
qed

definition toHex :: "byte list \<Rightarrow> string" where
  "toHex bs = concat (map byteHex bs)"

lemma toHex_hex: "length (toHex bs) = 2 * length bs \<and> set (toHex bs) \<subseteq> hexChars"
  using byteHex_hex by (induction bs) (auto simp: toHex_def)

lemma card_hexChars: "card hexChars = 16"
  by (simp add: hexChars_def)

text \<open>\<open>parseInt(s, 10)\<close>; None is NaN.\<close>

definition isSpace :: "char \<Rightarrow> bool" where
  "isSpace c = (of_char c \<in> {9, 10, 11, 12, 13, 32, 160 :: nat})"

definition isDigit :: "char \<Rightarrow> bool" where
  "isDigit c = (c \<in> set ''0123456789'')"

definition digitValue :: "char \<Rightarrow> int" where
  "digitValue c = of_char c - 48"

definition parseDigits :: "string \<Rightarrow> int option" where
  "parseDigits s = (case takeWhile isDigit s of [] \<Rightarrow> None
     | ds \<Rightarrow> Some (foldl (\<lambda>n c. 10 * n + digitValue c) 0 ds))"

definition parseInt :: "string \<Rightarrow> int option" where
  "parseInt s = (case dropWhile isSpace s of
       [] \<Rightarrow> None
     | c # cs \<Rightarrow> if c = CHR ''-'' then map_option uminus (parseDigits cs)
                else if c = CHR ''+'' then parseDigits cs
                else parseDigits (c # cs))"

lemma parseInt_non_digit:
  "\<not> isSpace c \<Longrightarrow> \<not> isDigit c \<Longrightarrow> c \<noteq> CHR ''-'' \<Longrightarrow> c \<noteq> CHR ''+'' \<Longrightarrow> parseInt (c # cs) = None"
  by (simp add: parseInt_def parseDigits_def)

section \<open>UTF-8 and percent encoding\<close>

definition utf8 :: "string \<Rightarrow> byte list" where
  "utf8 s = concat (map (\<lambda>c. let n = of_char c :: nat in
     if n < 128 then [of_nat n] else [of_nat (192 + n div 64), of_nat (128 + n mod 64)]) s)"

definition uriUnreserved :: "char set" where
  "uriUnreserved = set ''ABCDEFGHIJKLMNOPQRSTUVWXYZabcdefghijklmnopqrstuvwxyz0123456789-_.!~*()'' \<union> {CHR 0x27}"

definition toUpperHex :: "char \<Rightarrow> char" where
  "toUpperHex c = (if c \<in> set ''abcdef'' then char_of ((of_char c :: nat) - 32) else c)"

definition percentByte :: "byte \<Rightarrow> string" where
  "percentByte b = CHR ''%'' # map toUpperHex (byteHex b)"

definition encodeURIComponent :: "string \<Rightarrow> string" where
  "encodeURIComponent s =
     concat (map (\<lambda>c. if c \<in> uriUnreserved then [c] else concat (map percentByte (utf8 [c]))) s)"

lemma encodeURIComponent_unreserved: "set s \<subseteq> uriUnreserved \<Longrightarrow> encodeURIComponent s = s"
  by (induction s) (simp_all add: encodeURIComponent_def)

lemma hex_unreserved: "hexChars \<subseteq> uriUnreserved"
  by (simp add: hexChars_def uriUnreserved_def)

section \<open>Timers\<close>

text \<open>
  The delay \<open>setTimeout\<close> really waits for: NaN counts as 0, the number is converted to a
  signed 32-bit integer, and a negative one counts as 0.
\<close>

definition timerDelay :: "int option \<Rightarrow> int" where
  "timerDelay d = (case d of None \<Rightarrow> 0 | Some ms \<Rightarrow> max 0 (sint (word_of_int ms :: 32 word)))"

lemma timerDelay_nonneg [simp]: "0 \<le> timerDelay d"
  by (simp add: timerDelay_def split: option.split)

lemma timerDelay_small: "0 \<le> ms \<Longrightarrow> ms < 2147483648 \<Longrightarrow> timerDelay (Some ms) = ms"
  by (simp add: timerDelay_def int_word_sint mod_pos_pos_trivial)

lemma timerDelay_wraps: "timerDelay (Some 2147483648) = 0"
  by (simp add: timerDelay_def)

section \<open>One-shot timers kept in a variable\<close>

text \<open>
  Several modules keep one timer in a variable and re-arm it by clearing the old one first.
  \<open>pending\<close> is the time the timer will fire at, None when the variable is null.
\<close>

locale timer_slot =
  fixes now :: "'w \<Rightarrow> int" and pending :: "'w \<Rightarrow> int option"
    and schedule :: "int \<Rightarrow> 'w \<Rightarrow> 'w"
  assumes pending_schedule: "pending (schedule ms w) = Some (now w + timerDelay (Some ms))"
    and now_schedule: "now (schedule ms w) = now w"
begin

text \<open>Of a burst of calls only the last one's timer is left.\<close>

lemma burst:
  "pending (fold schedule mss w) =
     (if mss = [] then pending w else Some (now w + timerDelay (Some (last mss))))"
proof -
  have "now (fold schedule mss w) = now w" for mss
    by (induction mss rule: rev_induct) (simp_all add: now_schedule)
  then show ?thesis
    by (induction mss rule: rev_induct) (simp_all add: pending_schedule)
qed

lemma schedule_not_past: "pending (schedule ms w) = Some t \<Longrightarrow> now w \<le> t"
  by (auto simp: pending_schedule)

end

end
