(* ===== verification/Identity.thy ===== *)
theory Identity
  imports Cache Js_Std
begin

unbundle bit_operations_syntax

text \<open>
  \<open>background/identity.ts\<close>: the private local id kept in \<open>chrome.storage.local\<close> and the
  public user id derived from it by iterating SHA-256, and the hash prefixes of video ids.
  The browser's random sources and its SHA-256 digest are the environment's:
  \<open>randomUUID\<close> (None where the browser has none), \<open>mathRandom\<close> (the n-th call of
  \<open>Math.random\<close>) and \<open>digest\<close>.
\<close>

section \<open>State and environment\<close>

record ident = idb +
  localId :: "string option"
  uuidCalls :: nat
  randomCalls :: nat

record ident_env = idb_env +
  randomUUID :: "(nat \<Rightarrow> string) option"
  mathRandom :: "nat \<Rightarrow> rat"
  digest :: "byte list \<Rightarrow> byte list"

definition HASH_ITERATIONS :: nat where
  "HASH_ITERATIONS = 5000"

section \<open>UUID generation\<close>

definition UUID_TEMPLATE :: string where
  "UUID_TEMPLATE = ''xxxxxxxx-xxxx-4xxx-yxxx-xxxxxxxxxxxx''"

text \<open>The replacement callback: \<open>r\<close> is \<open>(Math.random() * 16) | 0\<close>.\<close>

definition uuidDigit :: "char \<Rightarrow> rat \<Rightarrow> string" where
  "uuidDigit c x =
     (let r = \<lfloor>x * 16\<rfloor>; v = (if c = CHR ''x'' then r else (r AND 3) OR 8) in toString16 (nat v))"

fun replaceXY :: "(nat \<Rightarrow> rat) \<Rightarrow> nat \<Rightarrow> string \<Rightarrow> string \<times> nat" where
  "replaceXY rnd n [] = ([], n)"
| "replaceXY rnd n (c # cs) =
     (if c = CHR ''x'' \<or> c = CHR ''y''
      then (let (s, m) = replaceXY rnd (Suc n) cs in (uuidDigit c (rnd n) @ s, m))
      else (let (s, m) = replaceXY rnd n cs in (c # s, m)))"

definition generateUUID :: "'e ident_env_scheme \<Rightarrow> ('w ident_scheme, string) eff" where
  "generateUUID e w =
     (case randomUUID e of
        Some uuid \<Rightarrow> (Inr (uuid (uuidCalls w)), w\<lparr>uuidCalls := Suc (uuidCalls w)\<rparr>)
      | None \<Rightarrow> (case replaceXY (mathRandom e) (randomCalls w) UUID_TEMPLATE of
                   (s, n) \<Rightarrow> (Inr s, w\<lparr>randomCalls := n\<rparr>)))"

section \<open>Hashing\<close>

definition sha256 :: "'e ident_env_scheme \<Rightarrow> string \<Rightarrow> string" where
  "sha256 e input = toHex (digest e (utf8 input))"

text \<open>\<open>iteratedHash(input, n)\<close>: the loop hashes its own result \<open>n\<close> times.\<close>

fun iteratedHash :: "'e ident_env_scheme \<Rightarrow> string \<Rightarrow> nat \<Rightarrow> string" where
  "iteratedHash e result 0 = result"
| "iteratedHash e result (Suc n) = iteratedHash e (sha256 e result) n"

section \<open>Exported functions\<close>

definition getLocalId :: "'e ident_env_scheme \<Rightarrow> ('w ident_scheme, string) eff" where
  "getLocalId e =
     bindE (getE localId) (\<lambda>stored.
       if stored \<noteq> None \<and> stored \<noteq> Some '''' then retE (the stored)
       else bindE (generateUUID e) (\<lambda>uuid.
              bindE (modE (\<lambda>w. w\<lparr>localId := Some uuid\<rparr>)) (\<lambda>_. retE uuid)))"

definition getPublicUserId :: "'e ident_env_scheme \<Rightarrow> ('w ident_scheme, string) eff" where
  "getPublicUserId e =
     bindE (getLocalId e) (\<lambda>uuid. retE (iteratedHash e uuid HASH_ITERATIONS))"

definition hashVideoId :: "'e ident_env_scheme \<Rightarrow> string \<Rightarrow> nat \<Rightarrow> string" where
  "hashVideoId e vid prefixLength = substring0 (sha256 e vid) prefixLength"

section \<open>Facts\<close>

text \<open>SHA-256 digests are 32 bytes.\<close>

definition sha256_digest :: "'e ident_env_scheme \<Rightarrow> bool" where
  "sha256_digest e \<longleftrightarrow> (\<forall>bs. length (digest e bs) = 32)"

text \<open>\<open>Math.random()\<close> lies in the half-open unit interval.\<close>

definition unit_random :: "'e ident_env_scheme \<Rightarrow> bool" where
  "unit_random e \<longleftrightarrow> (\<forall>n. 0 \<le> mathRandom e n \<and> mathRandom e n < 1)"

lemma sha256_hex: "sha256_digest e \<Longrightarrow> length (sha256 e s) = 64 \<and> set (sha256 e s) \<subseteq> hexChars"
  using toHex_hex [of "digest e (utf8 s)"] by (simp add: sha256_def sha256_digest_def)

lemma iteratedHash_funpow: "iteratedHash e s n = (sha256 e ^^ n) s"
  by (induction n arbitrary: s) (simp_all add: funpow_swap1)

lemma iteratedHash_hex:
  "sha256_digest e \<Longrightarrow> 0 < n \<Longrightarrow>
     length (iteratedHash e s n) = 64 \<and> set (iteratedHash e s n) \<subseteq> hexChars"
  by (cases n) (simp_all add: iteratedHash_funpow sha256_hex)

text \<open>The shape of a version 4 UUID, character by character.\<close>

definition uuid_char :: "char \<Rightarrow> char \<Rightarrow> bool" where
  "uuid_char t c = (if t = CHR ''x'' then c \<in> hexChars
                    else if t = CHR ''y'' then c \<in> set ''89ab'' else c = t)"

lemma floor16:
  assumes "0 \<le> x" "x < (1::rat)"
  shows "0 \<le> \<lfloor>x * 16\<rfloor>" "\<lfloor>x * 16\<rfloor> < 16"
  using assms by (auto simp: floor_less_iff)

lemma uuidDigit_shape:
  assumes "0 \<le> x" "x < 1" "c = CHR ''x'' \<or> c = CHR ''y''"
  shows "\<exists>d. uuidDigit c x = [d] \<and> uuid_char c d"
proof -
  define r where "r = nat \<lfloor>x * 16\<rfloor>"
  have r: "\<lfloor>x * 16\<rfloor> = int r" "r < 16"
    using floor16 [OF assms(1,2)] unfolding r_def by linarith+
  have cases: "r \<in> {0,1,2,3,4,5,6,7,8,9,10,11,12,13,14,15}" using r(2) by (simp; presburger)
  show ?thesis
  proof (cases "c = CHR ''x''")
    case True
    with r show ?thesis
      by (simp add: uuidDigit_def uuid_char_def toString16.simps hexDigit_in)
  next
    case False
    with assms(3) have "c = CHR ''y''" by simp
    with cases show ?thesis
      by (auto simp: uuidDigit_def uuid_char_def r(1) toString16.simps hexDigit_def)
  qed
qed

lemma replaceXY_shape:
  assumes "\<And>n. 0 \<le> rnd n \<and> rnd n < 1"
  shows "list_all2 uuid_char t (fst (replaceXY rnd n t))"
proof (induction t arbitrary: n)
  case (Cons c t)
  show ?case
  proof (cases "c = CHR ''x'' \<or> c = CHR ''y''")
    case True
    with assms obtain d where "uuidDigit c (rnd n) = [d]" "uuid_char c d"
      using uuidDigit_shape by blast
    with True Cons show ?thesis by (auto simp: split_def Let_def)
  next
    case False
    with Cons show ?thesis by (auto simp: split_def Let_def uuid_char_def)
  qed
qed simp

lemma localId_indep [frame]: "idb_indep localId" "idb_indep uuidCalls" "idb_indep randomCalls"
  by (simp_all add: idb_indep_def)

section \<open>The identity interface\<close>

text \<open>
  What the offline queue and the message handler rely on: the user id can always be had,
  and once had it stays the same. \<open>known u\<close> is the set of states in which asking again gives
  \<open>u\<close> and changes nothing.
\<close>

locale user_identity =
  fixes get_id :: "('w, string) eff" and ok :: "'w \<Rightarrow> bool"
  assumes resolve: "resolves ok get_id"
    and stable: "ok w \<Longrightarrow> get_id w = (Inr u, w') \<Longrightarrow> get_id w' = (Inr u, w')"
begin

definition known :: "string \<Rightarrow> 'w \<Rightarrow> bool" where
  "known u w \<longleftrightarrow> ok w \<and> get_id w = (Inr u, w)"

lemma get_id_known: "ok w \<Longrightarrow> \<exists>u w'. get_id w = (Inr u, w') \<and> known u w'"
  using resolvesD [OF resolve] stable by (metis known_def)

lemma known_get_id: "known u w \<Longrightarrow> get_id w = (r, w') \<Longrightarrow> r = Inr u \<and> w' = w"
  by (simp add: known_def)

lemma known_preserved_get_id: "preserves (known u) get_id"
  by (auto simp: preserves_def known_def)

text \<open>However often it is asked, and whatever happens in between, one user has one id.\<close>

lemma get_id_same:
  assumes "ok w" and "get_id w = (Inr u, w1)" and "preserves (known u) m"
    and "m w1 = (r, w2)" and "get_id w2 = (Inr u', w3)"
  shows "u' = u \<and> w3 = w2"
proof -
  have "ok w1" using resolvesD [OF resolve assms(1)] assms(2) by auto
  then have "known u w1" using stable [OF assms(1,2)] by (simp add: known_def)
  with assms(3,4) have "known u w2" by (auto dest: preservesD)
  with assms(5) show ?thesis by (auto dest: known_get_id)
qed

end

definition nonempty_uuid :: "'e ident_env_scheme \<Rightarrow> bool" where
  "nonempty_uuid e \<longleftrightarrow> (\<forall>f. randomUUID e = Some f \<longrightarrow> (\<forall>n. f n \<noteq> ''''))"

lemma replaceXY_nonempty: "CHR ''-'' \<in> set t \<Longrightarrow> fst (replaceXY rnd n t) \<noteq> []"
  by (induction t arbitrary: n) (auto simp: split_def Let_def)

lemma generateUUID_resolves:
  assumes "nonempty_uuid e"
  obtains s v where "generateUUID e w = (Inr s, v)" "s \<noteq> ''''"
proof (cases "randomUUID e")
  case None
  have "CHR ''-'' \<in> set UUID_TEMPLATE" by (simp add: UUID_TEMPLATE_def)
  from replaceXY_nonempty [OF this] None that show ?thesis
    by (simp add: generateUUID_def split_def)
next
  case (Some f)
  with assms that show ?thesis by (simp add: generateUUID_def nonempty_uuid_def)
qed

lemma getLocalId_known: "localId w = Some s \<Longrightarrow> s \<noteq> '''' \<Longrightarrow> getLocalId e w = (Inr s, w)"
  by (simp add: getLocalId_def eff)

lemma getLocalId_resolves:
  assumes "nonempty_uuid e"
  obtains s v where "getLocalId e w = (Inr s, v)" "localId v = Some s" "s \<noteq> ''''"
proof (cases "localId w = None \<or> localId w = Some ''''")
  case True
  obtain s v where "generateUUID e w = (Inr s, v)" "s \<noteq> ''''"
    using assms by (rule generateUUID_resolves)
  with True that show ?thesis by (auto simp: getLocalId_def eff)
next
  case False
  with that show ?thesis by (auto simp: getLocalId_known)
qed

lemma getPublicUserId_known:
  "localId w = Some s \<Longrightarrow> s \<noteq> '''' \<Longrightarrow>
     getPublicUserId e w = (Inr (iteratedHash e s HASH_ITERATIONS), w)"
  by (simp add: getPublicUserId_def getLocalId_known eff)

lemma getPublicUserId_resolves:
  assumes "nonempty_uuid e"
  obtains s v where "getPublicUserId e w = (Inr (iteratedHash e s HASH_ITERATIONS), v)"
    "localId v = Some s" "s \<noteq> ''''"
proof -
  obtain s v where "getLocalId e w = (Inr s, v)" "localId v = Some s" "s \<noteq> ''''"
    using getLocalId_resolves [OF assms] .
  with that show ?thesis by (simp add: getPublicUserId_def eff)
qed

interpretation pid: user_identity "getPublicUserId e" "\<lambda>_. nonempty_uuid e"
  for e :: "'e ident_env_scheme"
proof unfold_locales
  show "resolves (\<lambda>_. nonempty_uuid e) (getPublicUserId e)"
    unfolding resolves_def by (metis getPublicUserId_resolves)
next
  fix w u and w' :: "'w ident_scheme"
  assume ok: "nonempty_uuid e" and got: "getPublicUserId e w = (Inr u, w')"
  obtain s where "u = iteratedHash e s HASH_ITERATIONS" "localId w' = Some s" "s \<noteq> ''''"
    using getPublicUserId_resolves [OF ok, of w] got by (metis Inr_inject prod.inject)
  then show "getPublicUserId e w' = (Inr u, w')"
    by (simp add: getPublicUserId_known)
qed

section \<open>Frames\<close>

definition ident_indep :: "('w ident_scheme \<Rightarrow> 'f) \<Rightarrow> bool" where
  "ident_indep f \<longleftrightarrow> (\<forall>w i n m. f (w\<lparr>localId := i\<rparr>) = f w \<and> f (w\<lparr>uuidCalls := n\<rparr>) = f w \<and>
     f (w\<lparr>randomCalls := m\<rparr>) = f w)"

lemma getLocalId_frame [frame]: "ident_indep f \<Longrightarrow> unchanged f (getLocalId e)"
  unfolding getLocalId_def
  by (intro frame unchanged_modE)
    (auto simp: ident_indep_def unchanged_def generateUUID_def split: option.splits prod.splits)

lemma getPublicUserId_frame [frame]: "ident_indep f \<Longrightarrow> unchanged f (getPublicUserId e)"
  unfolding getPublicUserId_def by (intro frame)

lemma idb_ident_indep [frame]:
  "ident_indep data" "ident_indep clock" "ident_indep idbOps" "ident_indep dbInstance"
  "ident_indep dbVersion" "ident_indep objectStoreNames" "ident_indep db_ok" "ident_indep db_up"
  by (simp_all add: ident_indep_def db_ok_def db_up_def)

lemma getPublicUserId_up: "nonempty_uuid e \<Longrightarrow> resolves db_up (getPublicUserId e)"
  using resolves_unchanged [OF pid.resolve getPublicUserId_frame [OF idb_ident_indep(8)], of e]
  by (simp add: resolves_def)

section \<open>Properties\<close>

definition sample_ident_env :: ident_env where
  "sample_ident_env = \<lparr>idbFault = (\<lambda>_. None), randomUUID = None, mathRandom = (\<lambda>_. 1 / 2),
     digest = (\<lambda>_. replicate 32 0)\<rparr>"

definition sample_ident :: ident where
  "sample_ident = idb.extend sample_idb \<lparr>localId = None, uuidCalls = 0, randomCalls = 0\<rparr>"



text \<open>
  C32: where the browser has no \<open>crypto.randomUUID\<close>, the fallback generates a string of the
  version 4 UUID shape: 36 characters, dashes and the version digit in place, the variant
  digit one of 8, 9, a, b, every other digit hexadecimal.
\<close>

theorem generateUUID_v4:
  assumes "randomUUID e = None" and "unit_random e"
  shows "\<exists>s w'. generateUUID e w = (Inr s, w') \<and>
           list_all2 uuid_char ''xxxxxxxx-xxxx-4xxx-yxxx-xxxxxxxxxxxx'' s \<and> length s = 36"
proof -
  let ?s = "fst (replaceXY (mathRandom e) (randomCalls w) UUID_TEMPLATE)"
  have *: "list_all2 uuid_char UUID_TEMPLATE ?s"
    using assms(2) by (intro replaceXY_shape) (simp add: unit_random_def)
  have "length ?s = 36"
    using list_all2_lengthD [OF *] by (simp add: UUID_TEMPLATE_def)
  with * assms(1) show ?thesis
    by (simp add: generateUUID_def split_def UUID_TEMPLATE_def)
qed

theorem generateUUID_v4_witness:
  "\<exists>s w'. generateUUID sample_ident_env sample_ident = (Inr s, w') \<and>
     list_all2 uuid_char ''xxxxxxxx-xxxx-4xxx-yxxx-xxxxxxxxxxxx'' s \<and> length s = 36"
  by (rule generateUUID_v4) (simp_all add: sample_ident_env_def unit_random_def)



end
