(* ===== verification/Api_Client.thy ===== *)
theory Api_Client
  imports Identity
begin

text \<open>
  \<open>background/api-client.ts\<close>: the HTTP client. \<open>fetch\<close> is the environment's: what the n-th
  request gives may depend on every request before it, so the server and the network are
  arbitrary. The state records the requests sent and the delays slept, the resolved base
  URL the module caches, and the \<open>serverUrl\<close> setting in \<open>chrome.storage.sync\<close> it is resolved
  from. A response's body is the value \<open>response.json()\<close> resolves to, of one of the shapes
  the module's interfaces declare, or None when \<open>json()\<close> rejects.
\<close>

section \<open>Data\<close>

record VoteRequest =
  videoId :: string
  category :: string
  userId :: string
  userAgent :: string

record VoteResponse =
  success :: bool
  newScore :: rat
  userTrust :: rat

record VideoResult =
  videoId :: string
  score :: rat
  categories :: Categories
  totalVotes :: int
  locked :: bool
  channelId :: string
  channelScore :: rat
  lastUpdated :: string

datatype delta_action = Update | Remove

record DeltaVideo =
  videoId :: string
  score :: "rat option"
  categories :: "Categories option"
  action :: delta_action

record DeltaChannel =
  channelId :: string
  score :: "rat option"
  action :: delta_action

record SyncDeltaResponse =
  videos :: "DeltaVideo list"
  channels :: "DeltaChannel list"
  syncTimestamp :: string

record FullChannel =
  channelId :: string
  score :: rat
  totalVideos :: int
  flaggedVideos :: int
  lastUpdated :: string

record SyncFullResponse =
  videos :: "VideoResult list"
  channels :: "FullChannel list"
  generatedAt :: string

record UserInfoResponse =
  userId :: string
  trustScore :: rat
  totalVotes :: int
  accuracyRate :: rat
  accountAge :: int
  isVip :: bool

datatype resp_body =
    VideosBody "VideoResult list"
  | VoteBody VoteResponse
  | DeltaBody SyncDeltaResponse
  | FullBody SyncFullResponse
  | UserBody UserInfoResponse
  | ErrorBody "string option"

record response =
  status :: nat
  retryAfter :: "string option"
  respBody :: "resp_body option"

datatype http_method = GET | POST | DELETE

datatype json_body = VoteJson VoteRequest | DeleteJson string string

record request =
  url :: string
  "method" :: http_method
  headers :: "(string \<times> string) list"
  reqBody :: "json_body option"

record http = ident +
  cachedBaseUrl :: "string option"
  serverUrl :: "string option"
  requests :: "request list"
  sleeps :: "int option list"

record api_env = ident_env +
  fetch :: "request list \<Rightarrow> request \<Rightarrow> js_error + response"

definition DEFAULT_BASE_URL :: string where
  "DEFAULT_BASE_URL = ''http://localhost:8080''"

definition MAX_RETRIES :: nat where
  "MAX_RETRIES = 3"

definition BASE_DELAY_MS :: int where
  "BASE_DELAY_MS = 1000"

section \<open>Base URL\<close>

text \<open>The listener on \<open>chrome.storage.onChanged\<close>: \<open>area\<close>, and whether \<open>serverUrl\<close> changed.\<close>

definition onStorageChanged :: "string \<Rightarrow> bool \<Rightarrow> 'w http_scheme \<Rightarrow> 'w http_scheme" where
  "onStorageChanged area serverUrlChanged w =
     (if area = ''sync'' \<and> serverUrlChanged then w\<lparr>cachedBaseUrl := None\<rparr> else w)"

text \<open>
  The pattern \<open>^http://localhost(:\d+)?\<close>, not anchored at the end: the optional port group
  matches the empty string where there is no port.
\<close>

definition matchPort :: "string \<Rightarrow> bool" where
  "matchPort rest = ((case rest of c # d # _ \<Rightarrow> c = CHR '':'' \<and> isDigit d | _ \<Rightarrow> False) \<or> startsWith rest [])"

definition matchLocalhost :: "string \<Rightarrow> bool" where
  "matchLocalhost u =
     (startsWith u ''http://localhost'' \<and> matchPort (drop (length ''http://localhost'') u))"

definition url_allowed :: "string \<Rightarrow> bool" where
  "url_allowed u = (startsWith u ''https://'' \<or> matchLocalhost u)"

definition resolveBaseUrl :: "string option \<Rightarrow> string" where
  "resolveBaseUrl setting =
     (let u = (case setting of None \<Rightarrow> DEFAULT_BASE_URL
                 | Some s \<Rightarrow> if s = '''' then DEFAULT_BASE_URL else s)
      in if \<not> url_allowed u then DEFAULT_BASE_URL else u)"

definition getConfig :: "('w http_scheme, string) eff" where
  "getConfig =
     bindE (getE cachedBaseUrl) (\<lambda>cached.
       if cached \<noteq> None \<and> cached \<noteq> Some '''' then retE (the cached)
       else bindE (getE serverUrl) (\<lambda>setting.
              bindE (modE (\<lambda>w. w\<lparr>cachedBaseUrl := Some (resolveBaseUrl setting)\<rparr>)) (\<lambda>_.
                retE (resolveBaseUrl setting))))"

section \<open>Fetch with retry\<close>

definition fetchOnce :: "'e api_env_scheme \<Rightarrow> request \<Rightarrow> ('w http_scheme, response) eff" where
  "fetchOnce e req w = (fetch e (requests w) req, w\<lparr>requests := requests w @ [req]\<rparr>)"

definition sleep :: "int option \<Rightarrow> ('w http_scheme, unit) eff" where
  "sleep d = modE (\<lambda>w. w\<lparr>sleeps := sleeps w @ [d], clock := clock w + timerDelay d\<rparr>)"

definition backoff :: "nat \<Rightarrow> int option" where
  "backoff attempt = Some (BASE_DELAY_MS * 2 ^ attempt)"

definition rateLimitDelay :: "response \<Rightarrow> nat \<Rightarrow> int option" where
  "rateLimitDelay resp attempt =
     (if retryAfter resp \<noteq> None \<and> retryAfter resp \<noteq> Some ''''
      then map_option (\<lambda>n. n * 1000) (parseInt (the (retryAfter resp)))
      else backoff attempt)"

function fetchAttempt ::
  "'e api_env_scheme \<Rightarrow> request \<Rightarrow> nat \<Rightarrow> nat \<Rightarrow> ('w http_scheme, response) eff" where
  "fetchAttempt e req retries attempt =
     (if attempt \<le> retries then
        (\<lambda>w. case fetchOnce e req w of
           (Inr resp, w') \<Rightarrow>
             if status resp = 429 \<and> attempt < retries
             then bindE (sleep (rateLimitDelay resp attempt))
                    (\<lambda>_. fetchAttempt e req retries (Suc attempt)) w'
             else (Inr resp, w')
         | (Inl err, w') \<Rightarrow>
             if attempt < retries
             then bindE (sleep (backoff attempt))
                    (\<lambda>_. fetchAttempt e req retries (Suc attempt)) w'
             else (Inl err, w'))
      else throwE (Error ''fetchWithRetry exhausted retries''))"
  by pat_completeness auto
termination
  by (relation "measure (\<lambda>(e, req, retries, attempt). Suc retries - attempt)") auto

declare fetchAttempt.simps [simp del]

definition fetchWithRetry :: "'e api_env_scheme \<Rightarrow> request \<Rightarrow> ('w http_scheme, response) eff" where
  "fetchWithRetry e req = fetchAttempt e req MAX_RETRIES 0"

section \<open>Endpoints\<close>

definition resp_ok :: "response \<Rightarrow> bool" where
  "resp_ok resp = (200 \<le> status resp \<and> status resp \<le> 299)"

definition getReq :: "string \<Rightarrow> request" where
  "getReq u = \<lparr>url = u, method = GET, headers = [], reqBody = None\<rparr>"

definition jsonReq :: "string \<Rightarrow> http_method \<Rightarrow> json_body \<Rightarrow> request" where
  "jsonReq u m b = \<lparr>url = u, method = m, headers = [(''Content-Type'', ''application/json'')], reqBody = Some b\<rparr>"

text \<open>
  \<open>response.json()\<close>: the functions pass the parsed body on unexamined; a body of another
  shape than the endpoint's makes the caller fail with a TypeError where it first uses it,
  which is what the \<open>as_*\<close> casts are for.
\<close>

definition json :: "response \<Rightarrow> ('w, resp_body) eff" where
  "json resp = (case respBody resp of None \<Rightarrow> throwE (Error ''SyntaxError'') | Some b \<Rightarrow> retE b)"

definition as_videos :: "resp_body \<Rightarrow> ('w, VideoResult list) eff" where
  "as_videos b = (case b of VideosBody vs \<Rightarrow> retE vs | _ \<Rightarrow> throwE (Error ''TypeError''))"

definition as_delta :: "resp_body \<Rightarrow> ('w, SyncDeltaResponse) eff" where
  "as_delta b = (case b of DeltaBody d \<Rightarrow> retE d | _ \<Rightarrow> throwE (Error ''TypeError''))"

definition as_full :: "resp_body \<Rightarrow> ('w, SyncFullResponse) eff" where
  "as_full b = (case b of FullBody d \<Rightarrow> retE d | _ \<Rightarrow> throwE (Error ''TypeError''))"

text \<open>\<open>body?.error?.message || fallback\<close>, an unreadable body counting as \<open>{}\<close>.\<close>

definition errorMessage :: "response \<Rightarrow> string \<Rightarrow> string" where
  "errorMessage resp fallback =
     (case respBody resp of Some (ErrorBody (Some msg)) \<Rightarrow> if msg = '''' then fallback else msg
      | _ \<Rightarrow> fallback)"

definition lookupVideosByPrefix ::
  "'e api_env_scheme \<Rightarrow> string \<Rightarrow> ('w http_scheme, resp_body) eff" where
  "lookupVideosByPrefix e hashPrefix =
     bindE getConfig (\<lambda>baseUrl.
     bindE (fetchWithRetry e (getReq (baseUrl @ ''/api/videos/'' @ encodeURIComponent hashPrefix))) (\<lambda>resp.
       if status resp = 404 then retE (VideosBody [])
       else if \<not> resp_ok resp then throwE (Error (''API error: '' @ toString10 (status resp)))
       else json resp))"

definition submitVote :: "'e api_env_scheme \<Rightarrow> VoteRequest \<Rightarrow> ('w http_scheme, resp_body) eff" where
  "submitVote e vote =
     bindE getConfig (\<lambda>baseUrl.
     bindE (fetchWithRetry e (jsonReq (baseUrl @ ''/api/votes'') POST (VoteJson vote))) (\<lambda>resp.
       if \<not> resp_ok resp
       then throwE (Error (errorMessage resp (''Vote failed: '' @ toString10 (status resp))))
       else json resp))"

definition deleteVote :: "'e api_env_scheme \<Rightarrow> string \<Rightarrow> string \<Rightarrow> ('w http_scheme, unit) eff" where
  "deleteVote e vid uid =
     bindE getConfig (\<lambda>baseUrl.
     bindE (fetchWithRetry e (jsonReq (baseUrl @ ''/api/votes'') DELETE (DeleteJson vid uid))) (\<lambda>resp.
       if \<not> resp_ok resp
       then throwE (Error (errorMessage resp (''Delete vote failed: '' @ toString10 (status resp))))
       else retE ()))"

definition syncDelta :: "'e api_env_scheme \<Rightarrow> string \<Rightarrow> ('w http_scheme, resp_body) eff" where
  "syncDelta e since =
     bindE getConfig (\<lambda>baseUrl.
     bindE (fetchWithRetry e (getReq (baseUrl @ ''/api/sync/delta?since='' @ encodeURIComponent since))) (\<lambda>resp.
       if \<not> resp_ok resp then throwE (Error (''Sync delta failed: '' @ toString10 (status resp)))
       else json resp))"

definition syncFull :: "'e api_env_scheme \<Rightarrow> ('w http_scheme, resp_body) eff" where
  "syncFull e =
     bindE getConfig (\<lambda>baseUrl.
     bindE (fetchWithRetry e (getReq (baseUrl @ ''/api/sync/full''))) (\<lambda>resp.
       if \<not> resp_ok resp then throwE (Error (''Sync full failed: '' @ toString10 (status resp)))
       else json resp))"

definition getUserInfo :: "'e api_env_scheme \<Rightarrow> string \<Rightarrow> ('w http_scheme, resp_body) eff" where
  "getUserInfo e uid =
     bindE getConfig (\<lambda>baseUrl.
     bindE (fetchWithRetry e (getReq (baseUrl @ ''/api/users/'' @ encodeURIComponent uid))) (\<lambda>resp.
       if \<not> resp_ok resp then throwE (Error (''User info failed: '' @ toString10 (status resp)))
       else json resp))"

section \<open>What a fetch with retries does\<close>

text \<open>
  \<open>outcome e w req i\<close>: what the i-th attempt (from 0) of a request meets. An attempt is
  retried when the network failed or the server answered 429.
\<close>

definition outcome :: "'e api_env_scheme \<Rightarrow> 'w http_scheme \<Rightarrow> request \<Rightarrow> nat \<Rightarrow> js_error + response" where
  "outcome e w req i = fetch e (requests w @ replicate i req) req"

definition retryable :: "js_error + response \<Rightarrow> bool" where
  "retryable out = (case out of Inl _ \<Rightarrow> True | Inr resp \<Rightarrow> status resp = 429)"

definition retryDelay :: "js_error + response \<Rightarrow> nat \<Rightarrow> int option" where
  "retryDelay out attempt =
     (case out of Inl _ \<Rightarrow> backoff attempt | Inr resp \<Rightarrow> rateLimitDelay resp attempt)"

text \<open>The number of attempts that are followed by another one.\<close>

definition retryCount :: "'e api_env_scheme \<Rightarrow> 'w http_scheme \<Rightarrow> request \<Rightarrow> nat \<Rightarrow> nat" where
  "retryCount e w req retries = length (takeWhile (\<lambda>i. retryable (outcome e w req i)) [0..<retries])"

lemma retryCount_le: "retryCount e w req n \<le> n"
  unfolding retryCount_def by (metis length_takeWhile_le length_upt minus_nat.diff_0)

lemma retryCount_0 [simp]: "retryCount e w req 0 = 0"
  by (simp add: retryCount_def)

lemma retryCount_retryable: "i < retryCount e w req n \<Longrightarrow> retryable (outcome e w req i)"
  unfolding retryCount_def
  by (metis (no_types, lifting) add_0 length_takeWhile_le length_upt minus_nat.diff_0
      nth_mem nth_upt order_less_le_trans set_takeWhileD takeWhile_nth)

lemma retryCount_stop: "retryCount e w req n < n \<Longrightarrow> \<not> retryable (outcome e w req (retryCount e w req n))"
  unfolding retryCount_def
  using nth_length_takeWhile [of "\<lambda>i. retryable (outcome e w req i)" "[0..<n]"] by simp

lemma outcome_Suc:
  "outcome e (w\<lparr>requests := requests w @ [req], sleeps := ss, clock := c\<rparr>) req i = outcome e w req (Suc i)"
  by (simp add: outcome_def)

lemma retryCount_Suc:
  "retryCount e w req (Suc n) =
     (if retryable (outcome e w req 0)
      then Suc (retryCount e (w\<lparr>requests := requests w @ [req], sleeps := ss, clock := c\<rparr>) req n) else 0)"
  by (simp add: retryCount_def outcome_Suc upt_conv_Cons takeWhile_map o_def
      del: upt_Suc flip: map_Suc_upt)

text \<open>The state after \<open>k\<close> attempts that were each followed by a sleep, and one more.\<close>

definition afterRetries ::
  "'e api_env_scheme \<Rightarrow> 'w http_scheme \<Rightarrow> request \<Rightarrow> nat \<Rightarrow> nat \<Rightarrow> 'w http_scheme" where
  "afterRetries e w req a k =
     w\<lparr>requests := requests w @ replicate (Suc k) req,
       sleeps := sleeps w @ map (\<lambda>i. retryDelay (outcome e w req i) (a + i)) [0..<k],
       clock := clock w + (\<Sum>i\<leftarrow>[0..<k]. timerDelay (retryDelay (outcome e w req i) (a + i)))\<rparr>"

lemma afterRetries_Suc:
  "d = retryDelay (outcome e w req 0) a \<Longrightarrow>
   w1 = w\<lparr>requests := requests w @ [req], sleeps := sleeps w @ [d], clock := clock w + timerDelay d\<rparr> \<Longrightarrow>
   afterRetries e w1 req (Suc a) k = afterRetries e w req a (Suc k)"
  by (simp add: afterRetries_def outcome_Suc upt_conv_Cons o_def del: upt_Suc flip: map_Suc_upt)

lemma fetchAttempt_spec:
  "fetchAttempt e req (a + n) a w =
     (outcome e w req (retryCount e w req n), afterRetries e w req a (retryCount e w req n))"
proof (induction n arbitrary: a w)
  case 0
  show ?case
    by (subst fetchAttempt.simps)
      (simp add: fetchOnce_def outcome_def afterRetries_def split: sum.splits)
next
  case (Suc n)
  define d where "d = retryDelay (outcome e w req 0) a"
  define w1 where "w1 = w\<lparr>requests := requests w @ [req], sleeps := sleeps w @ [d], clock := clock w + timerDelay d\<rparr>"
  have step: "fetchAttempt e req (a + Suc n) a w =
      (if retryable (outcome e w req 0) then fetchAttempt e req (Suc a + n) (Suc a) w1
       else (outcome e w req 0, w\<lparr>requests := requests w @ [req]\<rparr>))"
    by (subst fetchAttempt.simps)
      (auto simp: fetchOnce_def outcome_def retryable_def sleep_def eff w1_def d_def retryDelay_def
        split: sum.splits)
  show ?case
  proof (cases "retryable (outcome e w req 0)")
    case True
    have "outcome e w1 req i = outcome e w req (Suc i)" for i
      by (simp add: w1_def outcome_Suc)
    moreover have "retryCount e w req (Suc n) = Suc (retryCount e w1 req n)"
      using True retryCount_Suc [where e = e and w = w and ss = "sleeps w @ [d]" and c = "clock w + timerDelay d"]
      by (simp add: w1_def)
    ultimately show ?thesis
      using step True Suc.IH [of "Suc a" w1] afterRetries_Suc [OF d_def w1_def]
      by simp
  next
    case False
    with step show ?thesis
      by (simp add: retryCount_Suc [where e = e and w = w and ss = "sleeps w" and c = "clock w"] afterRetries_def)
  qed
qed

lemma fetchWithRetry_eq:
  "fetchWithRetry e req w =
     (outcome e w req (retryCount e w req MAX_RETRIES),
      afterRetries e w req 0 (retryCount e w req MAX_RETRIES))"
  using fetchAttempt_spec [of e req 0 MAX_RETRIES w] by (simp add: fetchWithRetry_def)

section \<open>Frames and the URL invariant\<close>

definition http_indep :: "('w http_scheme \<Rightarrow> 'f) \<Rightarrow> bool" where
  "http_indep f \<longleftrightarrow> (\<forall>w rs ss c b. f (w\<lparr>requests := rs\<rparr>) = f w \<and> f (w\<lparr>sleeps := ss\<rparr>) = f w \<and>
     f (w\<lparr>clock := c\<rparr>) = f w \<and> f (w\<lparr>cachedBaseUrl := b\<rparr>) = f w)"

lemma getConfig_frame: "http_indep f \<Longrightarrow> unchanged f getConfig"
  unfolding getConfig_def by (intro frame unchanged_modE) (simp add: http_indep_def)

lemma afterRetries_frame: "http_indep f \<Longrightarrow> f (afterRetries e w req a k) = f w"
  by (simp add: http_indep_def afterRetries_def)

lemma fetchWithRetry_frame: "http_indep f \<Longrightarrow> unchanged f (fetchWithRetry e req)"
  by (simp add: unchanged_def fetchWithRetry_eq afterRetries_frame)

lemma json_frame: "unchanged f (json resp)"
  by (simp add: json_def unchanged_def throwE_def retE_def split: option.splits)

lemma cast_frame [frame]:
  "unchanged f (as_videos b)" "unchanged f (as_delta b)" "unchanged f (as_full b)"
  by (simp_all add: as_videos_def as_delta_def as_full_def frame split: resp_body.split)

lemmas api_defs = lookupVideosByPrefix_def submitVote_def deleteVote_def syncDelta_def
  syncFull_def getUserInfo_def

lemma api_frame [frame]:
  assumes "http_indep f"
  shows "unchanged f (lookupVideosByPrefix e p)" "unchanged f (submitVote e v)"
    "unchanged f (deleteVote e a b)" "unchanged f (syncDelta e s)" "unchanged f (syncFull e)"
    "unchanged f (getUserInfo e u)"
  unfolding api_defs
  by (intro unchanged_bindE unchanged_if unchanged_retE unchanged_throwE json_frame
      getConfig_frame fetchWithRetry_frame assms)+

lemma base_http_indep [frame]:
  "http_indep data" "http_indep idbOps" "http_indep dbInstance" "http_indep dbVersion"
  "http_indep objectStoreNames" "http_indep localId" "http_indep db_ok" "http_indep db_up"
  "http_indep serverUrl"
  by (simp_all add: http_indep_def db_ok_def db_up_def)

lemma http_idb_indep [frame]:
  "idb_indep cachedBaseUrl" "idb_indep serverUrl" "idb_indep requests" "idb_indep sleeps"
  by (simp_all add: idb_indep_def)

lemma http_ident_indep [frame]:
  "ident_indep cachedBaseUrl" "ident_indep serverUrl" "ident_indep requests" "ident_indep sleeps"
  by (simp_all add: ident_indep_def)

text \<open>The regular expression is a prefix test: its port group never decides anything.\<close>

lemma matchLocalhost_prefix: "matchLocalhost u \<longleftrightarrow> startsWith u ''http://localhost''"
  by (auto simp: matchLocalhost_def matchPort_def)

lemma startsWith_extend: "startsWith u p \<Longrightarrow> startsWith (u @ t) p"
  by (auto simp: startsWith_iff)

lemma url_allowed_append: "url_allowed u \<Longrightarrow> url_allowed (u @ t)"
  by (auto simp: url_allowed_def matchLocalhost_prefix startsWith_extend)

lemma resolveBaseUrl_allowed: "url_allowed (resolveBaseUrl s)"
  by (auto simp: resolveBaseUrl_def Let_def url_allowed_def matchLocalhost_prefix DEFAULT_BASE_URL_def
      startsWith_def)

text \<open>The cached base URL and the URL of every request sent so far are allowed ones.\<close>

definition urls_ok :: "'w http_scheme \<Rightarrow> bool" where
  "urls_ok w \<longleftrightarrow> (\<forall>u. cachedBaseUrl w = Some u \<longrightarrow> u \<noteq> '''' \<longrightarrow> url_allowed u) \<and>
     (\<forall>r \<in> set (requests w). url_allowed (url r))"

lemma getConfig_Inr:
  "getConfig w = (r, w') \<Longrightarrow> urls_ok w \<Longrightarrow> \<exists>u. r = Inr u \<and> url_allowed u \<and> urls_ok w'"
  by (auto simp: getConfig_def eff urls_ok_def resolveBaseUrl_allowed split: if_splits)

lemma fetchWithRetry_urls_ok: "url_allowed (url req) \<Longrightarrow> preserves urls_ok (fetchWithRetry e req)"
  by (auto simp: preserves_def fetchWithRetry_eq afterRetries_def urls_ok_def)

lemma config_request_urls_ok:
  assumes "\<And>u. url_allowed u \<Longrightarrow> url_allowed (url (req u))" "\<And>resp. preserves urls_ok (k resp)"
  shows "preserves urls_ok (bindE getConfig (\<lambda>baseUrl. bindE (fetchWithRetry e (req baseUrl)) k)
    :: ('w http_scheme, 'a) eff)"
  unfolding preserves_def
proof (intro allI impI)
  fix w :: "'w http_scheme" assume ok: "urls_ok w"
  obtain r w1 where "getConfig w = (r, w1)" by fastforce
  with getConfig_Inr [OF this ok] obtain u where
    u: "getConfig w = (Inr u, w1)" "url_allowed u" "urls_ok w1" by blast
  have "preserves urls_ok (bindE (fetchWithRetry e (req u)) k)"
    using assms u(2) by (intro preserves_bindE fetchWithRetry_urls_ok)
  with u show "urls_ok (snd (bindE getConfig (\<lambda>baseUrl. bindE (fetchWithRetry e (req baseUrl)) k) w))"
    by (simp add: bindE_def preserves_def)
qed

lemma api_urls_ok [pres]:
  "preserves urls_ok (lookupVideosByPrefix e p)" "preserves urls_ok (submitVote e v)"
  "preserves urls_ok (deleteVote e a b)" "preserves urls_ok (syncDelta e s)"
  "preserves urls_ok (syncFull e)" "preserves urls_ok (getUserInfo e u)"
  unfolding api_defs
  by (intro config_request_urls_ok preserves_if preserves_retE preserves_throwE
      unchanged_preserves json_frame; simp add: getReq_def jsonReq_def url_allowed_append)+

section \<open>The module as a transition system\<close>

text \<open>
  A step is an exported function run to its end, the user writing the \<open>serverUrl\<close> setting,
  or the storage listener running (the browser delivers it some time after the write).
\<close>

inductive http_step :: "'e api_env_scheme \<Rightarrow> 'w http_scheme \<Rightarrow> 'w http_scheme \<Rightarrow> bool"
  for e :: "'e api_env_scheme" where
  "lookupVideosByPrefix e p w = (r, w') \<Longrightarrow> http_step e w w'"
| "submitVote e v w = (r, w') \<Longrightarrow> http_step e w w'"
| "deleteVote e a b w = (r', w') \<Longrightarrow> http_step e w w'"
| "syncDelta e s w = (r, w') \<Longrightarrow> http_step e w w'"
| "syncFull e w = (r, w') \<Longrightarrow> http_step e w w'"
| "getUserInfo e u w = (r, w') \<Longrightarrow> http_step e w w'"
| "http_step e w (w\<lparr>serverUrl := s'\<rparr>)"
| "http_step e w (onStorageChanged area changed w)"

lemma http_step_urls_ok: "http_step e w w' \<Longrightarrow> urls_ok w \<Longrightarrow> urls_ok w'"
proof (induction rule: http_step.induct)
  case (8 w area changed)
  then show ?case by (simp add: urls_ok_def onStorageChanged_def)
qed (auto dest: api_urls_ok [THEN preservesD] simp: urls_ok_def)

definition fresh_http :: "'w http_scheme \<Rightarrow> bool" where
  "fresh_http w \<longleftrightarrow> cachedBaseUrl w = None \<and> requests w = [] \<and> sleeps w = []"

lemma fresh_http_urls_ok: "fresh_http w \<Longrightarrow> urls_ok w"
  by (simp add: fresh_http_def urls_ok_def)

interpretation http_system: step_system "http_step e" urls_ok
  by unfold_locales (rule http_step_urls_ok)

section \<open>Properties\<close>

definition sample_request :: request where
  "sample_request = getReq ''http://localhost:8080/api/sync/full''"

definition sample_api_env :: "(request list \<Rightarrow> request \<Rightarrow> js_error + response) \<Rightarrow> api_env" where
  "sample_api_env f = ident_env.extend sample_ident_env \<lparr>fetch = f\<rparr>"

definition sample_http :: http where
  "sample_http = ident.extend sample_ident
     \<lparr>cachedBaseUrl = None, serverUrl = None, requests = [], sleeps = []\<rparr>"

lemma sample_api_env_fetch [simp]: "fetch (sample_api_env f) = f"
  by (simp add: sample_api_env_def ident_env.defs)

lemma sample_http_simps [simp]:
  "cachedBaseUrl sample_http = None" "serverUrl sample_http = None" "requests sample_http = []"
  "sleeps sample_http = []" "clock sample_http = 0"
  by (simp_all add: sample_http_def ident.defs sample_ident_def idb.defs sample_idb_def)

text \<open>
  C6: a fetch makes at most four attempts and returns what the last one met. It stops at the
  first attempt that is neither a network failure nor a 429 answer, or after the fourth; every
  attempt sends the same request; between attempts it sleeps the delay the code computes.
  The error after the loop is unreachable.
\<close>

theorem fetchWithRetry_spec:
  "\<exists>k \<le> 3. (\<forall>i < k. retryable (outcome e w req i)) \<and>
     (k < 3 \<longrightarrow> \<not> retryable (outcome e w req k)) \<and>
     (\<exists>w'. fetchWithRetry e req w = (outcome e w req k, w') \<and>
        requests w' = requests w @ replicate (Suc k) req \<and>
        sleeps w' = sleeps w @ map (\<lambda>i. retryDelay (outcome e w req i) i) [0..<k])"
proof -
  let ?k = "retryCount e w req MAX_RETRIES"
  have "?k \<le> 3" using retryCount_le [of e w req MAX_RETRIES] by (simp add: MAX_RETRIES_def)
  moreover have "?k < 3 \<longrightarrow> \<not> retryable (outcome e w req ?k)"
    using retryCount_stop [of e w req MAX_RETRIES] by (simp add: MAX_RETRIES_def)
  ultimately show ?thesis
    by (intro exI [of _ ?k]) (simp add: fetchWithRetry_eq retryCount_retryable afterRetries_def)
qed

theorem fetchWithRetry_spec_witness:
  "fst (fetchWithRetry (sample_api_env (\<lambda>_ _. Inl (Error ''Failed to fetch''))) sample_request sample_http)
     = Inl (Error ''Failed to fetch'')"
proof -
  let ?e = "sample_api_env (\<lambda>_ _. Inl (Error ''Failed to fetch''))"
  obtain k where "fst (fetchWithRetry ?e sample_request sample_http) = outcome ?e sample_http sample_request k"
    using fetchWithRetry_spec [of ?e sample_http sample_request] by auto
  then show ?thesis by (simp add: outcome_def)
qed

text \<open>
  While the network is down a fetch tries four times, waits 1, 2 and 4 seconds in
  between, seven seconds in all, and rejects with the error of the last attempt.
\<close>

theorem fetch_offline_backoff:
  assumes "\<And>i. i < 4 \<Longrightarrow> outcome e w req i = Inl (err i)"
  shows "\<exists>w'. fetchWithRetry e req w = (Inl (err 3), w') \<and> requests w' = requests w @ [req, req, req, req] \<and>
     sleeps w' = sleeps w @ [Some 1000, Some 2000, Some 4000] \<and> clock w' = clock w + 7000"
proof -
  have k: "retryCount e w req MAX_RETRIES = 3"
    by (simp add: retryCount_def MAX_RETRIES_def upt_rec assms retryable_def)
  show ?thesis
    by (simp add: fetchWithRetry_eq k afterRetries_def assms upt_rec retryDelay_def backoff_def
        BASE_DELAY_MS_def timerDelay_small eval_nat_numeral)
qed

theorem fetch_offline_backoff_witness:
  "clock (snd (fetchWithRetry (sample_api_env (\<lambda>_ _. Inl (Error ''Failed to fetch''))) sample_request sample_http))
     = 7000"
proof -
  let ?e = "sample_api_env (\<lambda>_ _. Inl (Error ''Failed to fetch''))"
  have "outcome ?e sample_http sample_request i = Inl (Error ''Failed to fetch'')" for i
    by (simp add: outcome_def)
  from fetch_offline_backoff [of ?e sample_http sample_request "\<lambda>_. Error ''Failed to fetch''", OF this]
  show ?thesis by auto
qed

text \<open>
  A \<open>Retry-After\<close> header that is an HTTP date, as RFC 9110 allows, is read as NaN and the
  request is retried at once: a server that keeps answering 429 with a date gets all four
  attempts with no pause.
\<close>

theorem retryAfter_date_no_wait:
  assumes "\<And>i. i < 4 \<Longrightarrow> outcome e w req i = Inr resp" and "status resp = 429"
    and "retryAfter resp = Some (c # cs)"
    and "\<not> isSpace c" and "\<not> isDigit c" and "c \<noteq> CHR ''-''" and "c \<noteq> CHR ''+''"
  shows "\<exists>w'. fetchWithRetry e req w = (Inr resp, w') \<and>
     requests w' = requests w @ [req, req, req, req] \<and> clock w' = clock w"
proof -
  have k: "retryCount e w req MAX_RETRIES = 3"
    by (simp add: retryCount_def MAX_RETRIES_def upt_rec assms retryable_def)
  have nan: "parseInt (c # cs) = None" using assms(4-7) by (rule parseInt_non_digit)
  show ?thesis
    by (simp add: fetchWithRetry_eq k afterRetries_def assms(1-3) upt_rec retryDelay_def
        rateLimitDelay_def nan timerDelay_def eval_nat_numeral)
qed

definition sample_429 :: response where
  "sample_429 = \<lparr>status = 429, retryAfter = Some ''Wed, 21 Oct 2015 07:28:00 GMT'', respBody = None\<rparr>"

theorem retryAfter_date_no_wait_witness:
  "clock (snd (fetchWithRetry (sample_api_env (\<lambda>_ _. Inr sample_429)) sample_request sample_http)) = 0"
proof -
  let ?e = "sample_api_env (\<lambda>_ _. Inr sample_429)"
  have "\<exists>w'. fetchWithRetry ?e sample_request sample_http = (Inr sample_429, w') \<and>
     requests w' = requests sample_http @ [sample_request, sample_request, sample_request, sample_request] \<and>
     clock w' = clock sample_http"
    by (rule retryAfter_date_no_wait [where c = "CHR ''W''" and cs = "''ed, 21 Oct 2015 07:28:00 GMT''"])
      (simp_all add: outcome_def sample_429_def isSpace_def isDigit_def)
  then show ?thesis by auto
qed

text \<open>
  C31: whatever the user enters as server URL, and whatever the servers answer, every
  request the extension sends goes to a URL that starts with \<open>https://\<close> or with
  \<open>http://localhost\<close>.
\<close>

theorem requests_secure:
  assumes "fresh_http w0" and "rtranclp (http_step e) w0 w" and "r \<in> set (requests w)"
  shows "startsWith (url r) ''https://'' \<or> startsWith (url r) ''http://localhost''"
  using http_system.steps_ok [OF assms(2) fresh_http_urls_ok [OF assms(1)]] assms(3)
  by (auto simp: urls_ok_def url_allowed_def matchLocalhost_prefix)

lemma sample_http_fresh: "fresh_http sample_http"
  by (simp add: fresh_http_def)

theorem requests_secure_witness:
  "list_all (\<lambda>r. startsWith (url r) ''https://'' \<or> startsWith (url r) ''http://localhost'')
     (requests (snd (syncFull (sample_api_env (\<lambda>_ _. Inr sample_429))
        (sample_http\<lparr>serverUrl := Some ''http://evil.example''\<rparr>))))"
  unfolding list_all_iff
proof
  let ?e = "sample_api_env (\<lambda>_ _. Inr sample_429)"
  let ?w = "sample_http\<lparr>serverUrl := Some ''http://evil.example''\<rparr>"
  fix r assume r: "r \<in> set (requests (snd (syncFull ?e ?w)))"
  have 1: "http_step ?e sample_http ?w" by (rule http_step.intros(7))
  have 2: "http_step ?e ?w (snd (syncFull ?e ?w))"
    by (rule http_step.intros(5) [of _ _ "fst (syncFull ?e ?w)"]) simp
  have "rtranclp (http_step ?e) sample_http (snd (syncFull ?e ?w))"
    using 1 2 by (meson rtranclp.rtrancl_refl rtranclp.rtrancl_into_rtrancl)
  then show "startsWith (url r) ''https://'' \<or> startsWith (url r) ''http://localhost''"
    by (rule requests_secure [OF sample_http_fresh _ r])
qed

text \<open>
  The localhost exception is wider than localhost. The pattern is not anchored, so any
  setting that merely begins with \<open>http://localhost\<close> is used as it is, an arbitrary remote
  host over plain HTTP included.
\<close>

theorem getConfig_accepts_localhost_prefix:
  assumes "cachedBaseUrl w = None" and "serverUrl w = Some (''http://localhost'' @ rest)"
  shows "fst (getConfig w) = Inr (''http://localhost'' @ rest)"
proof -
  have "url_allowed (''http://localhost'' @ rest)"
    unfolding url_allowed_def matchLocalhost_prefix by (metis startsWith_append)
  with assms show ?thesis
    by (simp add: getConfig_def eff resolveBaseUrl_def Let_def)
qed

theorem getConfig_accepts_localhost_prefix_witness:
  "fst (getConfig (sample_http\<lparr>serverUrl := Some ''http://localhost.evil.example''\<rparr>))
     = Inr ''http://localhost.evil.example''"
  using getConfig_accepts_localhost_prefix
    [of "sample_http\<lparr>serverUrl := Some ''http://localhost.evil.example''\<rparr>" "''.evil.example''"] by simp

end
