(* ===== verification/Sync.thy ===== *)
theory Sync
  imports Api_Client
begin

text \<open>
  \<open>background/sync.ts\<close>: the delta sync, which applies the server's list of changes since the
  last sync to the cached videos and channels, the full sync, which rebuilds both stores from
  the server's snapshot, the choice between the two (\<open>autoSync\<close>) and the timers that run it.
  \<open>dateParse\<close> is \<open>new Date(s).getTime()\<close> (None for an invalid date), \<open>toISOString\<close> its
  inverse; both are the platform's.
\<close>

section \<open>State, environment, results\<close>

record sync = http +
  syncTimer :: "int option"
  startupSyncTimer :: "int option"

record sync_env = api_env +
  dateParse :: "string \<Rightarrow> int option"
  toISOString :: "int \<Rightarrow> string"

record DeltaSyncResult =
  videosUpdated :: nat
  videosRemoved :: nat
  channelsUpdated :: nat
  channelsRemoved :: nat

record FullSyncResult =
  videoCount :: nat
  channelCount :: nat

record SyncStatus =
  lastDeltaSync :: "string option"
  lastFullSync :: "string option"
  videoCount :: nat
  channelCount :: nat

definition DELTA_SYNC_INTERVAL_MS :: int where
  "DELTA_SYNC_INTERVAL_MS = 30 * 60 * 1000"

definition FULL_SYNC_INTERVAL_MS :: int where
  "FULL_SYNC_INTERVAL_MS = 24 * 60 * 60 * 1000"

definition META_LAST_DELTA_SYNC :: string where
  "META_LAST_DELTA_SYNC = ''lastDeltaSync''"

definition META_LAST_FULL_SYNC :: string where
  "META_LAST_FULL_SYNC = ''lastFullSync''"

text \<open>The catch clauses: an Error whose message contains 429 is a rate limit.\<close>

definition rateLimited :: "js_error \<Rightarrow> bool" where
  "rateLimited err = (case err of Error msg \<Rightarrow> strIncludes msg ''429'' | Thrown _ \<Rightarrow> False)"

definition catch429 :: "('w, 'a) eff \<Rightarrow> ('w, 'a option) eff" where
  "catch429 m = catchE (bindE m (\<lambda>a. retE (Some a)))
     (\<lambda>err. if rateLimited err then retE None else throwE err)"

section \<open>Delta sync\<close>

definition isUpsert :: "DeltaVideo \<Rightarrow> bool" where
  "isUpsert v = (DeltaVideo.action v = Update \<and> DeltaVideo.score v \<noteq> None \<and> DeltaVideo.categories v \<noteq> None)"

definition upsertVideo :: "string \<Rightarrow> DeltaVideo \<Rightarrow> CachedVideo" where
  "upsertVideo ts v = \<lparr>CachedVideo.videoId = DeltaVideo.videoId v, CachedVideo.score = the (DeltaVideo.score v),
     CachedVideo.categories = the (DeltaVideo.categories v), CachedVideo.channelId = '''', CachedVideo.lastUpdated = ts\<rparr>"

text \<open>One turn of the loop over the changed videos: records to upsert, updated, removed.\<close>

definition deltaVideoStep ::
  "'e idb_env_scheme \<Rightarrow> string \<Rightarrow> CachedVideo list \<times> nat \<times> nat \<Rightarrow> DeltaVideo \<Rightarrow>
     ('w idb_scheme, CachedVideo list \<times> nat \<times> nat) eff" where
  "deltaVideoStep e ts acc v =
     (case acc of (ups, updated, removed) \<Rightarrow>
       if DeltaVideo.action v = Remove
       then bindE (deleteVideo e (DeltaVideo.videoId v)) (\<lambda>_. retE (ups, updated, Suc removed))
       else if isUpsert v then retE (ups @ [upsertVideo ts v], Suc updated, removed)
       else retE (ups, updated, removed))"

definition isChannelUpsert :: "DeltaChannel \<Rightarrow> bool" where
  "isChannelUpsert c = (DeltaChannel.action c = Update \<and> DeltaChannel.score c \<noteq> None)"

definition upsertChannel :: "string \<Rightarrow> DeltaChannel \<Rightarrow> CachedChannel" where
  "upsertChannel ts c = \<lparr>CachedChannel.channelId = DeltaChannel.channelId c,
     CachedChannel.score = the (DeltaChannel.score c), CachedChannel.autoFlag = False,
     CachedChannel.lastUpdated = ts\<rparr>"

definition deltaChannelStep ::
  "'e idb_env_scheme \<Rightarrow> string \<Rightarrow> CachedChannel list \<times> nat \<times> nat \<Rightarrow> DeltaChannel \<Rightarrow>
     ('w idb_scheme, CachedChannel list \<times> nat \<times> nat) eff" where
  "deltaChannelStep e ts acc c =
     (case acc of (ups, updated, removed) \<Rightarrow>
       if DeltaChannel.action c = Remove
       then bindE (deleteChannel e (DeltaChannel.channelId c)) (\<lambda>_. retE (ups, updated, Suc removed))
       else if isChannelUpsert c then retE (ups @ [upsertChannel ts c], Suc updated, removed)
       else retE (ups, updated, removed))"

text \<open>From the received changes on.\<close>

definition applyDelta ::
  "'e idb_env_scheme \<Rightarrow> SyncDeltaResponse \<Rightarrow> ('w idb_scheme, DeltaSyncResult) eff" where
  "applyDelta e d =
     bindE (foldE (deltaVideoStep e (syncTimestamp d)) ([], 0, 0) (SyncDeltaResponse.videos d)) (\<lambda>(vUps, vUpd, vRem).
     bindE (putVideos e vUps) (\<lambda>_.
     bindE (foldE (deltaChannelStep e (syncTimestamp d)) ([], 0, 0) (SyncDeltaResponse.channels d)) (\<lambda>(cUps, cUpd, cRem).
     bindE (putChannels e cUps) (\<lambda>_.
     bindE (setMeta e META_LAST_DELTA_SYNC (syncTimestamp d)) (\<lambda>_.
       retE \<lparr>videosUpdated = vUpd, videosRemoved = vRem, channelsUpdated = cUpd, channelsRemoved = cRem\<rparr>)))))"

definition sinceParam :: "'e sync_env_scheme \<Rightarrow> string option \<Rightarrow> string" where
  "sinceParam e lastSync =
     (case lastSync of None \<Rightarrow> toISOString e 0 | Some s \<Rightarrow> if s = '''' then toISOString e 0 else s)"

definition performDeltaSync :: "'e sync_env_scheme \<Rightarrow> ('w http_scheme, DeltaSyncResult) eff" where
  "performDeltaSync e =
     bindE (getMeta e META_LAST_DELTA_SYNC) (\<lambda>lastSync.
     bindE (catch429 (syncDelta e (sinceParam e lastSync))) (\<lambda>answer.
       case answer of
         None \<Rightarrow> retE \<lparr>videosUpdated = 0, videosRemoved = 0, channelsUpdated = 0, channelsRemoved = 0\<rparr>
       | Some body \<Rightarrow> bindE (as_delta body) (applyDelta e)))"

section \<open>Full sync\<close>

definition cachedOfResult :: "VideoResult \<Rightarrow> CachedVideo" where
  "cachedOfResult v = \<lparr>CachedVideo.videoId = VideoResult.videoId v, CachedVideo.score = VideoResult.score v,
     CachedVideo.categories = VideoResult.categories v, CachedVideo.channelId = VideoResult.channelId v,
     CachedVideo.lastUpdated = VideoResult.lastUpdated v\<rparr>"

definition cachedOfChannel :: "FullChannel \<Rightarrow> CachedChannel" where
  "cachedOfChannel c = \<lparr>CachedChannel.channelId = FullChannel.channelId c, CachedChannel.score = FullChannel.score c,
     CachedChannel.autoFlag = False, CachedChannel.lastUpdated = FullChannel.lastUpdated c\<rparr>"

text \<open>From the received body on: both stores are cleared before the body is first used.\<close>

definition rebuildCache :: "'e sync_env_scheme \<Rightarrow> resp_body \<Rightarrow> ('w idb_scheme, FullSyncResult) eff" where
  "rebuildCache e body =
     bindE (clearVideos e) (\<lambda>_.
     bindE (clearChannels e) (\<lambda>_.
     bindE (as_full body) (\<lambda>d.
     bindE (putVideos e (map cachedOfResult (SyncFullResponse.videos d))) (\<lambda>_.
     bindE (putChannels e (map cachedOfChannel (SyncFullResponse.channels d))) (\<lambda>_.
     bindE (getE clock) (\<lambda>date.
     let now = (if generatedAt d = '''' then toISOString e date else generatedAt d) in
     bindE (setMeta e META_LAST_FULL_SYNC now) (\<lambda>_.
     bindE (setMeta e META_LAST_DELTA_SYNC now) (\<lambda>_.
       retE \<lparr>FullSyncResult.videoCount = length (SyncFullResponse.videos d),
             FullSyncResult.channelCount = length (SyncFullResponse.channels d)\<rparr>))))))))"

definition performFullSync :: "'e sync_env_scheme \<Rightarrow> ('w http_scheme, FullSyncResult) eff" where
  "performFullSync e =
     bindE (catch429 (syncFull e)) (\<lambda>answer.
       case answer of
         None \<Rightarrow> retE \<lparr>FullSyncResult.videoCount = 0, FullSyncResult.channelCount = 0\<rparr>
       | Some body \<Rightarrow> rebuildCache e body)"

section \<open>Schedule\<close>

definition needsFullSync :: "'e sync_env_scheme \<Rightarrow> int \<Rightarrow> string option \<Rightarrow> bool" where
  "needsFullSync e now lastFull =
     (case lastFull of
        None \<Rightarrow> True
      | Some s \<Rightarrow> s = '''' \<or> (case dateParse e s of None \<Rightarrow> False | Some t \<Rightarrow> FULL_SYNC_INTERVAL_MS < now - t))"

definition autoSync :: "'e sync_env_scheme \<Rightarrow> ('w http_scheme, unit) eff" where
  "autoSync e =
     catchE (bindE (getMeta e META_LAST_FULL_SYNC) (\<lambda>lastFull.
             bindE (getE clock) (\<lambda>now.
               if needsFullSync e now lastFull
               then bindE (performFullSync e) (\<lambda>_. retE ())
               else bindE (performDeltaSync e) (\<lambda>_. retE ()))))
       (\<lambda>err. retE ())"

text \<open>The startup timer is cleared and armed again; \<open>armStartup\<close> is that part.\<close>

definition armStartup :: "int \<Rightarrow> 'w sync_scheme \<Rightarrow> 'w sync_scheme" where
  "armStartup ms w =
     (let w' = (if startupSyncTimer w \<noteq> None then w\<lparr>startupSyncTimer := None\<rparr> else w)
      in w'\<lparr>startupSyncTimer := Some (clock w' + timerDelay (Some ms))\<rparr>)"

definition startSyncSchedule :: "'w sync_scheme \<Rightarrow> 'w sync_scheme" where
  "startSyncSchedule w =
     (if syncTimer w \<noteq> None then w
      else (let w' = armStartup 5000 w
            in w'\<lparr>syncTimer := Some (clock w' + timerDelay (Some DELTA_SYNC_INTERVAL_MS))\<rparr>))"

definition stopSyncSchedule :: "'w sync_scheme \<Rightarrow> 'w sync_scheme" where
  "stopSyncSchedule w = (if syncTimer w \<noteq> None then w\<lparr>syncTimer := None\<rparr> else w)"

text \<open>The timer callbacks; an interval timer is due again one interval later.\<close>

definition onStartupTimer :: "'e sync_env_scheme \<Rightarrow> ('w sync_scheme, unit) eff" where
  "onStartupTimer e = bindE (modE (\<lambda>w. w\<lparr>startupSyncTimer := None\<rparr>)) (\<lambda>_. autoSync e)"

definition onSyncTimer :: "'e sync_env_scheme \<Rightarrow> ('w sync_scheme, unit) eff" where
  "onSyncTimer e =
     bindE (modE (\<lambda>w. w\<lparr>syncTimer := map_option (\<lambda>t. t + timerDelay (Some DELTA_SYNC_INTERVAL_MS)) (syncTimer w)\<rparr>))
       (\<lambda>_. autoSync e)"

definition getSyncStatus :: "'e idb_env_scheme \<Rightarrow> ('w idb_scheme, SyncStatus) eff" where
  "getSyncStatus e =
     bindE (getMeta e META_LAST_DELTA_SYNC) (\<lambda>ds.
     bindE (getMeta e META_LAST_FULL_SYNC) (\<lambda>fs.
     bindE (getVideoCount e) (\<lambda>vc.
     bindE (getChannelCount e) (\<lambda>cc.
       retE \<lparr>lastDeltaSync = ds, lastFullSync = fs, videoCount = vc, channelCount = cc\<rparr>))))"

section \<open>What a delta does\<close>

definition isRemove :: "DeltaVideo \<Rightarrow> bool" where
  "isRemove v = (DeltaVideo.action v = Remove)"

definition isChannelRemove :: "DeltaChannel \<Rightarrow> bool" where
  "isChannelRemove c = (DeltaChannel.action c = Remove)"

lemma deltaVideoStep_eq:
  "deltaVideoStep e ts (ups, u, r) v =
     (if isRemove v then bindE (deleteVideo e (DeltaVideo.videoId v)) (\<lambda>_. retE (ups, u, Suc r))
      else if isUpsert v then retE (ups @ [upsertVideo ts v], Suc u, r) else retE (ups, u, r))"
  by (simp add: deltaVideoStep_def isRemove_def)

lemma deltaVideo_loop:
  "foldE (deltaVideoStep e ts) (ups, u, r) vs w = (Inr (ups', u', r'), w') \<Longrightarrow>
     ups' = ups @ map (upsertVideo ts) (filter isUpsert vs) \<and>
     u' = u + length (filter isUpsert vs) \<and> r' = r + length (filter isRemove vs) \<and>
     data w' = (data w)\<lparr>videosStore := fold (store_delete video_key)
       (map DeltaVideo.videoId (filter isRemove vs)) (videosStore (data w))\<rparr>"
proof (induction vs arbitrary: ups u r w)
  case Nil
  then show ?case by simp
next
  case (Cons v vs)
  show ?case
  proof (cases "isRemove v")
    case True
    with Cons.prems obtain w1 where w1: "deleteVideo e (DeltaVideo.videoId v) w = (Inr (), w1)"
      "foldE (deltaVideoStep e ts) (ups, u, Suc r) vs w1 = (Inr (ups', u', r'), w')"
      by (auto simp: bindE_Inr_iff deltaVideoStep_eq)
    from w1(1) have "data w1 = (data w)\<lparr>videosStore := store_delete video_key (DeltaVideo.videoId v) (videosStore (data w))\<rparr>"
      unfolding deleteVideo_def by (rule write_tx_Inr)
    with Cons.IH [OF w1(2)] True show ?thesis
      by (simp add: isRemove_def isUpsert_def)
  next
    case False
    with Cons.prems have "foldE (deltaVideoStep e ts)
        (if isUpsert v then (ups @ [upsertVideo ts v], Suc u, r) else (ups, u, r)) vs w = (Inr (ups', u', r'), w')"
      by (auto simp: bindE_Inr_iff deltaVideoStep_eq)
    with Cons.IH [of "if isUpsert v then ups @ [upsertVideo ts v] else ups" "if isUpsert v then Suc u else u" r w] False
    show ?thesis by (auto split: if_splits)
  qed
qed

lemma deltaChannelStep_eq:
  "deltaChannelStep e ts (ups, u, r) c =
     (if isChannelRemove c then bindE (deleteChannel e (DeltaChannel.channelId c)) (\<lambda>_. retE (ups, u, Suc r))
      else if isChannelUpsert c then retE (ups @ [upsertChannel ts c], Suc u, r) else retE (ups, u, r))"
  by (simp add: deltaChannelStep_def isChannelRemove_def)

lemma deltaChannel_loop:
  "foldE (deltaChannelStep e ts) (ups, u, r) cs w = (Inr (ups', u', r'), w') \<Longrightarrow>
     ups' = ups @ map (upsertChannel ts) (filter isChannelUpsert cs) \<and>
     u' = u + length (filter isChannelUpsert cs) \<and> r' = r + length (filter isChannelRemove cs) \<and>
     data w' = (data w)\<lparr>channelsStore := fold (store_delete channel_key)
       (map DeltaChannel.channelId (filter isChannelRemove cs)) (channelsStore (data w))\<rparr>"
proof (induction cs arbitrary: ups u r w)
  case Nil
  then show ?case by simp
next
  case (Cons c cs)
  show ?case
  proof (cases "isChannelRemove c")
    case True
    with Cons.prems obtain w1 where w1: "deleteChannel e (DeltaChannel.channelId c) w = (Inr (), w1)"
      "foldE (deltaChannelStep e ts) (ups, u, Suc r) cs w1 = (Inr (ups', u', r'), w')"
      by (auto simp: bindE_Inr_iff deltaChannelStep_eq)
    from w1(1) have "data w1 = (data w)\<lparr>channelsStore := store_delete channel_key (DeltaChannel.channelId c) (channelsStore (data w))\<rparr>"
      unfolding deleteChannel_def by (rule write_tx_Inr)
    with Cons.IH [OF w1(2)] True show ?thesis
      by (simp add: isChannelRemove_def isChannelUpsert_def)
  next
    case False
    with Cons.prems have "foldE (deltaChannelStep e ts)
        (if isChannelUpsert c then (ups @ [upsertChannel ts c], Suc u, r) else (ups, u, r)) cs w = (Inr (ups', u', r'), w')"
      by (auto simp: bindE_Inr_iff deltaChannelStep_eq)
    with Cons.IH [of "if isChannelUpsert c then ups @ [upsertChannel ts c] else ups" "if isChannelUpsert c then Suc u else u" r w] False
    show ?thesis by (auto split: if_splits)
  qed
qed

text \<open>The data after a delta applied to the end.\<close>

definition afterDelta :: "SyncDeltaResponse \<Rightarrow> idb_data \<Rightarrow> idb_data" where
  "afterDelta d s = s\<lparr>
     videosStore := fold (store_put video_key)
       (map (upsertVideo (syncTimestamp d)) (filter isUpsert (SyncDeltaResponse.videos d)))
       (fold (store_delete video_key) (map DeltaVideo.videoId (filter isRemove (SyncDeltaResponse.videos d)))
         (videosStore s)),
     channelsStore := fold (store_put channel_key)
       (map (upsertChannel (syncTimestamp d)) (filter isChannelUpsert (SyncDeltaResponse.channels d)))
       (fold (store_delete channel_key) (map DeltaChannel.channelId (filter isChannelRemove (SyncDeltaResponse.channels d)))
         (channelsStore s)),
     metaStore := store_put meta_key \<lparr>key = META_LAST_DELTA_SYNC, value = syncTimestamp d\<rparr> (metaStore s)\<rparr>"

definition deltaCounts :: "SyncDeltaResponse \<Rightarrow> DeltaSyncResult" where
  "deltaCounts d = \<lparr>videosUpdated = length (filter isUpsert (SyncDeltaResponse.videos d)),
     videosRemoved = length (filter isRemove (SyncDeltaResponse.videos d)),
     channelsUpdated = length (filter isChannelUpsert (SyncDeltaResponse.channels d)),
     channelsRemoved = length (filter isChannelRemove (SyncDeltaResponse.channels d))\<rparr>"

lemma setMeta_Inr: "setMeta e k v w = (Inr u, w') \<Longrightarrow>
    data w' = (data w)\<lparr>metaStore := store_put meta_key \<lparr>key = k, value = v\<rparr> (metaStore (data w))\<rparr>"
  unfolding setMeta_def by (rule write_tx_Inr)

lemma applyDelta_Inr:
  "applyDelta e d w = (Inr r, w') \<Longrightarrow> r = deltaCounts d \<and> data w' = afterDelta d (data w)"
  by (auto simp: applyDelta_def bindE_Inr_iff afterDelta_def deltaCounts_def
      dest!: deltaVideo_loop deltaChannel_loop putVideos_Inr putChannels_Inr setMeta_Inr)

section \<open>Deletes, then puts: a batch of changes to a store\<close>

text \<open>
  Both loops work alike: the removals are executed as they are met, the records to upsert are
  collected and written in one transaction at the end. The locale states what a change is and
  proves what a batch does to the lookups.
\<close>

locale delta_batch =
  fixes kp :: "'v \<Rightarrow> 'k::linorder" and did :: "'d \<Rightarrow> 'k"
    and rem :: "'d \<Rightarrow> bool" and ups :: "'d \<Rightarrow> bool" and mk :: "'d \<Rightarrow> 'v"
  assumes key_mk: "kp (mk x) = did x" and not_both: "rem x \<Longrightarrow> \<not> ups x"
begin

definition batch :: "'d list \<Rightarrow> 'v store \<Rightarrow> 'v store" where
  "batch xs s = fold (store_put kp) (map mk (filter ups xs))
     (fold (store_delete kp) (map did (filter rem xs)) s)"

text \<open>The specification: the changes take effect one after the other, in their order.\<close>

definition entry :: "'d \<Rightarrow> ('k \<Rightarrow> 'v option) \<Rightarrow> 'k \<Rightarrow> 'v option" where
  "entry x m = (if rem x then m(did x := None) else if ups x then m(did x \<mapsto> mk x) else m)"

definition touched :: "'d list \<Rightarrow> 'k set" where
  "touched xs = did ` {x \<in> set xs. rem x \<or> ups x}"

lemma batch_ok: "store_ok kp s \<Longrightarrow> store_ok kp (batch xs s)"
  by (simp add: batch_def store_oks)

lemma batch_lookup:
  assumes "store_ok kp s"
  shows "store_get kp (batch xs s) k =
    (case find (\<lambda>x. did x = k) (rev (filter ups xs)) of
       Some x \<Rightarrow> Some (mk x)
     | None \<Rightarrow> if k \<in> set (map did (filter rem xs)) then None else store_get kp s k)"
  using assms
  by (simp add: batch_def store.get_put_all store.get_delete_all store.ok_delete_all rev_map
      find_map key_mk split: option.splits)

lemma no_upsert: "k \<notin> touched xs \<Longrightarrow> find (\<lambda>x. did x = k) (rev (filter ups xs)) = None"
  by (auto simp: touched_def find_None_iff)

lemma untouched:
  assumes "store_ok kp s" "k \<notin> touched xs"
  shows "store_get kp (batch xs s) k = store_get kp s k"
proof -
  from assms(2) have "k \<notin> set (map did (filter rem xs))" by (auto simp: touched_def)
  then show ?thesis by (simp add: batch_lookup [OF assms(1)] no_upsert [OF assms(2)])
qed

lemma touched_det:
  assumes "store_ok kp s" "store_ok kp t" "k \<in> touched xs"
  shows "store_get kp (batch xs s) k = store_get kp (batch xs t) k"
proof (cases "find (\<lambda>x. did x = k) (rev (filter ups xs))")
  case None
  with assms(3) have "k \<in> set (map did (filter rem xs))"
    by (auto simp: touched_def find_None_iff)
  then show ?thesis by (simp add: batch_lookup assms(1,2) None)
next
  case (Some x)
  then show ?thesis by (simp add: batch_lookup assms(1,2))
qed

text \<open>Stores that differ in touched keys only are equal after the batch.\<close>

lemma batch_converges:
  assumes "store_ok kp s" "store_ok kp t" "\<And>k. k \<notin> touched xs \<Longrightarrow> store_get kp s k = store_get kp t k"
  shows "batch xs s = batch xs t"
proof -
  have "store_get kp (batch xs s) k = store_get kp (batch xs t) k" for k
  proof (cases "k \<in> touched xs")
    case True
    then show ?thesis by (rule touched_det [OF assms(1,2)])
  next
    case False
    from untouched [OF assms(1) this] untouched [OF assms(2) this] assms(3) [OF this]
    show ?thesis by simp
  qed
  then have "store_get kp (batch xs s) = store_get kp (batch xs t)" by (rule ext)
  from store.get_all_ext [OF batch_ok [OF assms(1)] batch_ok [OF assms(2)] this]
  have "store_get_all (batch xs s) = store_get_all (batch xs t)" .
  then show ?thesis by (simp add: store_get_all_def)
qed

lemma entries_absent: "k \<notin> did ` set xs \<Longrightarrow> fold entry xs m k = m k"
  by (induction xs arbitrary: m) (auto simp: entry_def)

lemma entries_present:
  "distinct (map did xs) \<Longrightarrow> x \<in> set xs \<Longrightarrow> fold entry xs m (did x) = entry x m (did x)"
proof (induction xs arbitrary: m)
  case (Cons y ys)
  show ?case
  proof (cases "x = y")
    case True
    with Cons.prems(1) show ?thesis by (simp add: entries_absent)
  next
    case False
    with Cons.prems have "x \<in> set ys" by simp
    with Cons.prems(1) have "did x \<noteq> did y" by (metis distinct.simps(2) image_eqI list.set_map list.simps(9))
    then have "entry x (entry y m) (did x) = entry x m (did x)" by (simp add: entry_def)
    with Cons.IH [of "entry y m"] Cons.prems(1) \<open>x \<in> set ys\<close> show ?thesis by simp
  qed
qed simp

text \<open>With one change per key the batch is the specification.\<close>

lemma batch_refines:
  assumes "store_ok kp s" "distinct (map did xs)"
  shows "store_get kp (batch xs s) = fold entry xs (store_get kp s)"
proof
  fix k
  show "store_get kp (batch xs s) k = fold entry xs (store_get kp s) k"
  proof (cases "k \<in> did ` set xs")
    case False
    then have "k \<notin> touched xs" by (auto simp: touched_def)
    with False assms(1) show ?thesis by (simp add: untouched entries_absent)
  next
    case True
    then obtain x where x: "x \<in> set xs" "k = did x" by blast
    have uniq: "y = x" if "y \<in> set xs" "did y = k" for y
      using assms(2) x that by (auto simp: distinct_map inj_on_def)
    have rems: "k \<in> set (map did (filter rem xs)) \<longleftrightarrow> rem x"
    proof
      assume "k \<in> set (map did (filter rem xs))"
      then obtain y where "y \<in> set xs" "rem y" "did y = k" by auto
      with uniq [of y] show "rem x" by simp
    next
      assume "rem x"
      with x show "k \<in> set (map did (filter rem xs))" by simp
    qed
    have spec: "fold entry xs (store_get kp s) k = entry x (store_get kp s) k"
      using entries_present [OF assms(2) x(1)] x(2) by simp
    show ?thesis
    proof (cases "ups x")
      case True
      have "find (\<lambda>x. did x = k) (rev (filter ups xs)) = Some x"
      proof (rule find_unique)
        show "y = x" if "y \<in> set (rev (filter ups xs))" "did y = k" for y
          using uniq [of y] that by simp
      qed (simp_all add: x True)
      with True not_both [of x] x(2) show ?thesis
        unfolding batch_lookup [OF assms(1)] spec by (auto simp: entry_def)
    next
      case False
      have "find (\<lambda>x. did x = k) (rev (filter ups xs)) = None"
      proof -
        have "did y \<noteq> k" if "y \<in> set xs" "ups y" for y
          using uniq [of y] that False by blast
        then show ?thesis by (simp add: find_None_iff)
      qed
      with False x(2) show ?thesis
        unfolding batch_lookup [OF assms(1)] spec rems by (simp add: entry_def)
    qed
  qed
qed

end

interpretation vid: delta_batch video_key DeltaVideo.videoId isRemove isUpsert "upsertVideo ts" for ts
  by unfold_locales (simp_all add: upsertVideo_def isRemove_def isUpsert_def)

interpretation cha: delta_batch channel_key DeltaChannel.channelId isChannelRemove isChannelUpsert
    "upsertChannel ts" for ts
  by unfold_locales (simp_all add: upsertChannel_def isChannelRemove_def isChannelUpsert_def)

lemma afterDelta_batch:
  "afterDelta d s = s\<lparr>videosStore := vid.batch (syncTimestamp d) (SyncDeltaResponse.videos d) (videosStore s),
     channelsStore := cha.batch (syncTimestamp d) (SyncDeltaResponse.channels d) (channelsStore s),
     metaStore := store_put meta_key \<lparr>key = META_LAST_DELTA_SYNC, value = syncTimestamp d\<rparr> (metaStore s)\<rparr>"
  by (simp add: afterDelta_def vid.batch_def cha.batch_def)

section \<open>The stages of a sync\<close>

lemma catch429_frame [frame]: "unchanged f m \<Longrightarrow> unchanged f (catch429 m)"
  unfolding catch429_def by (intro frame)

lemma catch429_Inr: "m w = (Inr a, v) \<Longrightarrow> catch429 m w = (Inr (Some a), v)"
  by (simp add: catch429_def eff)

lemma catch429_Inl:
  "m w = (Inl x, v) \<Longrightarrow> catch429 m w = (if rateLimited x then (Inr None, v) else (Inl x, v))"
  by (simp add: catch429_def eff)

text \<open>What the server answered to the delta request made in state \<open>w\<close>, and the state then.\<close>

definition deltaAnswered ::
  "'e sync_env_scheme \<Rightarrow> 'w http_scheme \<Rightarrow> SyncDeltaResponse \<Rightarrow> 'w http_scheme \<Rightarrow> bool" where
  "deltaAnswered e w d w2 \<longleftrightarrow>
     (\<exists>l w1. getMeta e META_LAST_DELTA_SYNC w = (Inr l, w1) \<and>
        syncDelta e (sinceParam e l) w1 = (Inr (DeltaBody d), w2))"

lemma deltaAnswered_run: "deltaAnswered e w d w2 \<Longrightarrow> performDeltaSync e w = applyDelta e d w2"
  by (auto simp: deltaAnswered_def performDeltaSync_def bindE_def as_delta_def retE_def catch429_Inr)

lemma deltaAnswered_data: "deltaAnswered e w d w2 \<Longrightarrow> data w2 = data w"
  by (auto simp: deltaAnswered_def dest!: unchangedD [OF getMeta_data]
      unchangedD [OF api_frame(4) [OF base_http_indep(1)]])

lemma applyDelta_up: "no_idb_faults e \<Longrightarrow> resolves db_up (applyDelta e d)"
  unfolding applyDelta_def deltaVideoStep_def deltaChannelStep_def split_def
  by (intro live)

lemma applyDelta_ok [pres]: "preserves db_ok (applyDelta e d)"
  unfolding applyDelta_def deltaVideoStep_def deltaChannelStep_def split_def
  by (intro pres)

lemma deltaAnswered_up:
  fixes w :: "'w http_scheme"
  assumes "deltaAnswered e w d w2" "no_idb_faults e" "db_up w"
  shows "db_up w2"
proof -
  obtain l w1 where l: "getMeta e META_LAST_DELTA_SYNC w = (Inr l, w1)"
    and d: "syncDelta e (sinceParam e l) w1 = (Inr (DeltaBody d), w2)"
    using assms(1) by (auto simp: deltaAnswered_def)
  have "db_up w1"
    using resolvesD [OF cache_up(6) [OF assms(2), where k = META_LAST_DELTA_SYNC] assms(3)] l by auto
  then show ?thesis
    using unchangedD [OF api_frame(4) [OF base_http_indep(8)] d] by simp
qed

text \<open>Specification of one change: what it does to the lookups of a store.\<close>

definition videoChange :: "string \<Rightarrow> DeltaVideo \<Rightarrow> (string \<Rightarrow> CachedVideo option) \<Rightarrow> string \<Rightarrow> CachedVideo option" where
  "videoChange ts v m =
     (if DeltaVideo.action v = Remove then m(DeltaVideo.videoId v := None)
      else if isUpsert v then m(DeltaVideo.videoId v \<mapsto> upsertVideo ts v) else m)"

definition channelChange :: "string \<Rightarrow> DeltaChannel \<Rightarrow> (string \<Rightarrow> CachedChannel option) \<Rightarrow> string \<Rightarrow> CachedChannel option" where
  "channelChange ts c m =
     (if DeltaChannel.action c = Remove then m(DeltaChannel.channelId c := None)
      else if isChannelUpsert c then m(DeltaChannel.channelId c \<mapsto> upsertChannel ts c) else m)"

lemma entry_change: "vid.entry ts = videoChange ts" "cha.entry ts = channelChange ts"
  by (simp_all add: fun_eq_iff vid.entry_def cha.entry_def videoChange_def channelChange_def
      isRemove_def isChannelRemove_def)

abbreviation "videoLookup w \<equiv> store_get video_key (videosStore (data w))"
abbreviation "channelLookup w \<equiv> store_get channel_key (channelsStore (data w))"
abbreviation "metaLookup w k \<equiv> map_option CacheMeta.value (store_get meta_key (metaStore (data w)) k)"

lemma db_ok_stores:
  "db_ok w \<Longrightarrow> store_ok video_key (videosStore (data w))" "db_ok w \<Longrightarrow> store_ok channel_key (channelsStore (data w))"
  "db_ok w \<Longrightarrow> store_ok vote_key (pendingVotesStore (data w))" "db_ok w \<Longrightarrow> store_ok meta_key (metaStore (data w))"
  by (simp_all add: db_ok_def data_ok_def)

lemma db_up_ok: "db_up w \<Longrightarrow> db_ok w"
  by (simp add: db_up_def)

section \<open>Partly applied deltas\<close>

text \<open>
  \<open>d\<close> differs from \<open>s\<close> at most in videos and channels that the delta names; the pending votes
  and the sync timestamps are the same.
\<close>

definition partlyApplied :: "SyncDeltaResponse \<Rightarrow> idb_data \<Rightarrow> idb_data \<Rightarrow> bool" where
  "partlyApplied d s t \<longleftrightarrow>
     (\<forall>k. k \<notin> vid.touched (SyncDeltaResponse.videos d) \<longrightarrow>
        store_get video_key (videosStore t) k = store_get video_key (videosStore s) k) \<and>
     (\<forall>k. k \<notin> cha.touched (SyncDeltaResponse.channels d) \<longrightarrow>
        store_get channel_key (channelsStore t) k = store_get channel_key (channelsStore s) k) \<and>
     pendingVotesStore t = pendingVotesStore s \<and> metaStore t = metaStore s \<and> data_ok t"

lemma partly_deleteVideo:
  "v \<in> set (SyncDeltaResponse.videos d) \<Longrightarrow> isRemove v \<Longrightarrow>
     preserves (\<lambda>w. partlyApplied d s (data w)) (deleteVideo e (DeltaVideo.videoId v))"
  unfolding deleteVideo_def
  by (intro write_tx_keeps) (auto simp: partlyApplied_def data_ok_def store_oks vid.touched_def store_get_delete)

lemma partly_deleteChannel:
  "c \<in> set (SyncDeltaResponse.channels d) \<Longrightarrow> isChannelRemove c \<Longrightarrow>
     preserves (\<lambda>w. partlyApplied d s (data w)) (deleteChannel e (DeltaChannel.channelId c))"
  unfolding deleteChannel_def
  by (intro write_tx_keeps) (auto simp: partlyApplied_def data_ok_def store_oks cha.touched_def store_get_delete)

lemma partly_videos:
  "preserves (\<lambda>w. partlyApplied d s (data w))
     (foldE (deltaVideoStep e ts) acc (SyncDeltaResponse.videos d))"
proof (rule preserves_foldE_in)
  fix a v assume "v \<in> set (SyncDeltaResponse.videos d)"
  then show "preserves (\<lambda>w. partlyApplied d s (data w)) (deltaVideoStep e ts a v)"
    by (cases a) (auto simp: deltaVideoStep_eq intro!: preserves_if preserves_bindE preserves_retE partly_deleteVideo)
qed

lemma partly_channels:
  "preserves (\<lambda>w. partlyApplied d s (data w))
     (foldE (deltaChannelStep e ts) acc (SyncDeltaResponse.channels d))"
proof (rule preserves_foldE_in)
  fix a c assume "c \<in> set (SyncDeltaResponse.channels d)"
  then show "preserves (\<lambda>w. partlyApplied d s (data w)) (deltaChannelStep e ts a c)"
    by (cases a) (auto simp: deltaChannelStep_eq intro!: preserves_if preserves_bindE preserves_retE partly_deleteChannel)
qed

lemma get_put_all_untouched:
  "store_ok kp s \<Longrightarrow> (\<And>v. v \<in> set vs \<Longrightarrow> kp v \<noteq> k) \<Longrightarrow>
     store_get kp (fold (store_put kp) vs s) k = store_get kp s k"
proof (induction vs arbitrary: s)
  case (Cons v vs)
  have "k \<noteq> kp v" using Cons.prems(2) [of v] by auto
  with Cons show ?case by (simp add: store_get_put store_ok_put)
qed simp

lemma get_fresh: "store_get kp (fold (store_put kp) vs []) = (\<lambda>k. find (\<lambda>v. kp v = k) (rev vs))"
proof
  fix k
  have "store_ok kp []" by (simp add: store_ok_def)
  from store.get_put_all [OF this, of vs k]
  show "store_get kp (fold (store_put kp) vs []) k = find (\<lambda>v. kp v = k) (rev vs)"
    by (simp add: store_get_def [of kp "[]"] split: option.splits)
qed

lemma partly_putVideos:
  "preserves (\<lambda>w. partlyApplied d s (data w))
     (putVideos e (map (upsertVideo ts) (filter isUpsert (SyncDeltaResponse.videos d))))"
proof -
  have "partlyApplied d s (t\<lparr>videosStore := fold (store_put video_key)
      (map (upsertVideo ts) (filter isUpsert (SyncDeltaResponse.videos d))) (videosStore t)\<rparr>)"
    if "partlyApplied d s t" for t
    using that
    by (auto simp: partlyApplied_def data_ok_def store.ok_put_all vid.touched_def upsertVideo_def
        intro!: get_put_all_untouched [THEN trans])
  then show ?thesis
    unfolding putVideos_def by (intro preserves_if preserves_retE write_tx_keeps) blast
qed

lemma partly_putChannels:
  "preserves (\<lambda>w. partlyApplied d s (data w))
     (putChannels e (map (upsertChannel ts) (filter isChannelUpsert (SyncDeltaResponse.channels d))))"
proof -
  have "partlyApplied d s (t\<lparr>channelsStore := fold (store_put channel_key)
      (map (upsertChannel ts) (filter isChannelUpsert (SyncDeltaResponse.channels d))) (channelsStore t)\<rparr>)"
    if "partlyApplied d s t" for t
    using that
    by (auto simp: partlyApplied_def data_ok_def store.ok_put_all cha.touched_def upsertChannel_def
        intro!: get_put_all_untouched [THEN trans])
  then show ?thesis
    unfolding putChannels_def by (intro preserves_if preserves_retE write_tx_keeps) blast
qed

lemma setMeta_Inl: "setMeta e k v w = (Inl x, w') \<Longrightarrow> data w' = data w"
  unfolding setMeta_def by (rule write_tx_Inl)

lemma deltaVideo_ups:
  "foldE (deltaVideoStep e ts) ([], 0, 0) vs w = (Inr (ups, u, r), w') \<Longrightarrow> ups = map (upsertVideo ts) (filter isUpsert vs)"
  by (auto dest: deltaVideo_loop)

lemma deltaChannel_ups:
  "foldE (deltaChannelStep e ts) ([], 0, 0) cs w = (Inr (ups, u, r), w') \<Longrightarrow> ups = map (upsertChannel ts) (filter isChannelUpsert cs)"
  by (auto dest: deltaChannel_loop)

lemma partly_video_stage:
  assumes "foldE (deltaVideoStep e ts) ([], 0, 0) (SyncDeltaResponse.videos d) w = (Inr (ups, u, r), v)"
    and "putVideos e ups v = (q, w')" and "partlyApplied d s (data w)"
  shows "partlyApplied d s (data w')"
proof -
  have "partlyApplied d s (data v)" by (rule preservesD [OF partly_videos assms(1,3)])
  with assms(2) show ?thesis
    unfolding deltaVideo_ups [OF assms(1)] by (rule preservesD [OF partly_putVideos])
qed

lemma partly_channel_stage:
  assumes "foldE (deltaChannelStep e ts) ([], 0, 0) (SyncDeltaResponse.channels d) w = (Inr (ups, u, r), v)"
    and "putChannels e ups v = (q, w')" and "partlyApplied d s (data w)"
  shows "partlyApplied d s (data w')"
proof -
  have "partlyApplied d s (data v)" by (rule preservesD [OF partly_channels assms(1,3)])
  with assms(2) show ?thesis
    unfolding deltaChannel_ups [OF assms(1)] by (rule preservesD [OF partly_putChannels])
qed

lemma applyDelta_Inl:
  assumes "applyDelta e d w = (Inl x, w')" "data_ok (data w)"
  shows "partlyApplied d (data w) (data w')"
proof -
  have "partlyApplied d (data w) (data w)"
    using assms(2) by (simp add: partlyApplied_def)
  with assms(1) show ?thesis
    unfolding applyDelta_def split_def
    by (auto simp: bindE_Inl_iff dest!: setMeta_Inl)
      (blast intro: partly_video_stage partly_channel_stage
        partly_videos [THEN preservesD] partly_channels [THEN preservesD])+
qed

section \<open>Full sync: the stages\<close>

lemma clearVideos_Inr: "clearVideos e w = (Inr u, w') \<Longrightarrow> data w' = (data w)\<lparr>videosStore := []\<rparr>"
  unfolding clearVideos_def by (drule write_tx_Inr) (simp add: store_clear_def)

lemma clearChannels_Inr: "clearChannels e w = (Inr u, w') \<Longrightarrow> data w' = (data w)\<lparr>channelsStore := []\<rparr>"
  unfolding clearChannels_def by (drule write_tx_Inr) (simp add: store_clear_def)

text \<open>The data after a full sync whose timestamp is \<open>now\<close>.\<close>

definition afterFull :: "SyncFullResponse \<Rightarrow> string \<Rightarrow> idb_data \<Rightarrow> idb_data" where
  "afterFull d now s = s\<lparr>
     videosStore := fold (store_put video_key) (map cachedOfResult (SyncFullResponse.videos d)) [],
     channelsStore := fold (store_put channel_key) (map cachedOfChannel (SyncFullResponse.channels d)) [],
     metaStore := store_put meta_key \<lparr>key = META_LAST_DELTA_SYNC, value = now\<rparr>
       (store_put meta_key \<lparr>key = META_LAST_FULL_SYNC, value = now\<rparr> (metaStore s))\<rparr>"

lemma rebuildCache_Inr:
  assumes "rebuildCache e body w = (Inr r, w')"
  obtains d now where "body = FullBody d" "generatedAt d \<noteq> '''' \<longrightarrow> now = generatedAt d"
    "data w' = afterFull d now (data w)"
    "FullSyncResult.videoCount r = length (SyncFullResponse.videos d)"
    "FullSyncResult.channelCount r = length (SyncFullResponse.channels d)"
proof -
  obtain d where d: "body = FullBody d"
    using assms by (cases body) (auto simp: rebuildCache_def bindE_Inr_iff as_full_def)
  define stamp where "stamp v = (if generatedAt d = '''' then toISOString e (clock v) else generatedAt d)" for v :: "'a idb_scheme"
  obtain w1 w2 w3 w4 w5 where s: "clearVideos e w = (Inr (), w1)" "clearChannels e w1 = (Inr (), w2)"
    "putVideos e (map cachedOfResult (SyncFullResponse.videos d)) w2 = (Inr (), w3)"
    "putChannels e (map cachedOfChannel (SyncFullResponse.channels d)) w3 = (Inr (), w4)"
    "setMeta e META_LAST_FULL_SYNC (stamp w4) w4 = (Inr (), w5)"
    "setMeta e META_LAST_DELTA_SYNC (stamp w4) w5 = (Inr (), w')"
    "r = \<lparr>FullSyncResult.videoCount = length (SyncFullResponse.videos d),
             FullSyncResult.channelCount = length (SyncFullResponse.channels d)\<rparr>"
    using assms unfolding rebuildCache_def d as_full_def
    by (auto simp: bindE_Inr_iff Let_def stamp_def)
  have "data w' = afterFull d (stamp w4) (data w)"
    by (simp add: afterFull_def setMeta_Inr [OF s(6)] setMeta_Inr [OF s(5)] putChannels_Inr [OF s(4)]
        putVideos_Inr [OF s(3)] clearChannels_Inr [OF s(2)] clearVideos_Inr [OF s(1)])
  with d s(7) show thesis
    by (intro that [of d "stamp w4"]) (simp_all add: stamp_def)
qed

lemma rebuildCache_up:
  assumes "no_idb_faults e"
  shows "resolves db_up (rebuildCache e (FullBody d))"
  unfolding rebuildCache_def as_full_def Let_def
  by (auto intro!: resolves_bindE resolves_retE resolves_getE cache_up assms)

text \<open>What the server answered to the full request made in state \<open>w\<close>.\<close>

definition fullAnswered :: "'e sync_env_scheme \<Rightarrow> 'w http_scheme \<Rightarrow> resp_body \<Rightarrow> 'w http_scheme \<Rightarrow> bool" where
  "fullAnswered e w b w1 \<longleftrightarrow> syncFull e w = (Inr b, w1)"

lemma fullAnswered_run: "fullAnswered e w b w1 \<Longrightarrow> performFullSync e w = rebuildCache e b w1"
  by (simp add: fullAnswered_def performFullSync_def bindE_def catch429_Inr)

lemma fullAnswered_keeps:
  "fullAnswered e w b w1 \<Longrightarrow> data w1 = data w \<and> db_up w1 = db_up w"
  using unchangedD [OF api_frame(5) [OF base_http_indep(1)]] unchangedD [OF api_frame(5) [OF base_http_indep(8)]]
  unfolding fullAnswered_def by blast

section \<open>Sample environment\<close>

definition sample_sync_env :: "resp_body \<Rightarrow> sync_env" where
  "sample_sync_env b = api_env.extend
     (sample_api_env (\<lambda>_ _. Inr \<lparr>status = 200, retryAfter = None, respBody = Some b\<rparr>))
     \<lparr>dateParse = (\<lambda>_. None), toISOString = (\<lambda>_. ''1970-01-01T00:00:00.000Z'')\<rparr>"

lemma sample_sync_env_simps [simp]:
  "fetch (sample_sync_env b) = (\<lambda>_ _. Inr \<lparr>status = 200, retryAfter = None, respBody = Some b\<rparr>)"
  "no_idb_faults (sample_sync_env b)" "dateParse (sample_sync_env b) s = None"
  by (simp_all add: sample_sync_env_def api_env.defs sample_api_env_def ident_env.defs
      no_idb_faults_def sample_ident_env_def)

lemma sample_http_up: "db_up sample_http"
  by (simp add: sample_http_def ident.defs sample_ident_def idb.defs sample_idb_def db_up_def db_ok_def
      data_ok_def empty_data_def store_ok_def DB_VERSION_def)

text \<open>A server that answers every request with the same body.\<close>

lemma constant_server:
  assumes "fetch e = (\<lambda>_ _. Inr \<lparr>status = 200, retryAfter = None, respBody = Some b\<rparr>)"
  shows "\<exists>w'. syncDelta e s w = (Inr b, w')" "\<exists>w'. syncFull e w = (Inr b, w')"
    "\<exists>w'. submitVote e v w = (Inr b, w')" "\<exists>w'. lookupVideosByPrefix e p w = (Inr b, w')"
proof -
  have 0: "retryCount e w req MAX_RETRIES = 0" for w req
    by (simp add: retryCount_def MAX_RETRIES_def upt_rec outcome_def assms retryable_def)
  have f: "\<exists>w'. fetchWithRetry e req w = (Inr \<lparr>status = 200, retryAfter = None, respBody = Some b\<rparr>, w')" for w req
    by (simp add: fetchWithRetry_eq 0 outcome_def assms)
  have c: "\<exists>u w'. getConfig w = (Inr u, w')" for w
    by (auto simp: getConfig_def eff)
  have r: "\<exists>w'. bindE getConfig (\<lambda>u. bindE (fetchWithRetry e (req u)) (\<lambda>resp. k resp)) w = (Inr b, w')"
    if k: "k \<lparr>status = 200, retryAfter = None, respBody = Some b\<rparr> = retE b" for req k w
  proof -
    obtain u w1 where "getConfig w = (Inr u, w1)" using c by blast
    moreover obtain w2 where "fetchWithRetry e (req u) w1 = (Inr \<lparr>status = 200, retryAfter = None, respBody = Some b\<rparr>, w2)"
      using f by blast
    ultimately show ?thesis using k by (simp add: bindE_def retE_def)
  qed
  show "\<exists>w'. syncDelta e s w = (Inr b, w')" "\<exists>w'. syncFull e w = (Inr b, w')"
    "\<exists>w'. submitVote e v w = (Inr b, w')" "\<exists>w'. lookupVideosByPrefix e p w = (Inr b, w')"
    unfolding api_defs by (rule r; simp add: resp_ok_def json_def)+
qed

lemma constant_delta:
  assumes "fetch e = (\<lambda>_ _. Inr \<lparr>status = 200, retryAfter = None, respBody = Some (DeltaBody d)\<rparr>)"
    and "no_idb_faults e" "db_up w"
  shows "\<exists>w2. deltaAnswered e w d w2"
  using resolvesD [OF cache_up(6) [OF assms(2)] assms(3)] constant_server(1) [OF assms(1)]
  unfolding deltaAnswered_def by metis

section \<open>Properties\<close>

text \<open>
  C2: the delta sync implements its specification. Once the server has answered, and when
  storage works, it resolves; if the answer names each video and each channel at most once,
  the cached videos and channels are those before with the changes applied one after the
  other in the order received, the timestamp of the next delta is the server's, the pending
  votes are untouched, and the counts are the numbers of changes applied.
\<close>

theorem deltaSync_refines:
  assumes "deltaAnswered e w d w1" and "no_idb_faults e" and "db_up w"
    and "distinct (map DeltaVideo.videoId (SyncDeltaResponse.videos d))"
    and "distinct (map DeltaChannel.channelId (SyncDeltaResponse.channels d))"
  shows "\<exists>w'. performDeltaSync e w = (Inr (deltaCounts d), w') \<and>
     videoLookup w' = fold (videoChange (syncTimestamp d)) (SyncDeltaResponse.videos d) (videoLookup w) \<and>
     channelLookup w' = fold (channelChange (syncTimestamp d)) (SyncDeltaResponse.channels d) (channelLookup w) \<and>
     metaLookup w' ''lastDeltaSync'' = Some (syncTimestamp d) \<and>
     metaLookup w' ''lastFullSync'' = metaLookup w ''lastFullSync'' \<and>
     pendingVotesStore (data w') = pendingVotesStore (data w)"
proof -
  have up: "db_up w1" using deltaAnswered_up assms(1-3) .
  obtain r w' where run: "applyDelta e d w1 = (Inr r, w')"
    using resolvesD [OF applyDelta_up [OF assms(2)] up] by blast
  have D: "data w' = afterDelta d (data w)" "r = deltaCounts d"
    using applyDelta_Inr [OF run] deltaAnswered_data [OF assms(1)] by simp_all
  note ok = db_ok_stores [OF db_up_ok [OF assms(3)]]
  have "videoLookup w' = fold (videoChange (syncTimestamp d)) (SyncDeltaResponse.videos d) (videoLookup w)"
    "channelLookup w' = fold (channelChange (syncTimestamp d)) (SyncDeltaResponse.channels d) (channelLookup w)"
    unfolding D entry_change [symmetric]
    using vid.batch_refines [OF ok(1) assms(4)] cha.batch_refines [OF ok(2) assms(5)]
    by (simp_all add: afterDelta_batch)
  then show ?thesis
    using run deltaAnswered_run [OF assms(1)] D ok(4)
    by (simp add: afterDelta_def store_get_put META_LAST_DELTA_SYNC_def)
qed

definition sample_delta :: SyncDeltaResponse where
  "sample_delta = \<lparr>SyncDeltaResponse.videos =
      [\<lparr>DeltaVideo.videoId = ''v1'', DeltaVideo.score = Some 80, DeltaVideo.categories = Some [], DeltaVideo.action = Update\<rparr>,
       \<lparr>DeltaVideo.videoId = ''v2'', DeltaVideo.score = None, DeltaVideo.categories = None, DeltaVideo.action = Remove\<rparr>],
    SyncDeltaResponse.channels =
      [\<lparr>DeltaChannel.channelId = ''c1'', DeltaChannel.score = None, DeltaChannel.action = Update\<rparr>],
    syncTimestamp = ''2025-01-02T00:00:00Z''\<rparr>"

lemma sample_delta_answered: "\<exists>w1. deltaAnswered (sample_sync_env (DeltaBody d)) sample_http d w1"
  by (rule constant_delta) (simp_all add: sample_http_up)

theorem deltaSync_refines_witness:
  "\<exists>w'. performDeltaSync (sample_sync_env (DeltaBody sample_delta)) sample_http = (Inr (deltaCounts sample_delta), w') \<and>
     metaLookup w' ''lastDeltaSync'' = Some ''2025-01-02T00:00:00Z''"
proof -
  obtain w1 where "deltaAnswered (sample_sync_env (DeltaBody sample_delta)) sample_http sample_delta w1"
    using sample_delta_answered by blast
  from deltaSync_refines [OF this _ sample_http_up] show ?thesis
    by (auto simp: sample_delta_def)
qed

lemma deltaSync_cases:
  assumes "performDeltaSync e w = (res, w')"
  shows "(\<exists>d w1. deltaAnswered e w d w1 \<and> applyDelta e d w1 = (res, w')) \<or> data w' = data w"
proof (cases "getMeta e META_LAST_DELTA_SYNC w")
  case (Pair m w1)
  note d1 = unchangedD [OF getMeta_data Pair]
  show ?thesis
  proof (cases m)
    case (Inl x)
    with Pair assms d1 show ?thesis by (simp add: performDeltaSync_def bindE_def)
  next
    case (Inr l)
    obtain a w2 where s: "syncDelta e (sinceParam e l) w1 = (a, w2)" by fastforce
    note d2 = unchangedD [OF api_frame(4) [OF base_http_indep(1)] s]
    show ?thesis
    proof (cases "\<exists>d. a = Inr (DeltaBody d)")
      case True
      then obtain d where "deltaAnswered e w d w2"
        using Pair Inr s by (auto simp: deltaAnswered_def)
      with assms deltaAnswered_run show ?thesis by metis
    next
      case False
      then show ?thesis
        using assms Pair Inr s d1 d2 unfolding performDeltaSync_def catch429_def
        by (auto simp: bindE_def catchE_def retE_def throwE_def as_delta_def
            split: sum.splits resp_body.splits if_splits)
    qed
  qed
qed



text \<open>
  C14: repeating a delta sync that failed part-way gives the state it would have given at
  once. If one run of the changes stops anywhere, after any of its removals or its writes, and
  a later run with an answer that names at least the same entries completes, the database is
  the one the later answer makes of the state before the first run.
\<close>

theorem deltaSync_retry_converges:
  assumes "db_ok w" and "applyDelta e d w = (Inl x, w1)" and "data v = data w1"
    and "applyDelta e' d' v = (Inr r, w2)"
    and "set (SyncDeltaResponse.videos d) \<subseteq> set (SyncDeltaResponse.videos d')"
    and "set (SyncDeltaResponse.channels d) \<subseteq> set (SyncDeltaResponse.channels d')"
  shows "data w2 = afterDelta d' (data w) \<and> r = deltaCounts d'"
proof -
  have ok: "data_ok (data w)" using assms(1) by (simp add: db_ok_def)
  from applyDelta_Inl [OF assms(2) ok] have p: "partlyApplied d (data w) (data w1)" .
  have sub: "vid.touched (SyncDeltaResponse.videos d) \<subseteq> vid.touched (SyncDeltaResponse.videos d')"
    "cha.touched (SyncDeltaResponse.channels d) \<subseteq> cha.touched (SyncDeltaResponse.channels d')"
    using assms(5,6) by (auto simp: vid.touched_def cha.touched_def)
  have "vid.batch ts (SyncDeltaResponse.videos d') (videosStore (data w1)) =
        vid.batch ts (SyncDeltaResponse.videos d') (videosStore (data w))" for ts
    using p ok sub(1) by (intro vid.batch_converges) (auto simp: partlyApplied_def data_ok_def)
  moreover have "cha.batch ts (SyncDeltaResponse.channels d') (channelsStore (data w1)) =
        cha.batch ts (SyncDeltaResponse.channels d') (channelsStore (data w))" for ts
    using p ok sub(2) by (intro cha.batch_converges) (auto simp: partlyApplied_def data_ok_def)
  ultimately have "afterDelta d' (data w1) = afterDelta d' (data w)"
    using p by (simp add: afterDelta_batch partlyApplied_def)
  with applyDelta_Inr [OF assms(4)] assms(3) show ?thesis by simp
qed

text \<open>An environment in which the first storage operation fails.\<close>

definition failing_idb_env :: idb_env where
  "failing_idb_env = \<lparr>idbFault = (\<lambda>n. if n = 1 then Some (Error ''AbortError'') else None)\<rparr>"

theorem deltaSync_retry_converges_witness:
  "\<exists>x w1 w2 r. applyDelta failing_idb_env sample_delta sample_idb = (Inl x, w1) \<and>
     applyDelta sample_idb_env sample_delta w1 = (Inr r, w2) \<and>
     data w2 = afterDelta sample_delta (data sample_idb)"
proof -
  obtain x w1 where f: "applyDelta failing_idb_env sample_delta sample_idb = (Inl x, w1)"
    and v: "dbVersion w1 = DB_VERSION"
    by (simp add: applyDelta_def sample_delta_def deltaVideoStep_def isUpsert_def deleteVideo_def write_tx_def
        idb_tx_def getDB_def openDB_def txPromise_def transaction_def failing_idb_env_def sample_idb_def
        eff onupgradeneeded_def createStore_def DB_VERSION_def)
  have ok: "db_ok sample_idb" by (rule fresh_db_ok [OF sample_idb_fresh])
  have "db_up w1" using preservesD [OF applyDelta_ok f ok] v by (simp add: db_up_def)
  then obtain r w2 where g: "applyDelta sample_idb_env sample_delta w1 = (Inr r, w2)"
    using resolvesD [OF applyDelta_up [of sample_idb_env sample_delta], of w1]
    by (auto simp: no_idb_faults_def sample_idb_env_def)
  from deltaSync_retry_converges [OF ok f refl g] f g show ?thesis by blast
qed

text \<open>
  C36: the removals of a delta are executed before its updates whatever their order. The
  server lists the changes in the order they happened, one row per change; a video that was
  updated and then removed since the last sync is cached again by the update.
\<close>

theorem deltaSync_removed_video_survives:
  assumes "db_ok w" and "applyDelta e d w = (Inr r, w')"
    and "SyncDeltaResponse.videos d = xs @ [u] @ ys @ [v]" and "isUpsert u"
    and "DeltaVideo.action v = Remove" and "DeltaVideo.videoId v = DeltaVideo.videoId u"
  shows "(\<exists>c. videoLookup w' (DeltaVideo.videoId v) = Some c) \<and>
     fold (videoChange (syncTimestamp d)) (SyncDeltaResponse.videos d) (videoLookup w) (DeltaVideo.videoId v) = None"
proof -
  have "find (\<lambda>x. DeltaVideo.videoId x = DeltaVideo.videoId v) (rev (filter isUpsert (SyncDeltaResponse.videos d))) \<noteq> None"
    using assms(3,4,6) by (auto simp: find_None_iff)
  then have "\<exists>c. videoLookup w' (DeltaVideo.videoId v) = Some c"
    using vid.batch_lookup [OF db_ok_stores(1) [OF assms(1)]] applyDelta_Inr [OF assms(2)]
    by (auto simp: afterDelta_batch)
  with assms(3,5) show ?thesis by (simp add: videoChange_def)
qed

definition removed_delta :: SyncDeltaResponse where
  "removed_delta = \<lparr>SyncDeltaResponse.videos =
      [\<lparr>DeltaVideo.videoId = ''v1'', DeltaVideo.score = Some 80, DeltaVideo.categories = Some [], DeltaVideo.action = Update\<rparr>,
       \<lparr>DeltaVideo.videoId = ''v1'', DeltaVideo.score = None, DeltaVideo.categories = None, DeltaVideo.action = Remove\<rparr>],
    SyncDeltaResponse.channels =
      [\<lparr>DeltaChannel.channelId = ''c1'', DeltaChannel.score = None, DeltaChannel.action = Update\<rparr>],
    syncTimestamp = ''2025-01-02T00:00:00Z''\<rparr>"

lemma sample_idb_up: "db_up sample_idb"
  by (rule fresh_db_up [OF sample_idb_fresh])

lemma sample_apply: "\<exists>r w'. applyDelta sample_idb_env d sample_idb = (Inr r, w')"
  using resolvesD [OF applyDelta_up sample_idb_up, of sample_idb_env d]
  by (auto simp: no_idb_faults_def sample_idb_env_def)

theorem deltaSync_removed_video_survives_witness:
  "\<exists>r w' c. applyDelta sample_idb_env removed_delta sample_idb = (Inr r, w') \<and> videoLookup w' ''v1'' = Some c"
proof -
  obtain r w' where run: "applyDelta sample_idb_env removed_delta sample_idb = (Inr r, w')"
    using sample_apply by blast
  let ?u = "SyncDeltaResponse.videos removed_delta ! 0" and ?v = "SyncDeltaResponse.videos removed_delta ! 1"
  have "(\<exists>c. videoLookup w' (DeltaVideo.videoId ?v) = Some c) \<and>
     fold (videoChange (syncTimestamp removed_delta)) (SyncDeltaResponse.videos removed_delta)
       (videoLookup sample_idb) (DeltaVideo.videoId ?v) = None"
    by (rule deltaSync_removed_video_survives [OF db_up_ok [OF sample_idb_up] run, of "[]" ?u "[]"])
      (simp_all add: removed_delta_def isUpsert_def)
  with run show ?thesis by (simp add: removed_delta_def)
qed

text \<open>
  An update without a score is skipped. The server leaves the field out when the score is
  zero, so a channel whose score has fallen to zero keeps its old score in the cache, while the
  timestamp of the last sync moves past the change.
\<close>

theorem deltaSync_zero_score_skipped:
  assumes "db_ok w" and "applyDelta e d w = (Inr r, w')"
    and "\<And>c. c \<in> set (SyncDeltaResponse.channels d) \<Longrightarrow> DeltaChannel.channelId c = k \<Longrightarrow>
           DeltaChannel.action c = Update \<and> DeltaChannel.score c = None"
  shows "channelLookup w' k = channelLookup w k \<and> metaLookup w' ''lastDeltaSync'' = Some (syncTimestamp d)"
proof -
  have "k \<notin> cha.touched (SyncDeltaResponse.channels d)"
    using assms(3) by (force simp: cha.touched_def isChannelRemove_def isChannelUpsert_def)
  from cha.untouched [OF db_ok_stores(2) [OF assms(1)] this]
  show ?thesis
    using applyDelta_Inr [OF assms(2)] db_ok_stores(4) [OF assms(1)]
    by (simp add: afterDelta_batch store_get_put META_LAST_DELTA_SYNC_def)
qed

theorem deltaSync_zero_score_skipped_witness:
  "\<exists>r w'. applyDelta sample_idb_env sample_delta sample_idb = (Inr r, w') \<and>
     channelLookup w' ''c1'' = channelLookup sample_idb ''c1''"
proof -
  obtain r w' where run: "applyDelta sample_idb_env sample_delta sample_idb = (Inr r, w')"
    using sample_apply by blast
  have "channelLookup w' ''c1'' = channelLookup sample_idb ''c1'' \<and>
    metaLookup w' ''lastDeltaSync'' = Some (syncTimestamp sample_delta)"
    by (rule deltaSync_zero_score_skipped [OF db_up_ok [OF sample_idb_up] run])
      (auto simp: sample_delta_def)
  with run show ?thesis by blast
qed

text \<open>
  C12: the full sync rebuilds the cache. Once the server has answered with a snapshot, and when
  storage works, it resolves with the sizes of the snapshot; the cached videos and channels are
  exactly those of the snapshot, the last record winning where an id occurs twice; both
  timestamps are set to the snapshot's; the pending votes are untouched.
\<close>

theorem fullSync_rebuilds:
  assumes "fullAnswered e w (FullBody d) w1" and "no_idb_faults e" and "db_up w"
  shows "\<exists>r w'. performFullSync e w = (Inr r, w') \<and>
     FullSyncResult.videoCount r = length (SyncFullResponse.videos d) \<and>
     FullSyncResult.channelCount r = length (SyncFullResponse.channels d) \<and>
     videoLookup w' = (\<lambda>k. find (\<lambda>v. video_key v = k) (rev (map cachedOfResult (SyncFullResponse.videos d)))) \<and>
     channelLookup w' = (\<lambda>k. find (\<lambda>c. channel_key c = k) (rev (map cachedOfChannel (SyncFullResponse.channels d)))) \<and>
     metaLookup w' ''lastFullSync'' = metaLookup w' ''lastDeltaSync'' \<and>
     (generatedAt d \<noteq> '''' \<longrightarrow> metaLookup w' ''lastFullSync'' = Some (generatedAt d)) \<and>
     pendingVotesStore (data w') = pendingVotesStore (data w)"
proof -
  have w1: "data w1 = data w" "db_up w1" using fullAnswered_keeps [OF assms(1)] assms(3) by simp_all
  obtain r w' where run: "rebuildCache e (FullBody d) w1 = (Inr r, w')"
    using resolvesD [OF rebuildCache_up [OF assms(2)] w1(2)] by blast
  from rebuildCache_Inr [OF run] obtain now where r:
    "generatedAt d \<noteq> '''' \<longrightarrow> now = generatedAt d" "data w' = afterFull d now (data w1)"
    "FullSyncResult.videoCount r = length (SyncFullResponse.videos d)"
    "FullSyncResult.channelCount r = length (SyncFullResponse.channels d)"
    by (metis resp_body.inject(4))
  have "videoLookup w' = (\<lambda>k. find (\<lambda>v. video_key v = k) (rev (map cachedOfResult (SyncFullResponse.videos d))))"
    "channelLookup w' = (\<lambda>k. find (\<lambda>c. channel_key c = k) (rev (map cachedOfChannel (SyncFullResponse.channels d))))"
    by (simp_all add: r(2) afterFull_def get_fresh)
  moreover have "store_ok meta_key (metaStore (data w))" by (rule db_ok_stores(4) [OF db_up_ok [OF assms(3)]])
  ultimately show ?thesis
    using run fullAnswered_run [OF assms(1)] r w1(1)
    by (auto simp: afterFull_def store_get_put store_ok_put META_LAST_DELTA_SYNC_def META_LAST_FULL_SYNC_def)
qed

definition sample_full :: SyncFullResponse where
  "sample_full = \<lparr>SyncFullResponse.videos = [], SyncFullResponse.channels =
      [\<lparr>FullChannel.channelId = ''c1'', FullChannel.score = 10, FullChannel.totalVideos = 1,
        FullChannel.flaggedVideos = 0, FullChannel.lastUpdated = ''''\<rparr>],
     generatedAt = ''2025-01-02T00:00:00Z''\<rparr>"

lemma sample_full_answered: "\<exists>w1. fullAnswered (sample_sync_env b) sample_http b w1"
  unfolding fullAnswered_def by (rule constant_server(2)) simp

theorem fullSync_rebuilds_witness:
  "\<exists>r w'. performFullSync (sample_sync_env (FullBody sample_full)) sample_http = (Inr r, w') \<and>
     metaLookup w' ''lastFullSync'' = Some ''2025-01-02T00:00:00Z''"
proof -
  obtain w1 where "fullAnswered (sample_sync_env (FullBody sample_full)) sample_http (FullBody sample_full) w1"
    using sample_full_answered by blast
  from fullSync_rebuilds [OF this _ sample_http_up] show ?thesis
    by (auto simp: sample_full_def)
qed

text \<open>
  The full sync empties the cache before it looks at the answer. When the server answers
  with status 200 and another body (an error object, say), it rejects with a TypeError after
  both stores are cleared; the timestamps stay, so nothing is refetched before the next cycle.
\<close>

theorem fullSync_bad_body_empties:
  assumes "fullAnswered e w b w1" and "no_idb_faults e" and "db_up w"
    and "\<nexists>d. b = FullBody d" and "\<nexists>d. b = DeltaBody d"
  shows "\<exists>w'. performFullSync e w = (Inl (Error ''TypeError''), w') \<and>
     videosStore (data w') = [] \<and> channelsStore (data w') = [] \<and> metaStore (data w') = metaStore (data w)"
proof -
  have w1: "data w1 = data w" "db_up w1" using fullAnswered_keeps [OF assms(1)] assms(3) by simp_all
  obtain w2 where v: "clearVideos e w1 = (Inr (), w2)" "db_up w2"
    using resolvesD [OF cache_up(10) [OF assms(2)] w1(2)] by auto
  obtain w3 where c: "clearChannels e w2 = (Inr (), w3)"
    using resolvesD [OF cache_up(14) [OF assms(2)] v(2)] by auto
  have "as_full b w3 = (Inl (Error ''TypeError''), w3)"
    using assms(4) by (auto simp: as_full_def throwE_def split: resp_body.split)
  with v(1) c have "rebuildCache e b w1 = (Inl (Error ''TypeError''), w3)"
    by (simp add: rebuildCache_def bindE_def)
  with clearVideos_Inr [OF v(1)] clearChannels_Inr [OF c] fullAnswered_run [OF assms(1)] w1(1)
  show ?thesis by simp
qed

theorem fullSync_bad_body_empties_witness:
  "\<exists>w'. performFullSync (sample_sync_env (ErrorBody None)) sample_http = (Inl (Error ''TypeError''), w') \<and>
     videosStore (data w') = []"
proof -
  obtain w1 where "fullAnswered (sample_sync_env (ErrorBody None)) sample_http (ErrorBody None) w1"
    using sample_full_answered by blast
  from fullSync_bad_body_empties [OF this _ sample_http_up] show ?thesis by auto
qed

lemma autoSync_run:
  "getMeta e META_LAST_FULL_SYNC w = (Inr l, w1) \<Longrightarrow>
   autoSync e w = (Inr (), if needsFullSync e (clock w1) l then snd (performFullSync e w1) else snd (performDeltaSync e w1))"
  by (auto simp: autoSync_def eff split: prod.splits sum.splits)

lemma autoSync_skip: "getMeta e META_LAST_FULL_SYNC w = (Inl x, w1) \<Longrightarrow> autoSync e w = (Inr (), w1)"
  by (simp add: autoSync_def eff)

lemma autoSync_resolves: "\<exists>w'. autoSync e w = (Inr (), w')"
  by (cases "getMeta e META_LAST_FULL_SYNC w"; cases "fst (getMeta e META_LAST_FULL_SYNC w)")
    (auto dest: autoSync_run autoSync_skip)

lemma needsFullSync_iff:
  "needsFullSync e now l \<longleftrightarrow> l = None \<or> l = Some '''' \<or>
     (\<exists>s t. l = Some s \<and> dateParse e s = Some t \<and> 24 * 60 * 60 * 1000 < now - t)"
  by (auto simp: needsFullSync_def FULL_SYNC_INTERVAL_MS_def split: option.splits)

text \<open>
  The automatic sync never rejects, and it runs a full sync exactly when none is recorded
  or the recorded one is a valid date more than 24 hours old, a delta sync otherwise.
\<close>

theorem autoSync_spec:
  "(\<exists>w'. autoSync e w = (Inr (), w')) \<and>
   (getMeta e ''lastFullSync'' w = (Inr l, w1) \<longrightarrow>
      snd (autoSync e w) =
        (if l = None \<or> l = Some '''' \<or>
            (\<exists>s t. l = Some s \<and> dateParse e s = Some t \<and> 24 * 60 * 60 * 1000 < clock w1 - t)
         then snd (performFullSync e w1) else snd (performDeltaSync e w1)))"
  using autoSync_resolves [of e w] autoSync_run [of e w l w1]
  unfolding needsFullSync_iff META_LAST_FULL_SYNC_def by simp

theorem autoSync_spec_witness:
  "\<exists>w1. getMeta (sample_sync_env (FullBody sample_full)) ''lastFullSync'' sample_http = (Inr None, w1) \<and>
     snd (autoSync (sample_sync_env (FullBody sample_full)) sample_http) =
     snd (performFullSync (sample_sync_env (FullBody sample_full)) w1)"
proof -
  let ?e = "sample_sync_env (FullBody sample_full)"
  obtain l w1 where g: "getMeta ?e ''lastFullSync'' sample_http = (Inr l, w1)"
    using resolvesD [OF cache_up(6) sample_http_up, of ?e] by fastforce
  then have "l = None"
    unfolding getMeta_def by (auto dest!: read_tx_Inr
      simp: sample_http_def ident.defs sample_ident_def idb.defs sample_idb_def empty_data_def store_get_def)
  with g autoSync_spec [of ?e sample_http l w1] show ?thesis by simp
qed

lemma getMeta_Inr: "getMeta e k w = (Inr l, w') \<Longrightarrow> l = metaLookup w k \<and> data w' = data w"
  unfolding getMeta_def by (drule read_tx_Inr) simp

lemma deltaSync_ok [pres]: "preserves db_ok (performDeltaSync e)"
proof -
  have "preserves db_ok (catch429 (syncDelta e s))" for s
    by (intro unchanged_preserves catch429_frame api_frame base_http_indep)
  then show ?thesis
    unfolding performDeltaSync_def by (intro pres cast_frame(2) [THEN unchanged_preserves])
qed

lemma deltaSync_lastFull:
  assumes "db_ok w" "performDeltaSync e w = (res, w')"
  shows "metaLookup w' META_LAST_FULL_SYNC = metaLookup w META_LAST_FULL_SYNC"
  using deltaSync_cases [OF assms(2)]
proof
  assume "\<exists>d w1. deltaAnswered e w d w1 \<and> applyDelta e d w1 = (res, w')"
  then obtain d w1 where d: "data w1 = data w" "applyDelta e d w1 = (res, w')"
    using deltaAnswered_data by blast
  show ?thesis
  proof (cases res)
    case (Inl x)
    with d applyDelta_Inl [of e d w1 x w'] assms(1) show ?thesis by (simp add: partlyApplied_def db_ok_def)
  next
    case (Inr r)
    with d applyDelta_Inr [of e d w1 r w'] db_ok_stores(4) [OF assms(1)] show ?thesis
      by (simp add: afterDelta_def store_get_put META_LAST_FULL_SYNC_def META_LAST_DELTA_SYNC_def)
  qed
qed simp

text \<open>A state in which the recorded full sync is no valid date.\<close>

definition badFullDate :: "'e sync_env_scheme \<Rightarrow> string \<Rightarrow> 'w http_scheme \<Rightarrow> bool" where
  "badFullDate e s w \<longleftrightarrow> db_ok w \<and> metaLookup w ''lastFullSync'' = Some s \<and> s \<noteq> '''' \<and> dateParse e s = None"

lemma autoSync_badFullDate:
  assumes "badFullDate e s w"
  shows "badFullDate e s (snd (autoSync e w))"
proof (cases "getMeta e META_LAST_FULL_SYNC w")
  case (Pair m w1)
  have w1: "data w1 = data w" "db_ok w1"
    using unchangedD [OF getMeta_data Pair] preservesD [OF cache_reads_ok(6) Pair] assms
    by (simp_all add: badFullDate_def)
  show ?thesis
  proof (cases m)
    case (Inl x)
    with autoSync_skip [OF Pair [unfolded Inl]] w1 assms show ?thesis by (simp add: badFullDate_def)
  next
    case (Inr l)
    obtain r w2 where d: "performDeltaSync e w1 = (r, w2)" by fastforce
    have "l = Some s" using getMeta_Inr [OF Pair [unfolded Inr]] assms
      by (simp add: badFullDate_def META_LAST_FULL_SYNC_def)
    then have "snd (autoSync e w) = w2"
      using autoSync_run [OF Pair [unfolded Inr]] assms d
      by (simp add: badFullDate_def needsFullSync_def)
    then show ?thesis
      using assms w1 deltaSync_lastFull [OF w1(2) d] preservesD [OF deltaSync_ok d w1(2)]
      by (simp add: badFullDate_def META_LAST_FULL_SYNC_def)
  qed
qed

text \<open>
  A recorded date the browser cannot parse disables the full refresh for good. The age
  of the last full sync is then NaN, never greater than a day; and no later automatic sync
  replaces the date, however many run.
\<close>

theorem autoSync_invalid_date_sticks:
  assumes "badFullDate e s w"
  shows "badFullDate e s (((\<lambda>w. snd (autoSync e w)) ^^ n) w) \<and> \<not> needsFullSync e now (Some s)"
proof
  show "badFullDate e s (((\<lambda>w. snd (autoSync e w)) ^^ n) w)"
    using assms by (induction n) (simp_all add: autoSync_badFullDate)
  show "\<not> needsFullSync e now (Some s)"
    using assms by (simp add: badFullDate_def needsFullSync_def)
qed

theorem autoSync_invalid_date_sticks_witness:
  "\<exists>w::http. metaLookup (snd (autoSync (sample_sync_env (FullBody sample_full)) w)) ''lastFullSync'' = Some ''yesterday''"
proof -
  let ?e = "sample_sync_env (FullBody sample_full)"
  let ?w = "sample_http\<lparr>data := empty_data\<lparr>metaStore := [\<lparr>key = ''lastFullSync'', value = ''yesterday''\<rparr>]\<rparr>\<rparr>"
  have "badFullDate ?e ''yesterday'' ?w"
    by (simp add: badFullDate_def db_ok_def data_ok_def empty_data_def store_ok_def store_get_def
        sample_http_def ident.defs sample_ident_def idb.defs sample_idb_def DB_VERSION_def)
  from autoSync_invalid_date_sticks [OF this, of 1] show ?thesis
    by (intro exI [of _ ?w]) (simp add: badFullDate_def)
qed

interpretation startup: timer_slot clock startupSyncTimer armStartup
  by unfold_locales (simp_all add: armStartup_def Let_def)

definition restartSyncSchedule :: "'w sync_scheme \<Rightarrow> 'w sync_scheme" where
  "restartSyncSchedule w = startSyncSchedule (stopSyncSchedule w)"

lemma restart_eq:
  "restartSyncSchedule w = (let w' = armStartup 5000 w in w'\<lparr>syncTimer := Some (clock w + 1800000)\<rparr>)"
  by (simp add: restartSyncSchedule_def startSyncSchedule_def stopSyncSchedule_def armStartup_def Let_def
      DELTA_SYNC_INTERVAL_MS_def timerDelay_small)

text \<open>
  The schedule. Starting it twice is starting it once. However often it is stopped and
  started again within the startup delay, one periodic timer and one startup sync are pending,
  five seconds after the last start. And stopping it clears the periodic timer only: the
  startup sync stays armed.
\<close>

theorem sync_schedule:
  "startSyncSchedule (startSyncSchedule w) = startSyncSchedule w \<and>
   startupSyncTimer ((restartSyncSchedule ^^ Suc n) w) = Some (clock w + 5000) \<and>
   syncTimer ((restartSyncSchedule ^^ Suc n) w) = Some (clock w + 30 * 60 * 1000) \<and>
   syncTimer (stopSyncSchedule w) = None \<and>
   startupSyncTimer (stopSyncSchedule w) = startupSyncTimer w"
proof -
  have c: "clock ((restartSyncSchedule ^^ k) w) = clock w" for k
    by (induction k) (simp_all add: restart_eq Let_def startup.now_schedule armStartup_def)
  have "syncTimer ((restartSyncSchedule ^^ Suc n) w) = Some (clock w + 1800000)"
    using c [of n] by (simp add: restart_eq Let_def)
  moreover have "startupSyncTimer ((restartSyncSchedule ^^ Suc n) w) = Some (clock w + 5000)"
    using c [of n] by (simp add: restart_eq Let_def startup.pending_schedule timerDelay_small)
  moreover have "startSyncSchedule (startSyncSchedule w) = startSyncSchedule w"
    by (simp add: startSyncSchedule_def Let_def)
  ultimately show ?thesis by (simp add: stopSyncSchedule_def)
qed

end
