(* ===== verification/Offline_Queue.thy ===== *)
theory Offline_Queue
  imports Sync
begin

text \<open>
  \<open>background/offline-queue.ts\<close>: votes that could not be sent are kept in the
  \<open>pendingVotes\<close> store and flushed to the server later, one after the other, stopping at the
  first failure. The first half models each exported function as one effect; the second half
  splits a flush into the steps between its awaits, because the worker runs other handlers
  there, and proves what holds (one flush at a time, every flush ends) and what does not (a
  vote queued while its predecessor is being sent is deleted with it).
\<close>

section \<open>State and environment\<close>

record queue = sync +
  flushTimer :: "int option"
  isFlushing :: bool
  onLine :: bool
  onlineListeners :: nat

record queue_env = sync_env +
  navigatorUserAgent :: string

record FlushResult =
  sent :: nat
  failed :: nat

definition FLUSH_RETRY_DELAY_MS :: int where
  "FLUSH_RETRY_DELAY_MS = 30000"

definition MAX_PENDING_AGE_MS :: int where
  "MAX_PENDING_AGE_MS = 7 * 24 * 60 * 60 * 1000"

section \<open>Operations\<close>

definition isOnline :: "'w queue_scheme \<Rightarrow> bool" where
  "isOnline w = onLine w"

definition scheduleFlush :: "int \<Rightarrow> 'w queue_scheme \<Rightarrow> 'w queue_scheme" where
  "scheduleFlush delayMs w =
     (let w' = (if flushTimer w \<noteq> None then w\<lparr>flushTimer := None\<rparr> else w)
      in w'\<lparr>flushTimer := Some (clock w' + timerDelay (Some delayMs))\<rparr>)"

definition enqueueVote :: "'e idb_env_scheme \<Rightarrow> string \<Rightarrow> string \<Rightarrow> ('w queue_scheme, unit) eff" where
  "enqueueVote e vid cat =
     bindE (getE clock) (\<lambda>now.
     bindE (addPendingVote e \<lparr>PendingVote.videoId = vid, PendingVote.category = cat, timestamp = now\<rparr>) (\<lambda>_.
       modE (scheduleFlush 5000)))"

definition voteRequest :: "'e queue_env_scheme \<Rightarrow> string \<Rightarrow> PendingVote \<Rightarrow> VoteRequest" where
  "voteRequest e uid vote = \<lparr>VoteRequest.videoId = PendingVote.videoId vote,
     VoteRequest.category = PendingVote.category vote, VoteRequest.userId = uid,
     VoteRequest.userAgent = ''RealTube/0.1.0 '' @ navigatorUserAgent e\<rparr>"

definition expired :: "int \<Rightarrow> PendingVote \<Rightarrow> bool" where
  "expired now vote = (now - timestamp vote > MAX_PENDING_AGE_MS)"

text \<open>The try block of the loop; the result says whether it got to its end.\<close>

definition trySend :: "'e queue_env_scheme \<Rightarrow> string \<Rightarrow> PendingVote \<Rightarrow> ('w http_scheme, bool) eff" where
  "trySend e uid vote =
     catchE (bindE (submitVote e (voteRequest e uid vote)) (\<lambda>_.
             bindE (removePendingVote e (PendingVote.videoId vote)) (\<lambda>_. retE True)))
       (\<lambda>err. retE False)"

text \<open>The loop over the pending votes; it breaks at the first failure.\<close>

fun flushLoop ::
  "'e queue_env_scheme \<Rightarrow> string \<Rightarrow> int \<Rightarrow> nat \<Rightarrow> PendingVote list \<Rightarrow> ('w http_scheme, FlushResult) eff" where
  "flushLoop e uid now n [] = retE \<lparr>sent = n, failed = 0\<rparr>"
| "flushLoop e uid now n (vote # rest) =
     (if expired now vote
      then bindE (removePendingVote e (PendingVote.videoId vote)) (\<lambda>_. flushLoop e uid now n rest)
      else bindE (trySend e uid vote) (\<lambda>ok.
             if ok then flushLoop e uid now (Suc n) rest
             else retE \<lparr>sent = n, failed = 1\<rparr>))"

definition flushBody :: "'e queue_env_scheme \<Rightarrow> ('w queue_scheme, FlushResult) eff" where
  "flushBody e =
     bindE (getPendingVotes e) (\<lambda>pending.
       if pending = [] then retE \<lparr>sent = 0, failed = 0\<rparr>
       else
         bindE (getPublicUserId e) (\<lambda>uid.
         bindE (getE clock) (\<lambda>now.
         bindE (flushLoop e uid now 0 pending) (\<lambda>result.
         bindE (if 0 < failed result then modE (scheduleFlush FLUSH_RETRY_DELAY_MS) else retE ()) (\<lambda>_.
           retE result)))))"

definition flushPendingVotes :: "'e queue_env_scheme \<Rightarrow> ('w queue_scheme, FlushResult) eff" where
  "flushPendingVotes e =
     bindE (getE isFlushing) (\<lambda>busy.
       if busy then retE \<lparr>sent = 0, failed = 0\<rparr>
       else bindE (modE (\<lambda>w. w\<lparr>isFlushing := True\<rparr>)) (\<lambda>_.
              finallyE (flushBody e) (\<lambda>w. w\<lparr>isFlushing := False\<rparr>)))"

text \<open>The callback of the flush timer, the \<open>online\<close> event, and the start of the listener.\<close>

definition onFlushTimer :: "'e queue_env_scheme \<Rightarrow> ('w queue_scheme, unit) eff" where
  "onFlushTimer e =
     bindE (modE (\<lambda>w. w\<lparr>flushTimer := None\<rparr>)) (\<lambda>_.
     bindE (getE isOnline) (\<lambda>online.
       if online then bindE (flushPendingVotes e) (\<lambda>_. retE ())
       else modE (scheduleFlush FLUSH_RETRY_DELAY_MS)))"

definition onOnline :: "'e queue_env_scheme \<Rightarrow> ('w queue_scheme, unit) eff" where
  "onOnline e =
     bindE (getE onlineListeners) (\<lambda>n.
       if 0 < n then bindE (flushPendingVotes e) (\<lambda>_. retE ()) else retE ())"

definition startOfflineQueueListener :: "'w queue_scheme \<Rightarrow> 'w queue_scheme" where
  "startOfflineQueueListener w =
     (let w' = w\<lparr>onlineListeners := Suc (onlineListeners w)\<rparr>
      in if isOnline w' then scheduleFlush 5000 w' else w')"

definition getPendingVoteCount :: "'e idb_env_scheme \<Rightarrow> ('w idb_scheme, nat) eff" where
  "getPendingVoteCount e = bindE (getPendingVotes e) (\<lambda>pending. retE (length pending))"

interpretation flush_timer: timer_slot clock flushTimer scheduleFlush
  by unfold_locales (simp_all add: scheduleFlush_def Let_def)

section \<open>What a submission does\<close>

text \<open>
  \<open>accepted e r lg\<close>: somewhere in the log of requests the vote \<open>r\<close> was posted and the
  server's answer to that very request was a success.
\<close>

definition accepted :: "'e api_env_scheme \<Rightarrow> VoteRequest \<Rightarrow> request list \<Rightarrow> bool" where
  "accepted e r lg \<longleftrightarrow> (\<exists>pre req post resp. lg = pre @ req # post \<and> method req = POST \<and>
     reqBody req = Some (VoteJson r) \<and> fetch e pre req = Inr resp \<and> resp_ok resp)"

lemma accepted_append: "accepted e r lg \<Longrightarrow> accepted e r (lg @ xs)"
  unfolding accepted_def by (metis append.assoc append_Cons)

lemma submitVote_log:
  assumes "submitVote e r w = (res, w')"
  shows "\<exists>k. map reqBody (requests w') = map reqBody (requests w) @ replicate (Suc k) (Some (VoteJson r)) \<and>
     (\<exists>xs. requests w' = requests w @ xs) \<and>
     ((\<exists>b. res = Inr b) \<longrightarrow> accepted e r (requests w'))"
proof -
  obtain u w1 where c: "getConfig w = (Inr u, w1)"
    by (cases "getConfig w") (auto simp: getConfig_def eff split: if_splits)
  have r1: "requests w1 = requests w" using c by (auto simp: getConfig_def eff split: if_splits)
  let ?req = "jsonReq (u @ ''/api/votes'') POST (VoteJson r)"
  let ?k = "retryCount e w1 ?req MAX_RETRIES"
  have f: "fetchWithRetry e ?req w1 = (outcome e w1 ?req ?k, afterRetries e w1 ?req 0 ?k)"
    by (rule fetchWithRetry_eq)
  have w': "w' = afterRetries e w1 ?req 0 ?k"
    using assms c f unfolding submitVote_def json_def
    by (auto simp: bindE_def throwE_def retE_def split: sum.splits if_splits option.splits)
  have "requests w' = (requests w @ replicate ?k ?req) @ [?req]"
    by (simp add: w' afterRetries_def r1 flip: replicate_append_same)
  moreover have "accepted e r (requests w')" if got: "res = Inr b" for b
  proof -
    obtain resp where "outcome e w1 ?req ?k = Inr resp" "resp_ok resp"
      using assms c f got unfolding submitVote_def
      by (auto simp: bindE_def throwE_def split: sum.splits if_splits)
    then have "fetch e (requests w @ replicate ?k ?req) ?req = Inr resp" "resp_ok resp"
      by (simp_all add: outcome_def r1)
    with \<open>requests w' = (requests w @ replicate ?k ?req) @ [?req]\<close> show ?thesis
      unfolding accepted_def
      by (intro exI [of _ "requests w @ replicate ?k ?req"] exI [of _ ?req] exI [of _ "[]"] exI [of _ resp])
        (simp_all add: jsonReq_def)
  qed
  ultimately show ?thesis
    by (intro exI [of _ ?k]) (auto simp: jsonReq_def replicate_append_same)
qed

lemma removePendingVote_Inr: "removePendingVote e k w = (Inr u, w') \<Longrightarrow>
    data w' = (data w)\<lparr>pendingVotesStore := store_delete vote_key k (pendingVotesStore (data w))\<rparr>"
  unfolding removePendingVote_def by (rule write_tx_Inr)

lemma removePendingVote_Inl: "removePendingVote e k w = (Inl x, w') \<Longrightarrow> data w' = data w"
  unfolding removePendingVote_def by (rule write_tx_Inl)

lemma addPendingVote_Inr: "addPendingVote e v w = (Inr u, w') \<Longrightarrow>
    data w' = (data w)\<lparr>pendingVotesStore := store_put vote_key v (pendingVotesStore (data w))\<rparr>"
  unfolding addPendingVote_def by (rule write_tx_Inr)

lemma removePendingVote_requests: "removePendingVote e k w = (r, w') \<Longrightarrow> requests w' = requests w"
  by (rule unchangedD [OF cache_frame(16) [OF http_idb_indep(3)]])

section \<open>What a flush does\<close>

text \<open>
  A flush splits the queue into the votes it took care of (\<open>gone\<close>) and the \<open>rest\<close>, of which it
  has at most tried the first.
\<close>

definition attempted :: "int \<Rightarrow> PendingVote list \<Rightarrow> PendingVote list \<Rightarrow> PendingVote list" where
  "attempted now gone rest = filter (\<lambda>v. \<not> expired now v) (gone @ take 1 rest)"

definition posts :: "'e queue_env_scheme \<Rightarrow> string \<Rightarrow> nat list \<Rightarrow> PendingVote list \<Rightarrow> json_body option list" where
  "posts e uid ks vs = concat (map2 (\<lambda>k v. replicate (Suc k) (Some (VoteJson (voteRequest e uid v)))) ks vs)"

definition flushed :: "'e queue_env_scheme \<Rightarrow> string \<Rightarrow> int \<Rightarrow> 'w http_scheme \<Rightarrow> 'w http_scheme \<Rightarrow>
    PendingVote list \<Rightarrow> PendingVote list \<Rightarrow> bool" where
  "flushed e uid now w w' gone rest \<longleftrightarrow>
     data w' = (data w)\<lparr>pendingVotesStore :=
       fold (store_delete vote_key) (map vote_key gone) (pendingVotesStore (data w))\<rparr> \<and>
     (\<forall>v \<in> set gone. expired now v \<or> accepted e (voteRequest e uid v) (requests w')) \<and>
     (\<exists>xs. requests w' = requests w @ xs) \<and>
     (\<exists>ks. length ks = length (attempted now gone rest) \<and>
        map reqBody (requests w') = map reqBody (requests w) @ posts e uid ks (attempted now gone rest))"

lemma trySend_cases:
  assumes "trySend e uid v w = (res, w')"
  obtains (ok) "res = Inr True" "accepted e (voteRequest e uid v) (requests w')"
      "data w' = (data w)\<lparr>pendingVotesStore := store_delete vote_key (vote_key v) (pendingVotesStore (data w))\<rparr>"
  | (err) "res = Inr False" "data w' = data w"
proof -
  obtain r w1 where s: "submitVote e (voteRequest e uid v) w = (r, w1)" by fastforce
  have d: "data w1 = data w" by (rule unchangedD [OF api_frame(2) [OF base_http_indep(1)] s])
  show thesis
  proof (cases r)
    case (Inl x)
    with assms s d show thesis by (intro err) (auto simp: trySend_def eff)
  next
    case (Inr b)
    then have acc: "accepted e (voteRequest e uid v) (requests w1)" using submitVote_log [OF s] by blast
    obtain q w2 where r: "removePendingVote e (vote_key v) w1 = (q, w2)" by fastforce
    show thesis
    proof (cases q)
      case (Inl x)
      with assms s Inr r d removePendingVote_Inl [of e "vote_key v" w1 x w2] show thesis
        by (intro err) (auto simp: trySend_def eff)
    next
      case (Inr u)
      with assms s \<open>r = Inr b\<close> r d acc removePendingVote_Inr [of e "vote_key v" w1 u w2]
        removePendingVote_requests [OF r] show thesis
        by (intro ok) (auto simp: trySend_def eff)
    qed
  qed
qed

lemma trySend_log:
  assumes "trySend e uid v w = (res, w')"
  shows "\<exists>k. map reqBody (requests w') = map reqBody (requests w) @ replicate (Suc k) (Some (VoteJson (voteRequest e uid v)))"
    and "\<exists>xs. requests w' = requests w @ xs"
proof -
  obtain r w1 where s: "submitVote e (voteRequest e uid v) w = (r, w1)" by fastforce
  have "requests w' = requests w1"
    using assms s
    by (auto simp: trySend_def eff dest: removePendingVote_requests split: sum.splits prod.splits)
  with submitVote_log [OF s]
  show "\<exists>k. map reqBody (requests w') = map reqBody (requests w) @ replicate (Suc k) (Some (VoteJson (voteRequest e uid v)))"
    "\<exists>xs. requests w' = requests w @ xs" by auto
qed

lemma flushed_Nil: "flushed e uid now w w [] []"
  by (simp add: flushed_def attempted_def posts_def)

text \<open>One more vote in front of what the rest of the loop does.\<close>

lemma flushed_expired:
  assumes "expired now v" "flushed e uid now w1 w' gone rest" "requests w1 = requests w"
    and "data w1 = (data w)\<lparr>pendingVotesStore := store_delete vote_key (vote_key v) (pendingVotesStore (data w))\<rparr>"
  shows "flushed e uid now w w' (v # gone) rest"
  using assms by (auto simp: flushed_def attempted_def)

lemma flushed_sent:
  assumes "\<not> expired now v" "trySend e uid v w = (Inr True, w1)" "flushed e uid now w1 w' gone rest"
  shows "flushed e uid now w w' (v # gone) rest"
proof -
  have d: "data w1 = (data w)\<lparr>pendingVotesStore := store_delete vote_key (vote_key v) (pendingVotesStore (data w))\<rparr>"
    and acc: "accepted e (voteRequest e uid v) (requests w1)"
    using assms(2) by (auto elim: trySend_cases)
  obtain k xs where k: "map reqBody (requests w1) = map reqBody (requests w) @ replicate (Suc k) (Some (VoteJson (voteRequest e uid v)))"
    "requests w1 = requests w @ xs"
    using trySend_log [OF assms(2)] by blast
  obtain ks ys where ks: "length ks = length (attempted now gone rest)" "requests w' = requests w1 @ ys"
    "map reqBody (requests w') = map reqBody (requests w1) @ posts e uid ks (attempted now gone rest)"
    using assms(3) by (auto simp: flushed_def)
  have "attempted now (v # gone) rest = v # attempted now gone rest"
    using assms(1) by (simp add: attempted_def)
  then have "length (k # ks) = length (attempted now (v # gone) rest) \<and>
      map reqBody (requests w') = map reqBody (requests w) @ posts e uid (k # ks) (attempted now (v # gone) rest)"
    using ks(1,3) k(1) by (simp add: posts_def)
  moreover have "accepted e (voteRequest e uid v) (requests w')"
    using accepted_append [OF acc] ks(2) by simp
  ultimately show ?thesis
    using assms(3) d k(2) ks(2) unfolding flushed_def by (simp; blast)
qed

lemma flushed_failed:
  assumes "\<not> expired now v" "trySend e uid v w = (Inr False, w')"
  shows "flushed e uid now w w' [] (v # rest)"
proof -
  have "data w' = data w" using assms(2) by (auto elim: trySend_cases)
  moreover obtain k where "map reqBody (requests w') = map reqBody (requests w) @ replicate (Suc k) (Some (VoteJson (voteRequest e uid v)))"
    using trySend_log(1) [OF assms(2)] by blast
  ultimately show ?thesis
    using trySend_log(2) [OF assms(2)] assms(1) unfolding flushed_def
    by (auto simp: attempted_def posts_def intro!: exI [of _ "[k]"])
qed

lemma trySend_Inr: "trySend e uid v w = (res, w') \<Longrightarrow> \<exists>ok. res = Inr ok"
  by (erule trySend_cases) auto

lemma flushLoop_spec:
  assumes "flushLoop e uid now n vs w = (res, w')"
  shows "\<exists>gone rest. vs = gone @ rest \<and> flushed e uid now w w' gone rest \<and>
     (\<forall>r. res = Inr r \<longrightarrow> sent r = n + length (filter (\<lambda>v. \<not> expired now v) gone) \<and>
        (rest = [] \<and> failed r = 0 \<or> (\<exists>v vs'. rest = v # vs' \<and> \<not> expired now v \<and> failed r = 1)))"
  using assms
proof (induction vs arbitrary: n w)
  case Nil
  then show ?case using flushed_Nil [of e uid now w] by auto
next
  case (Cons v vs)
  show ?case
  proof (cases "expired now v")
    case True
    obtain q w1 where r: "removePendingVote e (vote_key v) w = (q, w1)" by fastforce
    show ?thesis
    proof (cases q)
      case (Inl x)
      with Cons.prems True r have "res = Inl x" "w' = w1" by (auto simp: eff)
      moreover have "flushed e uid now w w1 [] (v # vs)"
        using True removePendingVote_Inl [OF r [unfolded Inl]] removePendingVote_requests [OF r]
        by (simp add: flushed_def attempted_def posts_def)
      ultimately show ?thesis by force
    next
      case (Inr u)
      with Cons.prems True r have "flushLoop e uid now n vs w1 = (res, w')" by (auto simp: eff)
      from Cons.IH [OF this] obtain gone rest where gr: "vs = gone @ rest" "flushed e uid now w1 w' gone rest"
        "\<forall>r. res = Inr r \<longrightarrow> sent r = n + length (filter (\<lambda>v. \<not> expired now v) gone) \<and>
          (rest = [] \<and> failed r = 0 \<or> (\<exists>v vs'. rest = v # vs' \<and> \<not> expired now v \<and> failed r = 1))" by blast
      have "flushed e uid now w w' (v # gone) rest"
        using True gr(2) removePendingVote_requests [OF r] removePendingVote_Inr [OF r [unfolded Inr]]
        by (rule flushed_expired)
      with gr True show ?thesis by (intro exI [of _ "v # gone"] exI [of _ rest]) simp
    qed
  next
    case False
    obtain q w1 where t: "trySend e uid v w = (q, w1)" by fastforce
    from trySend_Inr [OF t] obtain ok where ok: "q = Inr ok" by blast
    show ?thesis
    proof (cases ok)
      case True
      with Cons.prems False t ok have "flushLoop e uid now (Suc n) vs w1 = (res, w')" by (auto simp: eff)
      from Cons.IH [OF this] obtain gone rest where gr: "vs = gone @ rest" "flushed e uid now w1 w' gone rest"
        "\<forall>r. res = Inr r \<longrightarrow> sent r = Suc n + length (filter (\<lambda>v. \<not> expired now v) gone) \<and>
          (rest = [] \<and> failed r = 0 \<or> (\<exists>v vs'. rest = v # vs' \<and> \<not> expired now v \<and> failed r = 1))" by blast
      have "flushed e uid now w w' (v # gone) rest"
        using False t [unfolded ok] True gr(2) by (intro flushed_sent) simp_all
      with gr False show ?thesis by (intro exI [of _ "v # gone"] exI [of _ rest]) simp
    next
      case no: False
      with Cons.prems False t ok have "res = Inr \<lparr>sent = n, failed = 1\<rparr>" "w' = w1" by (auto simp: eff)
      moreover have "flushed e uid now w w1 [] (v # vs)"
        using False t ok no by (intro flushed_failed) simp_all
      ultimately show ?thesis using False by (intro exI [of _ "[]"] exI [of _ "v # vs"]) simp
    qed
  qed
qed

lemma store_delete_all: "fold (store_delete kp) ks s = filter (\<lambda>v. kp v \<notin> set ks) s"
  by (induction ks arbitrary: s) (auto simp: store_delete_def intro: filter_cong)

lemma delete_front:
  assumes "distinct (map kp (gone @ rest))"
  shows "fold (store_delete kp) (map kp gone) (gone @ rest) = rest"
proof -
  have "filter (\<lambda>v. kp v \<notin> kp ` set gone) rest = rest"
    using assms by (intro filter_True) auto
  then show ?thesis by (simp add: store_delete_all filter_False)
qed

text \<open>What a flush leaves when it has gone through the front of the queue.\<close>

lemma queue_rest:
  assumes "db_ok w" and "pendingVotesStore (data w) = gone @ rest" and "flushed e uid now w1 w2 gone rest" and "data w1 = data w"
  shows "data w2 = (data w)\<lparr>pendingVotesStore := rest\<rparr>"
proof -
  have "distinct (map vote_key (gone @ rest))"
    using db_ok_stores(3) [OF assms(1)] unfolding store_ok_def assms(2) strict_sorted_iff by blast
  from delete_front [OF this] assms(2-4) show ?thesis by (simp add: flushed_def)
qed

section \<open>The whole flush\<close>

lemma queue_indep [frame]:
  "idb_indep isFlushing" "ident_indep isFlushing" "http_indep isFlushing"
  "idb_indep flushTimer" "ident_indep flushTimer" "http_indep flushTimer"
  by (simp_all add: idb_indep_def ident_indep_def http_indep_def)

lemma scheduleFlush_simps [simp]:
  "data (scheduleFlush ms w) = data w" "requests (scheduleFlush ms w) = requests w"
  "isFlushing (scheduleFlush ms w) = isFlushing w" "clock (scheduleFlush ms w) = clock w"
  "dbVersion (scheduleFlush ms w) = dbVersion w" "dbInstance (scheduleFlush ms w) = dbInstance w"
  "objectStoreNames (scheduleFlush ms w) = objectStoreNames w"
  by (simp_all add: scheduleFlush_def Let_def)

lemma getPendingVotes_Inr:
  "getPendingVotes e w = (Inr p, w') \<Longrightarrow> p = pendingVotesStore (data w) \<and> data w' = data w"
  unfolding getPendingVotes_def by (drule read_tx_Inr) (simp add: store_get_all_def)

lemma getPendingVotes_clock: "getPendingVotes e w = (r, w') \<Longrightarrow> clock w' = clock w"
  by (rule unchangedD [OF cache_frame(5) [OF clock_indep]])

lemma userId_clock: "getPublicUserId e w = (r, w') \<Longrightarrow> clock w' = clock w"
  by (rule unchangedD [OF getPublicUserId_frame [OF idb_ident_indep(2)]])

lemma getPendingVotes_requests: "getPendingVotes e w = (r, w') \<Longrightarrow> requests w' = requests w"
  by (rule unchangedD [OF cache_frame(5) [OF http_idb_indep(3)]])

lemma userId_keeps: "getPublicUserId e w = (r, w') \<Longrightarrow> data w' = data w \<and> requests w' = requests w"
  using unchangedD [OF getPublicUserId_frame [OF idb_ident_indep(1)]]
    unchangedD [OF getPublicUserId_frame [OF http_ident_indep(3)]] by blast

text \<open>Either the flush stops before it has sent anything, or it is one run of the loop.\<close>

lemma flushBody_cases:
  assumes "flushBody e w = (res, w')"
  obtains (early) "data w' = data w" "requests w' = requests w"
      "\<And>r. res = Inr r \<Longrightarrow> r = \<lparr>sent = 0, failed = 0\<rparr> \<and> pendingVotesStore (data w) = []"
  | (loop) uid w1 w2 where "data w1 = data w" "requests w1 = requests w"
      "flushLoop e uid (clock w) 0 (pendingVotesStore (data w)) w1 = (res, w2)"
      "w' = (if \<exists>r. res = Inr r \<and> 0 < failed r then scheduleFlush FLUSH_RETRY_DELAY_MS w2 else w2)"
proof -
  obtain p v where g: "getPendingVotes e w = (p, v)" by fastforce
  note g1 = unchangedD [OF getPendingVotes_data g] getPendingVotes_requests [OF g]
  show thesis
  proof (cases "\<exists>vs. p = Inr vs \<and> vs \<noteq> []")
    case False
    with assms g g1 show thesis
      by (intro early) (auto simp: flushBody_def bindE_def retE_def dest!: getPendingVotes_Inr split: sum.splits)
  next
    case True
    then obtain vs where vs: "p = Inr vs" "vs \<noteq> []" by blast
    have q: "vs = pendingVotesStore (data w)" using getPendingVotes_Inr [of e w vs v] g vs by simp
    obtain u w1 where u: "getPublicUserId e v = (u, w1)" by fastforce
    note k = userId_keeps [OF u]
    show thesis
    proof (cases u)
      case (Inl x)
      with assms g vs u g1 k show thesis by (intro early) (auto simp: flushBody_def bindE_def)
    next
      case (Inr uid)
      obtain r w2 where l: "flushLoop e uid (clock w1) 0 vs w1 = (r, w2)" by fastforce
      have "flushBody e w = (r, if \<exists>x. r = Inr x \<and> 0 < failed x then scheduleFlush FLUSH_RETRY_DELAY_MS w2 else w2)"
        using g vs u Inr l by (cases r) (auto simp: flushBody_def eff)
      moreover have "clock w1 = clock w" using getPendingVotes_clock [OF g] userId_clock [OF u] by simp
      ultimately show thesis using assms l g1 k q by (intro loop) auto
    qed
  qed
qed

lemma trySend_isFlushing: "unchanged isFlushing (trySend e uid v)"
  unfolding trySend_def by (intro frame queue_indep)

lemma flush_resolves_of:
  "\<not> isFlushing w \<Longrightarrow> flushBody e (w\<lparr>isFlushing := True\<rparr>) = (Inr r, v) \<Longrightarrow>
     flushPendingVotes e w = (Inr r, v\<lparr>isFlushing := False\<rparr>)"
  by (simp add: flushPendingVotes_def eff)

lemma flushLoop_isFlushing: "unchanged isFlushing (flushLoop e uid now n vs)"
  by (induction vs arbitrary: n) (auto intro!: frame queue_indep trySend_isFlushing)

text \<open>
  C1: a flush loses no vote. Whatever fails on the way (storage, network, server), after a
  flush every vote that was queued is still queued, unless it was more than seven days old or
  the server's answer to a request carrying that very vote was a success. Nothing else in the
  database changes, no vote is added, and the flag that keeps flushes apart is cleared again.
\<close>

theorem flush_loses_no_vote:
  assumes "db_ok w" and "\<not> isFlushing w" and "flushPendingVotes e w = (res, w')"
  shows "\<not> isFlushing w' \<and>
     data w' = (data w)\<lparr>pendingVotesStore := pendingVotesStore (data w')\<rparr> \<and>
     set (pendingVotesStore (data w')) \<subseteq> set (pendingVotesStore (data w)) \<and>
     (\<exists>uid. \<forall>v \<in> set (pendingVotesStore (data w)) - set (pendingVotesStore (data w')).
        clock w - timestamp v > 7 * 24 * 60 * 60 * 1000 \<or> accepted e (voteRequest e uid v) (requests w'))"
proof -
  let ?w0 = "w\<lparr>isFlushing := True\<rparr>"
  obtain v where b: "flushBody e ?w0 = (res, v)" and w': "w' = v\<lparr>isFlushing := False\<rparr>"
    using assms(2,3) by (auto simp: flushPendingVotes_def eff split: prod.splits)
  from b show ?thesis
  proof (cases rule: flushBody_cases)
    case early
    with w' show ?thesis by simp
  next
    case (loop uid w1 w2)
    from flushLoop_spec [OF loop(3)] obtain gone rest where
      gr: "pendingVotesStore (data w) = gone @ rest" "flushed e uid (clock w) w1 w2 gone rest" by auto
    have q: "data w' = data w2" "requests w' = requests w2" using loop(4) w' by auto
    have d: "data w2 = (data w)\<lparr>pendingVotesStore := rest\<rparr>"
      using queue_rest [OF assms(1) gr] loop(1) by simp
    from gr have "\<forall>v \<in> set (pendingVotesStore (data w)) - set (pendingVotesStore (data w')).
        expired (clock w) v \<or> accepted e (voteRequest e uid v) (requests w')"
      unfolding q d by (auto simp: flushed_def)
    then have "\<exists>uid. \<forall>v \<in> set (pendingVotesStore (data w)) - set (pendingVotesStore (data w')).
        clock w - timestamp v > 7 * 24 * 60 * 60 * 1000 \<or> accepted e (voteRequest e uid v) (requests w')"
      unfolding expired_def MAX_PENDING_AGE_MS_def by blast
    moreover have "set (pendingVotesStore (data w')) \<subseteq> set (pendingVotesStore (data w))"
      unfolding q(1) d gr(1) by auto
    moreover have "data w' = (data w)\<lparr>pendingVotesStore := pendingVotesStore (data w')\<rparr>"
      unfolding q(1) d by simp
    ultimately show ?thesis using w' by simp
  qed
qed

section \<open>Sample environment\<close>

definition sample_queue_env :: "resp_body \<Rightarrow> nat \<Rightarrow> queue_env" where
  "sample_queue_env b st = \<lparr>idbFault = (\<lambda>_. None), randomUUID = None, mathRandom = (\<lambda>_. 1 / 2),
     digest = (\<lambda>_. replicate 32 0), fetch = (\<lambda>_ _. Inr \<lparr>status = st, retryAfter = None, respBody = Some b\<rparr>),
     dateParse = (\<lambda>_. None), toISOString = (\<lambda>_. ''1970-01-01T00:00:00.000Z''), navigatorUserAgent = ''Firefox''\<rparr>"

lemma sample_queue_env_simps [simp]:
  "fetch (sample_queue_env b st) = (\<lambda>_ _. Inr \<lparr>status = st, retryAfter = None, respBody = Some b\<rparr>)"
  "no_idb_faults (sample_queue_env b st)" "nonempty_uuid (sample_queue_env b st)"
  "idbFault (sample_queue_env b st) = (\<lambda>_. None)"
  by (simp_all add: sample_queue_env_def no_idb_faults_def nonempty_uuid_def)

definition sample_vote :: "string \<Rightarrow> string \<Rightarrow> PendingVote" where
  "sample_vote vid cat = \<lparr>PendingVote.videoId = vid, PendingVote.category = cat, timestamp = 0\<rparr>"

text \<open>An open database with the given votes in the queue.\<close>

definition sample_queue :: "PendingVote list \<Rightarrow> queue" where
  "sample_queue vs = \<lparr>clock = 0, data = empty_data\<lparr>pendingVotesStore := vs\<rparr>, objectStoreNames = DB_STORES,
     dbVersion = 1, dbInstance = True, idbOps = 0, localId = Some ''id'', uuidCalls = 0, randomCalls = 0,
     cachedBaseUrl = None, serverUrl = None, requests = [], sleeps = [], syncTimer = None,
     startupSyncTimer = None, flushTimer = None, isFlushing = False, onLine = True, onlineListeners = 0\<rparr>"

lemma sample_queue_simps [simp]:
  "data (sample_queue vs) = empty_data\<lparr>pendingVotesStore := vs\<rparr>" "\<not> isFlushing (sample_queue vs)"
  "requests (sample_queue vs) = []" "clock (sample_queue vs) = 0"
  "pendingVotesStore (data (sample_queue vs)) = vs"
  by (simp_all add: sample_queue_def)

lemma sample_queue_up: "store_ok vote_key vs \<Longrightarrow> db_up (sample_queue vs)"
  by (simp add: sample_queue_def db_up_def db_ok_def data_ok_def empty_data_def DB_VERSION_def store_ok_def)

theorem flush_loses_no_vote_witness:
  "\<not> isFlushing (snd (flushPendingVotes (sample_queue_env (ErrorBody None) 500) (sample_queue [sample_vote ''v1'' ''fully_ai''])))"
  using flush_loses_no_vote [OF db_up_ok [OF sample_queue_up], of "[sample_vote ''v1'' ''fully_ai'']"
      "sample_queue_env (ErrorBody None) 500"]
  by (auto simp: store_ok_def) (metis prod.collapse)

section \<open>Flushes that complete\<close>

lemma trySend_up: "no_idb_faults e \<Longrightarrow> resolves db_up (trySend e uid v)"
  unfolding trySend_def
  by (intro resolves_catchE resolves_retE preserves_bindE preserves_retE
      unchanged_preserves [OF api_frame(2) [OF base_http_indep(8)]] resolves_preserves cache_up)

lemma flushLoop_up: "no_idb_faults e \<Longrightarrow> resolves db_up (flushLoop e uid now n vs)"
  by (induction vs arbitrary: n)
    (auto intro!: resolves_bindE resolves_if resolves_retE trySend_up cache_up)

lemma flushBody_up:
  assumes "no_idb_faults e" "nonempty_uuid e"
  shows "resolves db_up (flushBody e)"
  unfolding flushBody_def
  by (intro resolves_bindE resolves_if resolves_retE resolves_getE resolves_modE flushLoop_up cache_up
      getPublicUserId_up assms)
    (simp add: db_up_def db_ok_def)

lemma flush_resolves:
  assumes "db_up w" "\<not> isFlushing w" "no_idb_faults e" "nonempty_uuid e"
  shows "\<exists>r w'. flushPendingVotes e w = (Inr r, w')"
proof -
  have "db_up (w\<lparr>isFlushing := True\<rparr>)" using assms(1) by (simp add: db_up_def db_ok_def)
  from resolvesD [OF flushBody_up [OF assms(3,4)] this] show ?thesis
    using flush_resolves_of [OF assms(2)] by blast
qed



text \<open>
  A vote the server refuses blocks the queue. The first failure ends the flush, and a
  refused submission (status 400, say) is such a failure: while the vote is not a week old,
  every flush posts that vote alone, leaves the queue as it is and reports one failure; the
  votes behind it are not sent.
\<close>

theorem flush_head_of_line:
  assumes "db_up w" and "\<not> isFlushing w" and "no_idb_faults e" and "nonempty_uuid e"
    and "pendingVotesStore (data w) = v # vs" and "\<not> expired (clock w) v"
    and refused: "\<And>lg req uid. reqBody req = Some (VoteJson (voteRequest e uid v)) \<Longrightarrow>
           \<exists>resp. fetch e lg req = Inr resp \<and> \<not> resp_ok resp"
  shows "\<exists>r w' uid k. flushPendingVotes e w = (Inr r, w') \<and> sent r = 0 \<and> failed r = 1 \<and>
     pendingVotesStore (data w') = v # vs \<and>
     map reqBody (requests w') = map reqBody (requests w) @ replicate (Suc k) (Some (VoteJson (voteRequest e uid v)))"
proof -
  obtain r w' where run: "flushPendingVotes e w = (Inr r, w')"
    using flush_resolves assms(1-4) by blast
  obtain u where "flushBody e (w\<lparr>isFlushing := True\<rparr>) = (Inr r, u)" and w': "w' = u\<lparr>isFlushing := False\<rparr>"
    using run assms(2) by (auto simp: flushPendingVotes_def eff split: prod.splits)
  then show ?thesis
  proof (cases rule: flushBody_cases)
    case early
    from early(3) [OF refl] assms(5) show ?thesis by simp
  next
    case (loop uid w1 w2)
    have no: "\<not> accepted e (voteRequest e uid v) lg" for lg
    proof
      assume "accepted e (voteRequest e uid v) lg"
      then obtain pre req resp where "reqBody req = Some (VoteJson (voteRequest e uid v))"
        "fetch e pre req = Inr resp" "resp_ok resp"
        by (auto simp: accepted_def)
      with refused [OF this(1), of pre] show False by simp
    qed
    obtain ok w3 where t: "trySend e uid v w1 = (Inr ok, w3)"
      using trySend_Inr [of e uid v w1] by (metis prod.collapse)
    have f: "trySend e uid v w1 = (Inr False, w3)" "data w3 = data w1"
      using t no by (auto elim!: trySend_cases)
    then have "r = \<lparr>sent = 0, failed = 1\<rparr>" "w2 = w3"
      using loop(3) assms(5,6) by (simp_all add: eff)
    with f(2) trySend_log(1) [OF f(1)] loop(1,2,4) run w' assms(5) show ?thesis
      by (auto simp del: replicate_Suc)
  qed
qed

text \<open>The server refuses every request.\<close>

theorem flush_head_of_line_witness:
  "\<exists>r w'. flushPendingVotes (sample_queue_env (ErrorBody None) 400)
       (sample_queue [sample_vote ''v1'' ''bogus'', sample_vote ''v2'' ''fully_ai'']) = (Inr r, w') \<and>
     sent r = 0 \<and> length (pendingVotesStore (data w')) = 2"
proof -
  let ?v = "sample_vote ''v1'' ''bogus''" and ?vs = "[sample_vote ''v2'' ''fully_ai'']"
  have "store_ok vote_key (?v # ?vs)" by (simp add: store_ok_def sample_vote_def less_list_code less_char_def)
  from flush_head_of_line [OF sample_queue_up [OF this], of "sample_queue_env (ErrorBody None) 400" ?v ?vs]
  show ?thesis
    by (force simp: resp_ok_def expired_def sample_vote_def MAX_PENDING_AGE_MS_def)
qed

section \<open>Queueing\<close>

lemma enqueueVote_Inr:
  assumes "enqueueVote e vid cat w = (Inr u, w')"
  shows "data w' = (data w)\<lparr>pendingVotesStore := store_put vote_key
      \<lparr>PendingVote.videoId = vid, PendingVote.category = cat, timestamp = clock w\<rparr> (pendingVotesStore (data w))\<rparr>"
    and "flushTimer w' = Some (clock w + 5000)" and "requests w' = requests w"
    and "isFlushing w' = isFlushing w" and "clock w' = clock w"
proof -
  let ?v = "\<lparr>PendingVote.videoId = vid, PendingVote.category = cat, timestamp = clock w\<rparr>"
  obtain w1 where a: "addPendingVote e ?v w = (Inr (), w1)" and w': "w' = scheduleFlush 5000 w1"
    using assms by (auto simp: enqueueVote_def bindE_Inr_iff)
  have c: "clock w1 = clock w" by (rule unchangedD [OF cache_frame(15) [OF clock_indep] a])
  show "data w' = (data w)\<lparr>pendingVotesStore := store_put vote_key ?v (pendingVotesStore (data w))\<rparr>"
    by (simp add: w' addPendingVote_Inr [OF a])
  show "flushTimer w' = Some (clock w + 5000)"
    by (simp add: w' scheduleFlush_def c timerDelay_small)
  show "requests w' = requests w"
    by (simp add: w' unchangedD [OF cache_frame(15) [OF http_idb_indep(3)] a])
  show "isFlushing w' = isFlushing w"
    by (simp add: w' unchangedD [OF cache_frame(15) [OF queue_indep(1)] a])
  show "clock w' = clock w" by (simp add: w' c)
qed

lemma enqueueVote_up: "no_idb_faults e \<Longrightarrow> resolves db_up (enqueueVote e vid cat)"
  unfolding enqueueVote_def
  by (intro resolves_bindE resolves_getE resolves_modE cache_up; simp add: db_up_def db_ok_def)

text \<open>
  Queueing a vote and the flush timer. When storage works, queueing resolves; the queue
  then holds this vote for the video, with the time, in place of any earlier one, and every
  other vote as before; one flush is due in five seconds, however many were due before. When
  that timer fires while the browser is offline nothing is sent and it is due again in 30
  seconds.
\<close>

theorem enqueue_schedules_flush:
  assumes "db_up w" and "no_idb_faults e"
  shows "\<exists>w'. enqueueVote e vid cat w = (Inr (), w') \<and>
     store_get vote_key (pendingVotesStore (data w')) =
       (store_get vote_key (pendingVotesStore (data w)))
         (vid \<mapsto> \<lparr>PendingVote.videoId = vid, PendingVote.category = cat, timestamp = clock w\<rparr>) \<and>
     flushTimer w' = Some (clock w + 5000) \<and>
     (\<not> onLine v \<longrightarrow> onFlushTimer e v = (Inr (), v\<lparr>flushTimer := Some (clock v + 30000)\<rparr>))"
proof -
  obtain u w' where run: "enqueueVote e vid cat w = (Inr u, w')"
    using resolvesD [OF enqueueVote_up [OF assms(2)] assms(1)] by blast
  have "\<not> onLine v \<longrightarrow> onFlushTimer e v = (Inr (), v\<lparr>flushTimer := Some (clock v + 30000)\<rparr>)"
    by (simp add: onFlushTimer_def eff isOnline_def scheduleFlush_def FLUSH_RETRY_DELAY_MS_def timerDelay_small)
  with enqueueVote_Inr(1,2) [OF run] run db_ok_stores(3) [OF db_up_ok [OF assms(1)]]
  show ?thesis by (simp add: store_get_put)
qed

theorem enqueue_schedules_flush_witness:
  "\<exists>w'. enqueueVote (sample_queue_env (ErrorBody None) 500) ''v1'' ''fully_ai'' (sample_queue []) = (Inr (), w') \<and>
     flushTimer w' = Some 5000"
  using enqueue_schedules_flush [OF sample_queue_up, of "[]" "sample_queue_env (ErrorBody None) 500" "''v1''" "''fully_ai''"]
  by (auto simp: store_ok_def)

section \<open>Interleaving\<close>

text \<open>
  Where a flush call stands: it awaits the pending votes, the user id, is about to treat the
  next vote of its list, or has had a vote accepted and is about to remove it.
\<close>

datatype flush_pc =
    Reading
  | Identifying "PendingVote list"
  | Looping string int "PendingVote list" nat
  | Removing string int PendingVote "PendingVote list" nat

definition finishFlush :: "bool \<Rightarrow> 'w queue_scheme \<Rightarrow> flush_pc option \<times> 'w queue_scheme" where
  "finishFlush anyFailed w =
     (None, (if anyFailed then scheduleFlush FLUSH_RETRY_DELAY_MS w else w)\<lparr>isFlushing := False\<rparr>)"

text \<open>The code from one await to the next; None when the call has returned.\<close>

fun flush_next :: "'e queue_env_scheme \<Rightarrow> flush_pc \<Rightarrow> 'w queue_scheme \<Rightarrow> flush_pc option \<times> 'w queue_scheme" where
  "flush_next e Reading w =
     (case getPendingVotes e w of
        (Inl _, w') \<Rightarrow> finishFlush False w'
      | (Inr pending, w') \<Rightarrow> if pending = [] then finishFlush False w' else (Some (Identifying pending), w'))"
| "flush_next e (Identifying pending) w =
     (case getPublicUserId e w of
        (Inl _, w') \<Rightarrow> finishFlush False w'
      | (Inr uid, w') \<Rightarrow> (Some (Looping uid (clock w') pending 0), w'))"
| "flush_next e (Looping uid now [] n) w = finishFlush False w"
| "flush_next e (Looping uid now (vote # rest) n) w =
     (if expired now vote
      then (case removePendingVote e (PendingVote.videoId vote) w of
              (Inl _, w') \<Rightarrow> finishFlush False w'
            | (Inr _, w') \<Rightarrow> (Some (Looping uid now rest n), w'))
      else (case submitVote e (voteRequest e uid vote) w of
              (Inl _, w') \<Rightarrow> finishFlush True w'
            | (Inr _, w') \<Rightarrow> (Some (Removing uid now vote rest n), w')))"
| "flush_next e (Removing uid now vote rest n) w =
     (case removePendingVote e (PendingVote.videoId vote) w of
        (Inl _, w') \<Rightarrow> finishFlush True w'
      | (Inr _, w') \<Rightarrow> (Some (Looping uid now rest (Suc n)), w'))"

text \<open>
  Any interleaving of flush calls (from the timer, the \<open>online\<close> event and the message handler)
  with votes being queued, time passing and the connection coming and going.
\<close>

inductive q_step :: "'e queue_env_scheme \<Rightarrow> flush_pc list \<times> 'w queue_scheme \<Rightarrow> flush_pc list \<times> 'w queue_scheme \<Rightarrow> bool"
  for e :: "'e queue_env_scheme" where
  call: "\<not> isFlushing w \<Longrightarrow> q_step e (ts, w) (ts @ [Reading], w\<lparr>isFlushing := True\<rparr>)"
| busy: "isFlushing w \<Longrightarrow> q_step e (ts, w) (ts, w)"
| run: "flush_next e pc w = (Some pc', w') \<Longrightarrow> q_step e (as @ pc # bs, w) (as @ pc' # bs, w')"
| finish: "flush_next e pc w = (None, w') \<Longrightarrow> q_step e (as @ pc # bs, w) (as @ bs, w')"
| enqueue: "enqueueVote e vid cat w = (r, w') \<Longrightarrow> q_step e (ts, w) (ts, w')"
| wait: "0 \<le> d \<Longrightarrow> q_step e (ts, w) (ts, w\<lparr>clock := clock w + d\<rparr>)"
| connection: "q_step e (ts, w) (ts, w\<lparr>onLine := b\<rparr>)"

inductive_cases q_stepE: "q_step e c c'"

lemma submitVote_isFlushing: "submitVote e v w = (r, w') \<Longrightarrow> isFlushing w' = isFlushing w"
  by (rule unchangedD [OF api_frame(2) [OF queue_indep(3)]])

lemma removePendingVote_isFlushing: "removePendingVote e k w = (r, w') \<Longrightarrow> isFlushing w' = isFlushing w"
  by (rule unchangedD [OF cache_frame(16) [OF queue_indep(1)]])

lemma userId_isFlushing: "getPublicUserId e w = (r, w') \<Longrightarrow> isFlushing w' = isFlushing w"
  by (rule unchangedD [OF getPublicUserId_frame [OF queue_indep(2)]])

lemma getPendingVotes_isFlushing: "getPendingVotes e w = (r, w') \<Longrightarrow> isFlushing w' = isFlushing w"
  by (rule unchangedD [OF cache_frame(5) [OF queue_indep(1)]])

lemma enqueueVote_isFlushing: "enqueueVote e vid cat w = (r, w') \<Longrightarrow> isFlushing w' = isFlushing w"
proof -
  have "unchanged isFlushing (enqueueVote e vid cat)"
    unfolding enqueueVote_def by (intro frame queue_indep unchanged_modE) simp
  then show "enqueueVote e vid cat w = (r, w') \<Longrightarrow> isFlushing w' = isFlushing w" by (rule unchangedD)
qed

lemma flush_next_isFlushing:
  assumes "flush_next e pc w = (p, w')"
  shows "isFlushing w' = (p \<noteq> None \<and> isFlushing w)"
  using assms
  by (induction e pc w rule: flush_next.induct)
    (auto simp: finishFlush_def split: prod.splits sum.splits if_splits
      dest: getPendingVotes_isFlushing userId_isFlushing removePendingVote_isFlushing submitVote_isFlushing)

text \<open>At most one flush is active, and the flag says whether one is.\<close>

definition one_flush :: "flush_pc list \<times> 'w queue_scheme \<Rightarrow> bool" where
  "one_flush c \<longleftrightarrow> length (fst c) = (if isFlushing (snd c) then 1 else 0)"

lemma q_step_one_flush: "q_step e c c' \<Longrightarrow> one_flush c \<Longrightarrow> one_flush c'"
proof (induction rule: q_step.induct)
  case (run pc w pc' w' as bs)
  with flush_next_isFlushing [OF run(1)] show ?case by (simp add: one_flush_def split: if_splits)
next
  case (finish pc w w' as bs)
  with flush_next_isFlushing [OF finish(1)] show ?case by (auto simp: one_flush_def split: if_splits)
next
  case (enqueue vid cat w r w' ts)
  with enqueueVote_isFlushing [OF enqueue(1)] show ?case by (simp add: one_flush_def)
qed (simp_all add: one_flush_def)

interpretation queue_system: step_system "q_step e" one_flush
  by unfold_locales (rule q_step_one_flush)

text \<open>How many awaits a flush call has left at most, once it has read its list.\<close>

fun flush_left :: "flush_pc \<Rightarrow> nat" where
  "flush_left Reading = 0"
| "flush_left (Identifying vs) = 2 * length vs + 2"
| "flush_left (Looping uid now vs n) = 2 * length vs + 1"
| "flush_left (Removing uid now v vs n) = 2 * length vs + 2"

lemma flush_next_left:
  "flush_next e pc w = (Some pc', w') \<Longrightarrow> pc \<noteq> Reading \<Longrightarrow> flush_left pc' < flush_left pc \<and> pc' \<noteq> Reading"
  by (induction e pc w rule: flush_next.induct)
    (auto simp: finishFlush_def split: prod.splits sum.splits if_splits)

text \<open>Taking the steps of one call alone, until it returns.\<close>

fun flush_steps :: "nat \<Rightarrow> 'e queue_env_scheme \<Rightarrow> flush_pc option \<times> 'w queue_scheme \<Rightarrow> flush_pc option \<times> 'w queue_scheme" where
  "flush_steps 0 e c = c"
| "flush_steps (Suc n) e (None, w) = (None, w)"
| "flush_steps (Suc n) e (Some pc, w) = flush_steps n e (flush_next e pc w)"

lemma flush_steps_None [simp]: "flush_steps n e (None, w) = (None, w)"
  by (cases n) simp_all

definition finished :: "flush_pc option \<times> 'w queue_scheme \<Rightarrow> bool" where
  "finished c \<longleftrightarrow> fst c = None"

lemma finished_finish [simp]: "finished (finishFlush b w)"
  by (simp add: finished_def finishFlush_def)

lemma flush_steps_loop:
  "2 * length vs + 1 \<le> k \<Longrightarrow>
   flush_steps k e (Some (Looping uid now vs n), w) =
     (case flushLoop e uid now n vs w of
        (res, w') \<Rightarrow> finishFlush (\<exists>r. res = Inr r \<and> 0 < failed r) w')"
proof (induction vs arbitrary: k n w)
  case Nil
  then obtain k' where "k = Suc k'" by (cases k) simp_all
  then show ?case by (simp add: finishFlush_def retE_def)
next
  case (Cons v vs)
  define j where "j = k - 2"
  have k: "k = Suc (Suc j)" "2 * length vs + 1 \<le> j" using Cons.prems by (simp_all add: j_def)
  show ?case
  proof (cases "expired now v")
    case True
    then show ?thesis
      using k Cons.IH [of "Suc j"]
      by (auto simp: eff finishFlush_def split: prod.splits sum.splits)
  next
    case False
    then show ?thesis
      using k Cons.IH [of j]
      by (auto simp: eff finishFlush_def trySend_def split: prod.splits sum.splits)
  qed
qed

text \<open>
  C11: flushes do not overlap. However calls, timers, queued votes, the passing of time and the
  connection interleave, at most one flush is between its awaits, the flag \<open>isFlushing\<close> says
  whether one is, and every flush that has read the queue ends: each await brings it strictly
  closer to its end.
\<close>

theorem flushes_exclusive:
  assumes "\<not> isFlushing w0" and "rtranclp (q_step e) ([], w0) (ts, w)"
  shows "length ts \<le> 1 \<and> (isFlushing w \<longleftrightarrow> ts \<noteq> []) \<and>
     (\<forall>pc \<in> set ts. \<forall>v pc' v'. pc \<noteq> Reading \<and> flush_next e pc v = (Some pc', v') \<longrightarrow> flush_left pc' < flush_left pc)"
proof -
  have "one_flush ([], w0)" using assms(1) by (simp add: one_flush_def)
  from queue_system.steps_ok [OF assms(2) this] have "length ts = (if isFlushing w then 1 else 0)"
    by (simp add: one_flush_def)
  then have "length ts \<le> 1 \<and> (isFlushing w \<longleftrightarrow> ts \<noteq> [])" by (cases "isFlushing w") auto
  then show ?thesis using flush_next_left by blast
qed

theorem flushes_exclusive_witness:
  "\<exists>ts w. rtranclp (q_step (sample_queue_env (ErrorBody None) 400)) ([], sample_queue []) (ts, w) \<and> length ts = 1"
proof -
  let ?e = "sample_queue_env (ErrorBody None) 400" and ?w = "sample_queue []"
  have "q_step ?e ([], ?w) ([] @ [Reading], ?w\<lparr>isFlushing := True\<rparr>)" by (rule call) simp
  then have r: "rtranclp (q_step ?e) ([], ?w) ([Reading], ?w\<lparr>isFlushing := True\<rparr>)" by simp
  from flushes_exclusive [OF _ r] r show ?thesis by auto
qed



text \<open>
  C35: a vote can be lost. While the flush awaits the server's answer to a vote, the user
  changes the vote for the same video and the change is queued (its own submission having
  failed); the flush then removes the queued vote by its video id. The changed vote is in the
  queue after the second step, gone after the third, and was never sent.
\<close>

theorem queued_vote_lost:
  fixes w :: "'w queue_scheme"
  assumes "\<not> expired now v" and "submitVote e (voteRequest e uid v) w = (Inr b, w1)"
    and "db_up w" and "no_idb_faults e"
  shows "\<exists>w2 w3. q_step e ([Looping uid now (v # vs) n], w) ([Removing uid now v vs n], w1) \<and>
     q_step e ([Removing uid now v vs n], w1) ([Removing uid now v vs n], w2) \<and>
     q_step e ([Removing uid now v vs n], w2) ([Looping uid now vs (Suc n)], w3) \<and>
     store_get vote_key (pendingVotesStore (data w2)) (vote_key v) =
       Some \<lparr>PendingVote.videoId = vote_key v, PendingVote.category = changed, timestamp = clock w1\<rparr> \<and>
     store_get vote_key (pendingVotesStore (data w3)) (vote_key v) = None \<and> requests w3 = requests w1"
proof -
  have up1: "db_up w1" using unchangedD [OF api_frame(2) [OF base_http_indep(8)] assms(2)] assms(3) by simp
  obtain w2 where en: "enqueueVote e (vote_key v) changed w1 = (Inr (), w2)" and up2: "db_up w2"
    using resolvesD [OF enqueueVote_up [OF assms(4)] up1] by fastforce
  obtain w3 where rm: "removePendingVote e (vote_key v) w2 = (Inr (), w3)"
    using resolvesD [OF cache_up(16) [OF assms(4)] up2] by fastforce
  have "q_step e ([] @ Looping uid now (v # vs) n # [], w) ([] @ Removing uid now v vs n # [], w1)"
    by (rule run) (simp add: assms(1,2))
  moreover have "q_step e ([Removing uid now v vs n], w1) ([Removing uid now v vs n], w2)"
    by (rule enqueue [OF en])
  moreover have "q_step e ([] @ Removing uid now v vs n # [], w2) ([] @ Looping uid now vs (Suc n) # [], w3)"
    by (rule run) (simp add: rm)
  ultimately show ?thesis
    using enqueueVote_Inr(1,3) [OF en] removePendingVote_Inr [OF rm] removePendingVote_requests [OF rm]
      db_ok_stores(3) [OF db_up_ok [OF up1]]
    by (intro exI [of _ w2] exI [of _ w3]) (simp add: store_get_put store_get_delete)
qed

theorem queued_vote_lost_witness:
  "\<exists>w1 w2 w3. q_step (sample_queue_env (VoteBody \<lparr>success = True, newScore = 0, userTrust = 0\<rparr>) 200)
       ([Removing ''u'' 0 (sample_vote ''v1'' ''fully_ai'') [] 0], w1) ([Removing ''u'' 0 (sample_vote ''v1'' ''fully_ai'') [] 0], w2) \<and>
     store_get vote_key (pendingVotesStore (data w2)) ''v1'' =
       Some \<lparr>PendingVote.videoId = ''v1'', PendingVote.category = ''not_ai'', timestamp = clock (w1 :: queue)\<rparr> \<and>
     store_get vote_key (pendingVotesStore (data (w3 :: queue))) ''v1'' = None"
proof -
  let ?b = "VoteBody \<lparr>success = True, newScore = 0, userTrust = 0\<rparr>"
  let ?e = "sample_queue_env ?b 200" and ?v = "sample_vote ''v1'' ''fully_ai''"
  obtain w1 where s: "submitVote ?e (voteRequest ?e ''u'' ?v) (sample_queue [?v]) = (Inr ?b, w1)"
    using constant_server(3) [of ?e ?b] by auto
  have "store_ok vote_key [?v]" by (simp add: store_ok_def)
  from queued_vote_lost [OF _ s sample_queue_up [OF this], of 0 "[]" 0 "''not_ai''"]
  show ?thesis
    by (simp add: expired_def sample_vote_def MAX_PENDING_AGE_MS_def) blast
qed

end
