(* ===== verification/Background.thy ===== *)
theory Background
  imports Offline_Queue
begin

text \<open>
  \<open>background/background.ts\<close>: the message hub of the worker. A message is a value of
  \<open>message\<close>, its payload optional (destructuring a missing payload is a TypeError); the answer
  is a \<open>MessageResponse\<close>. \<open>handleMessage\<close> is one effect per case, \<open>onMessage\<close> the listener
  with its sender checks, \<open>initialize\<close> the code that runs when the worker starts.

  The lookups of one message run concurrently in the code. The model runs them in the order of
  the prefix map, each to its end; a failure of one does not stop the others, as in the code.
\<close>

section \<open>Messages, state, environment\<close>

datatype message =
    GET_USER_ID
  | GET_USER_INFO
  | LOOKUP_VIDEOS "string list option"
  | SUBMIT_VOTE "(string \<times> string) option"
  | DELETE_VOTE "string option"
  | GET_STATUS
  | CHECK_VIDEOS "string list option"
  | SYNC_DELTA
  | SYNC_FULL
  | GET_SYNC_STATUS
  | FLUSH_PENDING_VOTES
  | OPEN_POPUP
  | OtherMessage string

datatype response_data =
    UserIdData string
  | BodyData resp_body
  | CheckData "CachedVideo list"
  | LookupData "VideoResult list"
  | QueuedData
  | DeltaData DeltaSyncResult
  | FullData FullSyncResult
  | SyncStatusData SyncStatus
  | FlushData FlushResult
  | StatusData string bool nat SyncStatus

record MessageResponse =
  success :: bool
  respData :: "response_data option"
  respError :: "string option"

record MessageSender =
  senderId :: "string option"
  senderTab :: bool

record background = queue +
  cachedPublicUserId :: "string option"

record background_env = queue_env +
  runtimeId :: string

definition okData :: "response_data \<Rightarrow> MessageResponse" where
  "okData d = \<lparr>success = True, respData = Some d, respError = None\<rparr>"

definition okEmpty :: MessageResponse where
  "okEmpty = \<lparr>success = True, respData = None, respError = None\<rparr>"

definition failure :: "string \<Rightarrow> MessageResponse" where
  "failure msg = \<lparr>success = False, respData = None, respError = Some msg\<rparr>"

section \<open>The cached user id\<close>

definition ensurePublicUserId :: "'e ident_env_scheme \<Rightarrow> ('w background_scheme, string) eff" where
  "ensurePublicUserId e =
     bindE (getE cachedPublicUserId) (\<lambda>cached.
       if cached = None \<or> cached = Some ''''
       then bindE (getPublicUserId e) (\<lambda>uid.
              bindE (modE (\<lambda>w. w\<lparr>cachedPublicUserId := Some uid\<rparr>)) (\<lambda>_. retE uid))
       else retE (the cached))"

section \<open>Lookups by hash prefix\<close>

text \<open>The JavaScript Map from prefixes to video ids, in insertion order.\<close>

fun pushPrefix :: "string \<Rightarrow> string \<Rightarrow> (string \<times> string list) list \<Rightarrow> (string \<times> string list) list" where
  "pushPrefix p vid [] = [(p, [vid])]"
| "pushPrefix p vid ((q, vids) # m) =
     (if q = p then (q, vids @ [vid]) # m else (q, vids) # pushPrefix p vid m)"

definition prefixMap :: "'e ident_env_scheme \<Rightarrow> string list \<Rightarrow> (string \<times> string list) list" where
  "prefixMap e ids = foldl (\<lambda>m vid. pushPrefix (hashVideoId e vid 4) vid m) [] ids"

text \<open>
  The loop over one lookup's videos: a requested one is added to the results, then cached; a
  failing write ends the loop (the error is caught by the lookup).
\<close>

fun fileVideos :: "'e idb_env_scheme \<Rightarrow> string list \<Rightarrow> VideoResult list \<Rightarrow> VideoResult list \<Rightarrow>
    ('w idb_scheme, VideoResult list) eff" where
  "fileVideos e req results [] = retE results"
| "fileVideos e req results (v # vs) =
     (if VideoResult.videoId v \<in> set req
      then bindE (catchE (bindE (putVideo e (cachedOfResult v)) (\<lambda>_. retE True)) (\<lambda>err. retE False)) (\<lambda>ok.
             if ok then fileVideos e req (results @ [v]) vs else retE (results @ [v]))
      else fileVideos e req results vs)"

text \<open>A failed lookup is logged and leaves its ids without an answer.\<close>

definition tryLookup :: "'e api_env_scheme \<Rightarrow> string \<Rightarrow> ('w http_scheme, VideoResult list option) eff" where
  "tryLookup e p =
     catchE (bindE (lookupVideosByPrefix e p) (\<lambda>body. bindE (as_videos body) (\<lambda>vs. retE (Some vs))))
       (\<lambda>err. retE None)"

definition checkLookup :: "'e api_env_scheme \<Rightarrow> VideoResult list \<Rightarrow> string \<times> string list \<Rightarrow>
    ('w http_scheme, VideoResult list) eff" where
  "checkLookup e results entry =
     bindE (tryLookup e (fst entry)) (\<lambda>answer.
       case answer of None \<Rightarrow> retE results | Some vs \<Rightarrow> fileVideos e (snd entry) results vs)"

definition checkVideos :: "'e api_env_scheme \<Rightarrow> string list \<Rightarrow> ('w http_scheme, CachedVideo list) eff" where
  "checkVideos e ids =
     bindE (getVideos e ids) (\<lambda>cached.
     let misses = filter (\<lambda>k. k \<notin> video_key ` set cached) ids in
     bindE (if misses \<noteq> [] then foldE (checkLookup e) [] (prefixMap e misses) else retE []) (\<lambda>apiResults.
       retE (cached @ map cachedOfResult apiResults)))"

text \<open>
  One lookup of \<open>LOOKUP_VIDEOS\<close>: \<open>Promise.all\<close> rejects with the error of a failed lookup, the
  others run on. The accumulator holds the results and the first error.
\<close>

definition plainLookup :: "'e api_env_scheme \<Rightarrow> VideoResult list \<times> js_error option \<Rightarrow> string \<times> string list \<Rightarrow>
    ('w http_scheme, VideoResult list \<times> js_error option) eff" where
  "plainLookup e acc entry =
     catchE (bindE (lookupVideosByPrefix e (fst entry)) (\<lambda>body.
             bindE (as_videos body) (\<lambda>vs.
               retE (fst acc @ filter (\<lambda>v. VideoResult.videoId v \<in> set (snd entry)) vs, snd acc))))
       (\<lambda>err. retE (fst acc, if snd acc = None then Some err else snd acc))"

definition lookupVideos :: "'e api_env_scheme \<Rightarrow> string list \<Rightarrow> ('w http_scheme, VideoResult list) eff" where
  "lookupVideos e ids =
     bindE (foldE (plainLookup e) ([], None) (prefixMap e ids)) (\<lambda>(results, err).
       case err of Some x \<Rightarrow> throwE x | None \<Rightarrow> retE results)"

section \<open>The message handler\<close>

definition payloadOf :: "'a option \<Rightarrow> ('w, 'a) eff" where
  "payloadOf p = (case p of None \<Rightarrow> throwE (Error ''TypeError'') | Some a \<Rightarrow> retE a)"

definition submitOrQueue :: "'e queue_env_scheme \<Rightarrow> string \<Rightarrow> string \<Rightarrow> ('w background_scheme, MessageResponse) eff" where
  "submitOrQueue e vid cat =
     catchE
       (bindE (ensurePublicUserId e) (\<lambda>uid.
        bindE (submitVote e \<lparr>VoteRequest.videoId = vid, VoteRequest.category = cat, VoteRequest.userId = uid,
            VoteRequest.userAgent = ''RealTube/0.1.0 '' @ navigatorUserAgent e\<rparr>) (\<lambda>result.
          retE (okData (BodyData result)))))
       (\<lambda>err. bindE (enqueueVote e vid cat) (\<lambda>_. retE (okData QueuedData)))"

definition handleMessage :: "'e queue_env_scheme \<Rightarrow> message \<Rightarrow> ('w background_scheme, MessageResponse) eff" where
  "handleMessage e msg =
     (case msg of
        GET_USER_ID \<Rightarrow> bindE (ensurePublicUserId e) (\<lambda>uid. retE (okData (UserIdData uid)))
      | GET_USER_INFO \<Rightarrow>
          bindE (ensurePublicUserId e) (\<lambda>uid.
          bindE (getUserInfo e uid) (\<lambda>info. retE (okData (BodyData info))))
      | CHECK_VIDEOS p \<Rightarrow>
          bindE (payloadOf p) (\<lambda>ids. bindE (checkVideos e ids) (\<lambda>vs. retE (okData (CheckData vs))))
      | LOOKUP_VIDEOS p \<Rightarrow>
          bindE (payloadOf p) (\<lambda>ids. bindE (lookupVideos e ids) (\<lambda>vs. retE (okData (LookupData vs))))
      | SUBMIT_VOTE p \<Rightarrow> bindE (payloadOf p) (\<lambda>(vid, cat). submitOrQueue e vid cat)
      | DELETE_VOTE p \<Rightarrow>
          bindE (payloadOf p) (\<lambda>vid.
          bindE (ensurePublicUserId e) (\<lambda>uid.
          bindE (deleteVote e vid uid) (\<lambda>_. retE okEmpty)))
      | SYNC_DELTA \<Rightarrow> bindE (performDeltaSync e) (\<lambda>r. retE (okData (DeltaData r)))
      | SYNC_FULL \<Rightarrow> bindE (performFullSync e) (\<lambda>r. retE (okData (FullData r)))
      | GET_SYNC_STATUS \<Rightarrow> bindE (getSyncStatus e) (\<lambda>s. retE (okData (SyncStatusData s)))
      | FLUSH_PENDING_VOTES \<Rightarrow> bindE (flushPendingVotes e) (\<lambda>r. retE (okData (FlushData r)))
      | OPEN_POPUP \<Rightarrow> retE okEmpty
      | GET_STATUS \<Rightarrow>
          bindE (getLocalId e) (\<lambda>lid.
          bindE (getSyncStatus e) (\<lambda>s.
          bindE (getPendingVoteCount e) (\<lambda>n.
            retE (okData (StatusData ''0.1.0'' (lid \<noteq> '''') n s)))))
      | OtherMessage t \<Rightarrow> retE (failure (''Unknown message type: '' @ t)))"

text \<open>The listener: what \<open>sendResponse\<close> is called with, and the state then.\<close>

definition onMessage :: "'e background_env_scheme \<Rightarrow> message \<Rightarrow> MessageSender \<Rightarrow> 'w background_scheme \<Rightarrow>
    MessageResponse \<times> 'w background_scheme" where
  "onMessage e msg sender w =
     (if senderId sender \<noteq> Some (runtimeId e) then (failure ''Unauthorized sender'', w)
      else if (msg = GET_USER_ID \<or> msg = GET_USER_INFO) \<and> senderTab sender
      then (failure ''Not available from content scripts'', w)
      else (case handleMessage e msg w of
              (Inr r, w') \<Rightarrow> (r, w')
            | (Inl err, w') \<Rightarrow> (failure (error_text err), w')))"

definition initialize :: "'e ident_env_scheme \<Rightarrow> ('w background_scheme, unit) eff" where
  "initialize e =
     bindE (ensurePublicUserId e) (\<lambda>uid.
     bindE (modE startSyncSchedule) (\<lambda>_. modE startOfflineQueueListener))"

section \<open>The prefix map\<close>

lemma pushPrefix_map_of:
  "map_of (pushPrefix p vid m) = (map_of m)(p \<mapsto> (case map_of m p of None \<Rightarrow> [] | Some l \<Rightarrow> l) @ [vid])"
  by (induction p vid m rule: pushPrefix.induct) (auto simp: fun_eq_iff)

lemma pushPrefix_keys: "set (map fst (pushPrefix p vid m)) = insert p (set (map fst m))"
  by (induction p vid m rule: pushPrefix.induct) auto

lemma pushPrefix_distinct: "distinct (map fst m) \<Longrightarrow> distinct (map fst (pushPrefix p vid m))"
proof (induction p vid m rule: pushPrefix.induct)
  case (2 p vid q vids m)
  with pushPrefix_keys [of p vid m] show ?case by auto
qed simp

lemma prefixMap_snoc: "prefixMap e (ids @ [v]) = pushPrefix (hashVideoId e v 4) v (prefixMap e ids)"
  by (simp add: prefixMap_def)

lemma prefixMap_distinct: "distinct (map fst (prefixMap e ids))"
  by (induction ids rule: rev_induct) (simp_all add: prefixMap_snoc pushPrefix_distinct prefixMap_def [of e "[]"])

lemma prefixMap_keys: "set (map fst (prefixMap e ids)) = (\<lambda>v. hashVideoId e v 4) ` set ids"
  by (induction ids rule: rev_induct) (simp_all only: prefixMap_snoc pushPrefix_keys, simp_all add: prefixMap_def)

text \<open>Each prefix has exactly the ids with that prefix, in order.\<close>

lemma prefixMap_map_of:
  "map_of (prefixMap e ids) p = (let vids = filter (\<lambda>v. hashVideoId e v 4 = p) ids in if vids = [] then None else Some vids)"
proof (induction ids arbitrary: p rule: rev_induct)
  case Nil
  show ?case by (simp add: prefixMap_def)
next
  case (snoc v ids)
  then show ?case by (auto simp: prefixMap_snoc pushPrefix_map_of Let_def split: option.splits)
qed

lemma prefixMap_entry:
  "(p, vids) \<in> set (prefixMap e ids) \<Longrightarrow> vids = filter (\<lambda>v. hashVideoId e v 4 = p) ids"
  using map_of_is_SomeI [OF prefixMap_distinct, of p vids e ids]
  by (simp add: prefixMap_map_of Let_def split: if_splits)

section \<open>Frames of the handler\<close>

definition hub_indep :: "('w http_scheme \<Rightarrow> 'f) \<Rightarrow> bool" where
  "hub_indep f \<longleftrightarrow> idb_indep f \<and> ident_indep f \<and> http_indep f"

lemma fileVideos_frame: "idb_indep f \<Longrightarrow> unchanged f (fileVideos e req results vs)"
  by (induction vs arbitrary: results) (auto intro!: frame)

lemma checkLookup_frame: "idb_indep f \<Longrightarrow> http_indep f \<Longrightarrow> unchanged f (checkLookup e results entry)"
  unfolding checkLookup_def tryLookup_def by (intro frame fileVideos_frame)

lemma plainLookup_frame: "http_indep f \<Longrightarrow> unchanged f (plainLookup e acc entry)"
  unfolding plainLookup_def by (intro frame)

lemma lookupVideos_frame: "http_indep f \<Longrightarrow> unchanged f (lookupVideos e ids)"
  unfolding lookupVideos_def by (intro frame plainLookup_frame)

lemma checkVideos_frame: "idb_indep f \<Longrightarrow> http_indep f \<Longrightarrow> unchanged f (checkVideos e ids)"
  unfolding checkVideos_def Let_def by (intro frame checkLookup_frame)

text \<open>Looking videos up touches the videos store and the request log only.\<close>

lemma data_checkVideos_other:
  "unchanged (\<lambda>w. pendingVotesStore (data w)) (putVideo e v)" "unchanged (\<lambda>w. metaStore (data w)) (putVideo e v)"
  unfolding putVideo_def unchanged_iff_preserves by (intro allI write_tx_keeps; simp)+

section \<open>The requests of a lookup\<close>

lemma lookup_log:
  assumes "lookupVideosByPrefix e p w = (res, w')"
  shows "\<exists>u k. requests w' = requests w @ replicate (Suc k) (getReq (u @ ''/api/videos/'' @ encodeURIComponent p))"
proof -
  obtain u w1 where c: "getConfig w = (Inr u, w1)"
    by (cases "getConfig w") (auto simp: getConfig_def eff split: if_splits)
  have r1: "requests w1 = requests w" using c by (auto simp: getConfig_def eff split: if_splits)
  let ?req = "getReq (u @ ''/api/videos/'' @ encodeURIComponent p)"
  let ?k = "retryCount e w1 ?req MAX_RETRIES"
  have "w' = afterRetries e w1 ?req 0 ?k"
    using assms c unfolding lookupVideosByPrefix_def json_def
    by (auto simp: fetchWithRetry_eq bindE_def throwE_def retE_def split: sum.splits if_splits option.splits)
  then have "requests w' = requests w @ replicate (Suc ?k) ?req"
    by (simp add: afterRetries_def r1)
  then show ?thesis by blast
qed

text \<open>Every request since \<open>old\<close> asks for the hash prefix of one of the ids, and carries no body.\<close>

definition prefix_request :: "'e ident_env_scheme \<Rightarrow> string list \<Rightarrow> request \<Rightarrow> bool" where
  "prefix_request e ids r \<longleftrightarrow> (\<exists>u. \<exists>v \<in> set ids.
     r = getReq (u @ ''/api/videos/'' @ encodeURIComponent (hashVideoId e v 4)))"

definition only_prefixes :: "'e ident_env_scheme \<Rightarrow> string list \<Rightarrow> request list \<Rightarrow> 'w http_scheme \<Rightarrow> bool" where
  "only_prefixes e ids old w \<longleftrightarrow> (\<exists>rs. requests w = old @ rs \<and> (\<forall>r \<in> set rs. prefix_request e ids r))"

lemma prefix_requestD:
  assumes "prefix_request e ids r"
  shows "method r = GET \<and> reqBody r = None \<and>
    (\<exists>u. \<exists>v \<in> set ids. url r = u @ ''/api/videos/'' @ encodeURIComponent (hashVideoId e v 4))"
proof -
  obtain u v where "v \<in> set ids" "r = getReq (u @ ''/api/videos/'' @ encodeURIComponent (hashVideoId e v 4))"
    using assms unfolding prefix_request_def by blast
  then show ?thesis
    by (intro conjI exI [of _ u] bexI [of _ v]) (simp_all add: getReq_def)
qed

lemma only_prefixes_refl: "only_prefixes e ids (requests w) w"
  by (simp add: only_prefixes_def)

lemma only_prefixes_same: "unchanged requests m \<Longrightarrow> preserves (only_prefixes e ids old) m"
  by (simp add: unchanged_def preserves_def only_prefixes_def)

lemma lookup_only_prefixes:
  assumes "p \<in> (\<lambda>v. hashVideoId e v 4) ` set ids"
  shows "preserves (only_prefixes e ids old) (lookupVideosByPrefix e p :: ('w http_scheme, resp_body) eff)"
  unfolding preserves_def
proof (intro allI impI)
  fix w :: "'w http_scheme" assume I: "only_prefixes e ids old w"
  obtain r w' where run: "lookupVideosByPrefix e p w = (r, w')" by fastforce
  from lookup_log [OF run] obtain u k where
    "requests w' = requests w @ replicate (Suc k) (getReq (u @ ''/api/videos/'' @ encodeURIComponent p))" by blast
  then have "only_prefixes e ids old w'"
    using I assms by (fastforce simp: only_prefixes_def prefix_request_def)
  with run show "only_prefixes e ids old (snd (lookupVideosByPrefix e p w))" by simp
qed

section \<open>What the lookups of \<open>CHECK_VIDEOS\<close> return\<close>

lemma putVideo_Inr: "putVideo e v w = (Inr u, w') \<Longrightarrow>
    data w' = (data w)\<lparr>videosStore := store_put video_key v (videosStore (data w))\<rparr>"
  unfolding putVideo_def by (rule write_tx_Inr)

lemma fileVideos_Inr:
  "fileVideos e req results vs w = (res, w') \<Longrightarrow>
     \<exists>new. res = Inr (results @ new) \<and> VideoResult.videoId ` set new \<subseteq> set req"
proof (induction vs arbitrary: results w)
  case (Cons v vs)
  show ?case
  proof (cases "VideoResult.videoId v \<in> set req")
    case True
    obtain q w1 where p: "putVideo e (cachedOfResult v) w = (q, w1)" by fastforce
    show ?thesis
    proof (cases q)
      case (Inl x)
      with Cons.prems True p show ?thesis by (auto simp: eff)
    next
      case (Inr u)
      with Cons.prems True p have "fileVideos e req (results @ [v]) vs w1 = (res, w')" by (simp add: eff)
      from Cons.IH [OF this] obtain new where "res = Inr (results @ v # new)" "VideoResult.videoId ` set new \<subseteq> set req"
        by auto
      with True show ?thesis by (intro exI [of _ "v # new"]) simp
    qed
  next
    case False
    with Cons show ?thesis by simp
  qed
qed simp

lemma fileVideos_up:
  assumes "no_idb_faults e" "db_up w"
  shows "\<exists>new w'. fileVideos e req results vs w = (Inr (results @ new), w') \<and> db_up w' \<and>
     data w' = (data w)\<lparr>videosStore := fold (store_put video_key) (map cachedOfResult new) (videosStore (data w))\<rparr>"
  using assms(2)
proof (induction vs arbitrary: results w)
  case Nil
  then show ?case by (intro exI [of _ "[]"]) simp
next
  case (Cons v vs)
  show ?case
  proof (cases "VideoResult.videoId v \<in> set req")
    case True
    obtain w1 where p: "putVideo e (cachedOfResult v) w = (Inr (), w1)" "db_up w1"
      using resolvesD [OF cache_up(7) [OF assms(1)] Cons.prems] by fastforce
    obtain new w' where n: "fileVideos e req (results @ [v]) vs w1 = (Inr ((results @ [v]) @ new), w')" "db_up w'"
      "data w' = (data w1)\<lparr>videosStore := fold (store_put video_key) (map cachedOfResult new) (videosStore (data w1))\<rparr>"
      using Cons.IH [OF p(2), of "results @ [v]"] by blast
    with True p(1) putVideo_Inr [OF p(1)] show ?thesis
      by (intro exI [of _ "v # new"] exI [of _ w']) (simp add: eff)
  next
    case False
    with Cons show ?thesis by simp
  qed
qed

lemma fileVideos_requests: "unchanged requests (fileVideos e req results vs)"
  by (rule fileVideos_frame [OF http_idb_indep(3)])

lemma tryLookup_Inr: "\<exists>a w'. tryLookup e p w = (Inr a, w')"
  by (cases "tryLookup e p w"; cases "fst (tryLookup e p w)")
    (auto simp: tryLookup_def catchE_def retE_def split: sum.splits prod.splits)

lemma checkLookup_Inr:
  assumes "checkLookup e results entry w = (res, w')"
  shows "\<exists>new. res = Inr (results @ new) \<and> VideoResult.videoId ` set new \<subseteq> set (snd entry)"
proof -
  obtain a w1 where "tryLookup e (fst entry) w = (Inr a, w1)" using tryLookup_Inr by blast
  with assms have "(case a of None \<Rightarrow> retE results | Some vs \<Rightarrow> fileVideos e (snd entry) results vs) w1 = (res, w')"
    by (simp add: checkLookup_def bindE_def)
  then show ?thesis by (cases a) (auto dest: fileVideos_Inr)
qed

lemma tryLookup_keeps: "tryLookup e p w = (r, w') \<Longrightarrow> data w' = data w \<and> db_up w' = db_up w"
proof -
  have "unchanged data (tryLookup e p)" "unchanged db_up (tryLookup e p)"
    unfolding tryLookup_def by (intro frame base_http_indep)+
  then show "tryLookup e p w = (r, w') \<Longrightarrow> data w' = data w \<and> db_up w' = db_up w" by (blast dest: unchangedD)
qed

text \<open>The data with the results cached.\<close>

definition withVideos :: "VideoResult list \<Rightarrow> idb_data \<Rightarrow> idb_data" where
  "withVideos vs d = d\<lparr>videosStore := fold (store_put video_key) (map cachedOfResult vs) (videosStore d)\<rparr>"

lemma withVideos_append: "withVideos (xs @ ys) d = withVideos ys (withVideos xs d)"
  by (simp add: withVideos_def)

lemma checkLookup_up:
  fixes w :: "'w http_scheme"
  assumes "no_idb_faults e" "db_up w"
  shows "\<exists>new w'. checkLookup e results entry w = (Inr (results @ new), w') \<and> db_up w' \<and>
     data w' = withVideos new (data w)"
proof -
  obtain a w1 where m: "tryLookup e (fst entry) w = (Inr a, w1)" using tryLookup_Inr by blast
  have w1: "data w1 = data w" "db_up w1" using tryLookup_keeps [OF m] assms(2) by simp_all
  have "checkLookup e results entry w = (case a of None \<Rightarrow> retE results | Some vs \<Rightarrow> fileVideos e (snd entry) results vs) w1"
    using m by (simp add: checkLookup_def bindE_def)
  with w1 fileVideos_up [OF assms(1) w1(2)] show ?thesis
    by (cases a) (auto simp: withVideos_def intro!: exI [of _ "[]"])
qed

lemma checkLoop_Inr:
  "foldE (checkLookup e) results m w = (res, w') \<Longrightarrow>
     \<exists>new. res = Inr (results @ new) \<and> VideoResult.videoId ` set new \<subseteq> (\<Union>x \<in> set m. set (snd x))"
proof (induction m arbitrary: results w)
  case (Cons x m)
  obtain r w1 where c: "checkLookup e results x w = (r, w1)" by fastforce
  from checkLookup_Inr [OF c] obtain new where new: "r = Inr (results @ new)" "VideoResult.videoId ` set new \<subseteq> set (snd x)"
    by blast
  with Cons.prems c have "foldE (checkLookup e) (results @ new) m w1 = (res, w')" by (simp add: bindE_def)
  from Cons.IH [OF this] new(2) show ?case by force
qed simp

lemma checkLoop_up:
  assumes "no_idb_faults e" "db_up w"
  shows "\<exists>new w'. foldE (checkLookup e) results m w = (Inr (results @ new), w') \<and> db_up w' \<and> data w' = withVideos new (data w)"
  using assms(2)
proof (induction m arbitrary: results w)
  case Nil
  then show ?case by (intro exI [of _ "[]"]) (simp add: withVideos_def)
next
  case (Cons x m)
  obtain new w1 where c: "checkLookup e results x w = (Inr (results @ new), w1)" "db_up w1" "data w1 = withVideos new (data w)"
    using checkLookup_up [OF assms(1) Cons.prems] by blast
  obtain more w' where m: "foldE (checkLookup e) (results @ new) m w1 = (Inr ((results @ new) @ more), w')" "db_up w'"
    "data w' = withVideos more (data w1)"
    using Cons.IH [OF c(2)] by blast
  with c show ?case
    by (intro exI [of _ "new @ more"] exI [of _ w']) (simp add: bindE_def withVideos_append)
qed

lemma prefixMap_ids: "(\<Union>x \<in> set (prefixMap e ids). set (snd x)) \<subseteq> set ids"
  using prefixMap_entry by fastforce

definition cachedVideos :: "'w idb_scheme \<Rightarrow> string list \<Rightarrow> CachedVideo list" where
  "cachedVideos w ids = List.map_filter (store_get video_key (videosStore (data w))) ids"

definition missing :: "'w idb_scheme \<Rightarrow> string list \<Rightarrow> string list" where
  "missing w ids = filter (\<lambda>k. store_get video_key (videosStore (data w)) k = None) ids"

lemma cachedVideos_keys:
  assumes "k \<in> set ids"
  shows "k \<in> video_key ` set (cachedVideos w ids) \<longleftrightarrow> store_get video_key (videosStore (data w)) k \<noteq> None"
proof -
  let ?g = "store_get video_key (videosStore (data w))"
  have "set (cachedVideos w ids) = (\<lambda>k. the (?g k)) ` {k \<in> set ids. ?g k \<noteq> None}"
    by (auto simp: cachedVideos_def List.map_filter_def)
  moreover have "video_key (the (?g k)) = k" if "?g k \<noteq> None" for k
    using that by (auto dest: store_get_key)
  ultimately show ?thesis using assms by (force simp: image_iff)
qed

lemma misses_eq: "filter (\<lambda>k. k \<notin> video_key ` set (cachedVideos w ids)) ids = missing w ids"
  unfolding missing_def by (intro filter_cong refl) (simp only: cachedVideos_keys, simp)

lemma checkVideos_Inr:
  assumes "checkVideos e ids w = (Inr vs, w')"
  shows "\<exists>api. vs = cachedVideos w ids @ map cachedOfResult api \<and> VideoResult.videoId ` set api \<subseteq> set (missing w ids)"
proof -
  obtain cached w1 where g: "getVideos e ids w = (Inr cached, w1)"
    using assms by (auto simp: checkVideos_def bindE_Inr_iff)
  have c: "cached = cachedVideos w ids"
    using g unfolding getVideos_def cachedVideos_def
    by (auto simp: bindE_Inr_iff dest!: getVideos_loop unchangedD [OF data_getDB] unchangedD [OF data_transaction])
  obtain api w2 where a: "(if missing w ids \<noteq> [] then foldE (checkLookup e) [] (prefixMap e (missing w ids)) else retE []) w1 = (Inr api, w2)"
    "vs = cached @ map cachedOfResult api"
    using assms g unfolding checkVideos_def Let_def
    by (auto simp: bindE_def c misses_eq retE_def split: prod.splits sum.splits if_splits)
  then have "VideoResult.videoId ` set api \<subseteq> set (missing w ids)"
    using checkLoop_Inr [of e "[]" "prefixMap e (missing w ids)" w1 "Inr api" w2] prefixMap_ids [of e "missing w ids"]
    by (auto split: if_splits)
  with a c show ?thesis by blast
qed

lemma checkVideos_up:
  assumes "no_idb_faults e" "db_up w"
  shows "\<exists>api w'. checkVideos e ids w = (Inr (cachedVideos w ids @ map cachedOfResult api), w') \<and>
     data w' = withVideos api (data w) \<and> db_up w'"
proof -
  obtain cached w1 where g: "getVideos e ids w = (Inr cached, w1)" "db_up w1"
    using resolvesD [OF getVideos_up [OF assms(1)] assms(2)] by blast
  have c: "cached = cachedVideos w ids" "data w1 = data w"
    using g(1) unchangedD [OF getVideos_data g(1)] unfolding getVideos_def cachedVideos_def
    by (auto simp: bindE_Inr_iff dest!: getVideos_loop unchangedD [OF data_getDB] unchangedD [OF data_transaction])
  obtain api w2 where m: "(if missing w ids \<noteq> [] then foldE (checkLookup e) [] (prefixMap e (missing w ids)) else retE []) w1 = (Inr api, w2)"
    "data w2 = withVideos api (data w1)" "db_up w2"
  proof (cases "missing w ids = []")
    case True
    then show thesis using g(2) by (intro that [of "[]" w1]) (simp_all add: withVideos_def)
  next
    case False
    then show thesis
      using checkLoop_up [OF assms(1) g(2), of "[]" "prefixMap e (missing w ids)"] that by auto
  qed
  then show ?thesis
    using g c by (intro exI [of _ api] exI [of _ w2])
      (auto simp: checkVideos_def bindE_def retE_def misses_eq Let_def split: if_splits)
qed

section \<open>The cached user id\<close>

lemma ensure_cached: "cachedPublicUserId w = Some u \<Longrightarrow> u \<noteq> '''' \<Longrightarrow> ensurePublicUserId e w = (Inr u, w)"
  by (simp add: ensurePublicUserId_def eff)

lemma ensure_gives:
  assumes "nonempty_uuid e" "sha256_digest e"
  obtains u w' where "ensurePublicUserId e w = (Inr u, w')" "cachedPublicUserId w' = Some u" "u \<noteq> ''''"
proof (cases "cachedPublicUserId w = None \<or> cachedPublicUserId w = Some ''''")
  case True
  obtain s v where g: "getPublicUserId e w = (Inr (iteratedHash e s HASH_ITERATIONS), v)"
    using getPublicUserId_resolves [OF assms(1)] by metis
  have "length (iteratedHash e s HASH_ITERATIONS) = 64"
    using iteratedHash_hex [OF assms(2), of HASH_ITERATIONS s] by (simp add: HASH_ITERATIONS_def)
  then have "iteratedHash e s HASH_ITERATIONS \<noteq> ''''" by force
  with g True that show thesis by (auto simp: ensurePublicUserId_def eff)
next
  case False
  with that show thesis by (auto simp: ensure_cached)
qed

interpretation hub_id: user_identity "ensurePublicUserId e" "\<lambda>_. nonempty_uuid e \<and> sha256_digest e"
  for e :: "'e ident_env_scheme"
proof unfold_locales
  show "resolves (\<lambda>_. nonempty_uuid e \<and> sha256_digest e) (ensurePublicUserId e)"
    unfolding resolves_def by (metis ensure_gives)
next
  fix w u and w' :: "'w background_scheme"
  assume "nonempty_uuid e \<and> sha256_digest e" "ensurePublicUserId e w = (Inr u, w')"
  then have "cachedPublicUserId w' = Some u \<and> u \<noteq> ''''"
    using ensure_gives [of e w] by (metis Inr_inject prod.inject)
  then show "ensurePublicUserId e w' = (Inr u, w')" by (simp add: ensure_cached)
qed

lemma cachedId_indep [frame]:
  "idb_indep cachedPublicUserId" "ident_indep cachedPublicUserId" "http_indep cachedPublicUserId"
  by (simp_all add: idb_indep_def ident_indep_def http_indep_def)

definition hasUserId :: "string \<Rightarrow> 'w background_scheme \<Rightarrow> bool" where
  "hasUserId u w \<longleftrightarrow> cachedPublicUserId w = Some u \<and> u \<noteq> ''''"

lemma keepsId: "unchanged cachedPublicUserId m \<Longrightarrow> preserves (hasUserId u) m"
  by (simp add: unchanged_def preserves_def hasUserId_def)

lemma ensure_keepsId: "preserves (hasUserId u) (ensurePublicUserId e)"
  by (auto simp: preserves_def hasUserId_def ensure_cached)

lemma scheduleFlush_id [simp]: "cachedPublicUserId (scheduleFlush ms w) = cachedPublicUserId w"
  by (simp add: scheduleFlush_def Let_def)

lemma flushLoop_frame: "idb_indep f \<Longrightarrow> http_indep f \<Longrightarrow> unchanged f (flushLoop e uid now n vs)"
  by (induction vs arbitrary: n) (auto simp: trySend_def intro!: frame)

lemma flushPendingVotes_id: "unchanged cachedPublicUserId (flushPendingVotes e)"
  unfolding flushPendingVotes_def flushBody_def unchanged_iff_preserves
  by (intro allI preserves_bindE preserves_if preserves_retE preserves_getE preserves_modE preserves_finallyE
      unchanged_iff_preserves [THEN iffD1, rule_format] flushLoop_frame frame cachedId_indep) simp_all

lemma enqueueVote_id: "unchanged cachedPublicUserId (enqueueVote e vid cat)"
  unfolding enqueueVote_def by (intro frame cachedId_indep unchanged_modE) simp

lemma applyDelta_frame: "idb_indep f \<Longrightarrow> unchanged f (applyDelta e d)"
  unfolding applyDelta_def deltaVideoStep_def deltaChannelStep_def split_def by (intro frame)

lemma rebuildCache_frame: "idb_indep f \<Longrightarrow> unchanged f (rebuildCache e b)"
  unfolding rebuildCache_def Let_def by (intro frame)

lemma sync_frame [frame]:
  assumes "idb_indep f" "http_indep f"
  shows "unchanged f (performDeltaSync e)" "unchanged f (performFullSync e)" "unchanged f (getSyncStatus e)"
    "unchanged f (getPendingVoteCount e)"
  unfolding performDeltaSync_def performFullSync_def getSyncStatus_def getPendingVoteCount_def
  by (intro frame applyDelta_frame rebuildCache_frame assms)+

lemma handleMessage_keepsId: "preserves (hasUserId u) (handleMessage e msg)"
proof -
  have sub: "preserves (hasUserId u) (submitOrQueue e vid cat)" for vid cat
    unfolding submitOrQueue_def
    by (intro pres ensure_keepsId keepsId [OF enqueueVote_id] keepsId [OF api_frame(2)] cachedId_indep)
  have pay: "preserves (hasUserId u) (payloadOf p)" for p :: "'x option"
    unfolding payloadOf_def by (intro pres)
  show ?thesis
    by (cases msg) (auto simp: handleMessage_def intro!: pres sub pay ensure_keepsId
        keepsId [OF flushPendingVotes_id] keepsId [OF checkVideos_frame] keepsId [OF lookupVideos_frame]
        keepsId [OF sync_frame(1)] keepsId [OF sync_frame(2)] keepsId [OF sync_frame(3)] keepsId [OF sync_frame(4)]
        keepsId [OF getLocalId_frame] keepsId [OF api_frame(3)] keepsId [OF api_frame(6)] cachedId_indep)
qed

section \<open>Sample environment\<close>

definition sample_hub_env :: "resp_body \<Rightarrow> nat \<Rightarrow> background_env" where
  "sample_hub_env b st = queue_env.extend (sample_queue_env b st) \<lparr>runtimeId = ''realtube''\<rparr>"

lemma sample_hub_env_simps [simp]:
  "fetch (sample_hub_env b st) = (\<lambda>_ _. Inr \<lparr>status = st, retryAfter = None, respBody = Some b\<rparr>)"
  "no_idb_faults (sample_hub_env b st)" "nonempty_uuid (sample_hub_env b st)"
  "sha256_digest (sample_hub_env b st)" "runtimeId (sample_hub_env b st) = ''realtube''"
  by (simp_all add: sample_hub_env_def queue_env.defs sample_queue_env_def no_idb_faults_def nonempty_uuid_def sha256_digest_def)

definition sample_hub :: background where
  "sample_hub = queue.extend (sample_queue []) \<lparr>cachedPublicUserId = None\<rparr>"

lemma sample_hub_up: "db_up sample_hub"
  by (simp add: sample_hub_def queue.defs sample_queue_def db_up_def db_ok_def data_ok_def empty_data_def
      DB_VERSION_def store_ok_def)

section \<open>Properties\<close>

text \<open>
  C16: who may ask what. A message from another extension or a page is refused and has no
  effect at all; a content script is refused the two messages that name the user; and every
  other message it can send gets an answer that does not carry the user id: only \<open>GET_USER_ID\<close>
  and \<open>GET_USER_INFO\<close> answer with it.
\<close>

theorem onMessage_guards:
  "(senderId sender \<noteq> Some (runtimeId e) \<longrightarrow> onMessage e msg sender w = (failure ''Unauthorized sender'', w)) \<and>
   (senderTab sender \<and> msg \<in> {GET_USER_ID, GET_USER_INFO} \<longrightarrow>
      \<not> success (fst (onMessage e msg sender w)) \<and> snd (onMessage e msg sender w) = w) \<and>
   (senderTab sender \<longrightarrow> (\<forall>uid. respData (fst (onMessage e msg sender w)) \<noteq> Some (UserIdData uid)))"
proof -
  have no: "respData r \<noteq> Some (UserIdData uid)" if "handleMessage e msg w = (Inr r, w')" "msg \<noteq> GET_USER_ID" for r w' uid
    using that
    by (cases msg) (auto simp: handleMessage_def submitOrQueue_def bindE_Inr_iff catchE_iff okData_def okEmpty_def failure_def
        split: prod.splits)
  show ?thesis
    using no by (auto simp: onMessage_def failure_def split: prod.splits sum.splits)
qed

theorem onMessage_guards_witness:
  "onMessage (sample_hub_env (ErrorBody None) 500) SYNC_FULL \<lparr>senderId = Some ''evil'', senderTab = False\<rparr> sample_hub
     = (failure ''Unauthorized sender'', sample_hub)"
  using onMessage_guards [of "\<lparr>senderId = Some ''evil'', senderTab = False\<rparr>" "sample_hub_env (ErrorBody None) 500"
      SYNC_FULL sample_hub] by simp

text \<open>The answer of a check when storage works.\<close>

lemma checkVideos_answer:
  assumes "db_up w" and "no_idb_faults e"
  obtains api w' where "checkVideos e ids w = (Inr (cachedVideos w ids @ map cachedOfResult api), w')"
    and "data w' = withVideos api (data w)"
    and "VideoResult.videoId ` set api \<subseteq> {k \<in> set ids. videoLookup w k = None}"
proof -
  obtain api w' where run: "checkVideos e ids w = (Inr (cachedVideos w ids @ map cachedOfResult api), w')"
    "data w' = withVideos api (data w)"
    using checkVideos_up [OF assms(2,1)] by blast
  from checkVideos_Inr [OF run(1)] obtain api' where a: "map cachedOfResult api = map cachedOfResult api'"
    "VideoResult.videoId ` set api' \<subseteq> set (missing w ids)" by auto
  have "map VideoResult.videoId xs = map video_key (map cachedOfResult xs)" for xs
    by (simp add: cachedOfResult_def)
  with a(1) have "map VideoResult.videoId api = map VideoResult.videoId api'" by metis
  then have "VideoResult.videoId ` set api = VideoResult.videoId ` set api'" by (metis list.set_map)
  with a(2) run that show thesis by (auto simp: missing_def)
qed



lemma lookups_only_prefixes:
  assumes "set ids' \<subseteq> set ids"
  shows "preserves (only_prefixes e ids old) (foldE (checkLookup e) rs (prefixMap e ids'))"
    and "preserves (only_prefixes e ids old) (foldE (plainLookup e) acc (prefixMap e ids'))"
proof -
  have p: "fst x \<in> (\<lambda>v. hashVideoId e v 4) ` set ids" if "x \<in> set (prefixMap e ids')" for x
  proof -
    have "fst x \<in> set (map fst (prefixMap e ids'))" using that by auto
    then show ?thesis unfolding prefixMap_keys using assms by auto
  qed
  show "preserves (only_prefixes e ids old) (foldE (checkLookup e) rs (prefixMap e ids'))"
    unfolding checkLookup_def tryLookup_def
    by (intro preserves_foldE_in pres lookup_only_prefixes only_prefixes_same fileVideos_requests cast_frame p)
  show "preserves (only_prefixes e ids old) (foldE (plainLookup e) acc (prefixMap e ids'))"
    unfolding plainLookup_def
    by (intro preserves_foldE_in pres lookup_only_prefixes only_prefixes_same cast_frame p)
qed



text \<open>A vote is on the server or in the queue.\<close>

lemma ensure_frame:
  "ident_indep f \<Longrightarrow> (\<And>w u. f (w\<lparr>cachedPublicUserId := u\<rparr>) = f w) \<Longrightarrow> unchanged f (ensurePublicUserId e)"
  unfolding ensurePublicUserId_def by (intro frame unchanged_modE) simp_all

lemma ensure_keeps:
  fixes w :: "'w background_scheme"
  assumes "ensurePublicUserId e w = (r, w')"
  shows "data w' = data w" "requests w' = requests w" "clock w' = clock w" "db_up w' = db_up w"
proof -
  show "data w' = data w"
    by (rule unchangedD [OF ensure_frame assms]) (simp_all add: frame)
  show "requests w' = requests w"
    by (rule unchangedD [OF ensure_frame assms]) (simp_all add: frame)
  show "clock w' = clock w"
    by (rule unchangedD [OF ensure_frame assms]) (simp_all add: frame)
  show "db_up w' = db_up w"
    by (rule unchangedD [OF ensure_frame assms]) (simp_all add: frame, simp add: db_up_def db_ok_def)
qed

text \<open>A submitted vote is sent and accepted, or queued.\<close>

definition hubVote :: "'e queue_env_scheme \<Rightarrow> string \<Rightarrow> string \<Rightarrow> string \<Rightarrow> VoteRequest" where
  "hubVote e vid cat uid = \<lparr>VoteRequest.videoId = vid, VoteRequest.category = cat, VoteRequest.userId = uid,
     VoteRequest.userAgent = ''RealTube/0.1.0 '' @ navigatorUserAgent e\<rparr>"

lemma submitVote_cases:
  assumes "db_up w" and "no_idb_faults e" and "nonempty_uuid e"
  obtains (sent) b w' uid where "handleMessage e (SUBMIT_VOTE (Some (vid, cat))) w = (Inr (okData (BodyData b)), w')"
      and "accepted e (hubVote e vid cat uid) (requests w')"
    | (queued) w' where "handleMessage e (SUBMIT_VOTE (Some (vid, cat))) w = (Inr (okData QueuedData), w')"
      and "flushTimer w' = Some (clock w' + 5000)"
      and "store_get vote_key (pendingVotesStore (data w')) vid =
        Some \<lparr>PendingVote.videoId = vid, PendingVote.category = cat, timestamp = clock w'\<rparr>"
proof -
  obtain uid w1 where u: "ensurePublicUserId e w = (Inr uid, w1)"
  proof (cases "cachedPublicUserId w = None \<or> cachedPublicUserId w = Some ''''")
    case True
    obtain s v where g: "getPublicUserId e w = (Inr (iteratedHash e s HASH_ITERATIONS), v)"
      using getPublicUserId_resolves [OF assms(3)] by metis
    with True that show thesis by (auto simp: ensurePublicUserId_def eff)
  next
    case False
    with that show thesis by (auto simp: ensurePublicUserId_def eff)
  qed
  note k1 = ensure_keeps [OF u]
  obtain q w2 where s: "Api_Client.submitVote e (hubVote e vid cat uid) w1 = (q, w2)" by fastforce
  have up2: "db_up w2" using unchangedD [OF api_frame(2) [OF base_http_indep(8)] s] k1(4) assms(1) by simp
  show ?thesis
  proof (cases q)
    case (Inr b)
    with u s have "handleMessage e (SUBMIT_VOTE (Some (vid, cat))) w = (Inr (okData (BodyData b)), w2)"
      by (simp add: handleMessage_def payloadOf_def submitOrQueue_def hubVote_def eff)
    moreover from Inr have "accepted e (hubVote e vid cat uid) (requests w2)" using submitVote_log [OF s] by blast
    ultimately show ?thesis by (rule sent)
  next
    case (Inl x)
    obtain w3 where en: "enqueueVote e vid cat w2 = (Inr (), w3)"
      using resolvesD [OF enqueueVote_up [OF assms(2)] up2] by fastforce
    have run: "handleMessage e (SUBMIT_VOTE (Some (vid, cat))) w = (Inr (okData QueuedData), w3)"
      using u s Inl en by (simp add: handleMessage_def payloadOf_def submitOrQueue_def hubVote_def eff)
    note q = enqueueVote_Inr [OF en]
    have due: "flushTimer w3 = Some (clock w3 + 5000)" using q by simp
    have "store_get vote_key (pendingVotesStore (data w3)) vid =
        Some \<lparr>PendingVote.videoId = vid, PendingVote.category = cat, timestamp = clock w3\<rparr>"
      using q db_ok_stores(3) [OF db_up_ok [OF up2]] by (simp add: store_get_put)
    with run due show ?thesis by (rule queued)
  qed
qed

text \<open>A server that refuses every vote accepts none.\<close>

definition refusesVotes :: "'e api_env_scheme \<Rightarrow> bool" where
  "refusesVotes e \<longleftrightarrow> (\<forall>lg req. method req = POST \<longrightarrow> (\<exists>resp. fetch e lg req = Inr resp \<and> \<not> resp_ok resp))"

lemma refused_not_accepted: "refusesVotes e \<Longrightarrow> \<not> accepted e v lg"
  unfolding refusesVotes_def accepted_def by (metis sum.inject(2))

text \<open>
  C15: a submitted vote is never dropped. When storage works, \<open>SUBMIT_VOTE\<close> always answers
  success, and then the server accepted a request carrying that vote, or the vote is in the
  queue and a flush is due. The answer is the same success when the server refuses the vote for
  good: a status that is not 2xx counts as being offline, and the refused vote is queued.
\<close>

theorem submitVote_never_dropped:
  assumes "db_up w" and "no_idb_faults e" and "nonempty_uuid e"
  shows "\<exists>r w' uid. handleMessage e (SUBMIT_VOTE (Some (vid, cat))) w = (Inr r, w') \<and> success r \<and>
     (accepted e (hubVote e vid cat uid) (requests w') \<and> respData r \<noteq> Some QueuedData \<or>
      respData r = Some QueuedData \<and> flushTimer w' = Some (clock w' + 5000) \<and>
      store_get vote_key (pendingVotesStore (data w')) vid =
        Some \<lparr>PendingVote.videoId = vid, PendingVote.category = cat, timestamp = clock w'\<rparr>) \<and>
     (refusesVotes e \<longrightarrow> respData r = Some QueuedData)"
  using assms
proof (cases rule: submitVote_cases [where vid = vid and cat = cat])
  case (sent b w' uid)
  with refused_not_accepted show ?thesis
    by (intro exI [of _ "okData (BodyData b)"] exI [of _ w'] exI [of _ uid]) (auto simp: okData_def)
next
  case (queued w')
  then show ?thesis
    by (intro exI [of _ "okData QueuedData"] exI [of _ w'] exI) (simp add: okData_def)
qed

theorem submitVote_never_dropped_witness:
  "\<exists>r w'. handleMessage (sample_hub_env (ErrorBody (Some ''Invalid category'')) 400) (SUBMIT_VOTE (Some (''v1'', ''bogus''))) sample_hub
     = (Inr r, w') \<and> success r \<and> respData r = Some QueuedData"
  using submitVote_never_dropped [OF sample_hub_up, of "sample_hub_env (ErrorBody (Some ''Invalid category'')) 400" "''v1''" "''bogus''"]
  by (auto simp: resp_ok_def refusesVotes_def)

text \<open>
  Withdrawing a vote does not withdraw a queued one. \<open>DELETE_VOTE\<close> tells the server and
  never touches the offline queue: a vote still queued for the video stays there, and the next
  flush submits it again.
\<close>

theorem deleteVote_keeps_queue:
  assumes "handleMessage e (DELETE_VOTE (Some vid)) w = (res, w')"
  shows "data w' = data w"
proof -
  have "unchanged data (handleMessage e (DELETE_VOTE (Some vid)))"
    by (auto simp: handleMessage_def payloadOf_def intro!: frame ensure_frame)
  then show ?thesis using assms by (rule unchangedD)
qed

theorem deleteVote_keeps_queue_witness:
  "data (snd (handleMessage (sample_hub_env (ErrorBody None) 200) (DELETE_VOTE (Some ''v1'')) sample_hub)) = data sample_hub"
  by (rule deleteVote_keeps_queue) (rule surjective_pairing)

text \<open>
  One user, one id. The id a worker has once answered \<open>GET_USER_ID\<close> with is its answer
  ever after, whatever messages it handles in between and even when the stored local id is
  changed or cleared.
\<close>

theorem userId_same_per_worker:
  assumes "nonempty_uuid e" and "sha256_digest e" and "handleMessage e GET_USER_ID w = (Inr r, w1)"
    and "w2 = fold (\<lambda>(msg, lid) v. snd (handleMessage e msg (v\<lparr>localId := lid\<rparr>))) steps w1"
  shows "handleMessage e GET_USER_ID w2 = (Inr r, w2)"
proof -
  obtain u where u: "ensurePublicUserId e w = (Inr u, w1)" "r = okData (UserIdData u)"
    using assms(3) by (auto simp: handleMessage_def bindE_Inr_iff)
  have "hasUserId u w1"
    using ensure_gives [OF assms(1,2), of w] u(1) unfolding hasUserId_def by (metis Inr_inject prod.inject)
  then have "hasUserId u (fold (\<lambda>(msg, lid) v. snd (handleMessage e msg (v\<lparr>localId := lid\<rparr>))) steps w1)"
  proof (induction steps arbitrary: w1)
    case (Cons s steps)
    have "hasUserId u (w1\<lparr>localId := snd s\<rparr>)" using Cons.prems by (simp add: hasUserId_def)
    then have "hasUserId u (snd (handleMessage e (fst s) (w1\<lparr>localId := snd s\<rparr>)))"
      by (rule preservesD [OF handleMessage_keepsId prod.collapse [symmetric]])
    from Cons.IH [OF this] show ?case by (simp add: split_def)
  qed simp
  then show ?thesis
    using u(2) assms(4) by (simp add: handleMessage_def bindE_def retE_def ensure_cached hasUserId_def)
qed

theorem userId_same_per_worker_witness:
  "\<exists>r w1. handleMessage (sample_hub_env (ErrorBody None) 400) GET_USER_ID sample_hub = (Inr r, w1) \<and>
     fst (handleMessage (sample_hub_env (ErrorBody None) 400) GET_USER_ID
       (snd (handleMessage (sample_hub_env (ErrorBody None) 400) SYNC_FULL (w1\<lparr>localId := None\<rparr>)))) = Inr r"
proof -
  let ?e = "sample_hub_env (ErrorBody None) 400"
  obtain u w1 where "ensurePublicUserId ?e sample_hub = (Inr u, w1)"
    by (rule ensure_gives [of ?e sample_hub]) simp_all
  then have g: "handleMessage ?e GET_USER_ID sample_hub = (Inr (okData (UserIdData u)), w1)"
    by (simp add: handleMessage_def bindE_def retE_def)
  from userId_same_per_worker [OF _ _ g, of "snd (handleMessage ?e SYNC_FULL (w1\<lparr>localId := None\<rparr>))" "[(SYNC_FULL, None)]"] g
  show ?thesis by auto
qed

end
