(* ===== verification/Lookup_Steps.thy ===== *)
theory Lookup_Steps
  imports Background
begin

text \<open>
  The lookups of one \<open>CHECK_VIDEOS\<close> message as the code runs them: concurrently. Each prefix has
  its own asynchronous function; they interleave where one of them waits, for the server's
  answer (\<open>Asking\<close>: the request with its retries is one step) or for the cache to store a record
  (\<open>Filing\<close>: what is left of the loop over the answer). They share the list of results and the
  worker's state. \<open>Background.checkVideos\<close> runs them one after the other; here its specification
  is shown for every interleaving, and that every interleaving ends.
\<close>

section \<open>One lookup\<close>

datatype lookup_pc = Asking string "string list" | Filing "string list" "VideoResult list"

type_synonym 'w lookups = "lookup_pc list \<times> VideoResult list \<times> 'w"

fun lookup_next :: "'e api_env_scheme \<Rightarrow> lookup_pc \<Rightarrow> VideoResult list \<Rightarrow> 'w http_scheme \<Rightarrow>
    lookup_pc option \<times> VideoResult list \<times> 'w http_scheme" where
  "lookup_next e (Asking p ids) rs w =
     (case tryLookup e p w of
        (Inr (Some vs), w') \<Rightarrow> (Some (Filing ids vs), rs, w')
      | (_, w') \<Rightarrow> (None, rs, w'))"
| "lookup_next e (Filing ids []) rs w = (None, rs, w)"
| "lookup_next e (Filing ids (v # vs)) rs w =
     (if VideoResult.videoId v \<in> set ids
      then (case putVideo e (cachedOfResult v) w of
              (Inr _, w') \<Rightarrow> (Some (Filing ids vs), rs @ [v], w')
            | (Inl _, w') \<Rightarrow> (None, rs @ [v], w'))
      else (Some (Filing ids vs), rs, w))"

section \<open>All lookups of a message\<close>

inductive lookup_step :: "'e api_env_scheme \<Rightarrow> 'w http_scheme lookups \<Rightarrow> 'w http_scheme lookups \<Rightarrow> bool"
  for e :: "'e api_env_scheme" where
  run: "lookup_next e pc rs w = (Some pc', rs', w') \<Longrightarrow> lookup_step e (as @ pc # bs, rs, w) (as @ pc' # bs, rs', w')"
| finish: "lookup_next e pc rs w = (None, rs', w') \<Longrightarrow> lookup_step e (as @ pc # bs, rs, w) (as @ bs, rs', w')"

definition startLookups :: "'e ident_env_scheme \<Rightarrow> string list \<Rightarrow> lookup_pc list" where
  "startLookups e misses = map (\<lambda>(p, ids). Asking p ids) (prefixMap e misses)"

section \<open>Invariant\<close>

fun pc_ids :: "lookup_pc \<Rightarrow> string set" where
  "pc_ids (Asking p ids) = set ids"
| "pc_ids (Filing ids vs) = set ids"

text \<open>
  What is cached is the data before the message with the results so far, and every lookup, like
  every result, is about the ids that were not cached.
\<close>

definition lookups_ok :: "'e idb_env_scheme \<Rightarrow> string list \<Rightarrow> idb_data \<Rightarrow> 'w http_scheme lookups \<Rightarrow> bool" where
  "lookups_ok e misses d0 c = (case c of (ts, rs, w) \<Rightarrow>
     no_idb_faults e \<and> db_up w \<and> (\<forall>pc \<in> set ts. pc_ids pc \<subseteq> set misses) \<and>
     VideoResult.videoId ` set rs \<subseteq> set misses \<and> data w = withVideos rs d0)"

lemma lookup_next_ok:
  assumes "lookup_next e pc rs w = (pc', rs', w')" and "lookups_ok e misses d0 (pc # ts, rs, w)"
  shows "lookups_ok e misses d0 (case_option [] (\<lambda>p. [p]) pc' @ ts, rs', w')"
proof (cases pc)
  case (Asking p ids)
  obtain a w1 where t: "tryLookup e p w = (Inr a, w1)" using tryLookup_Inr by blast
  from tryLookup_keeps [OF t] assms t Asking show ?thesis
    by (auto simp: lookups_ok_def split: option.splits)
next
  case (Filing ids vs)
  from assms(2) have up: "no_idb_faults e" "db_up w" by (simp_all add: lookups_ok_def)
  show ?thesis
  proof (cases vs)
    case Nil
    with assms Filing show ?thesis by (auto simp: lookups_ok_def)
  next
    case (Cons v us)
    show ?thesis
    proof (cases "VideoResult.videoId v \<in> set ids")
      case True
      obtain w1 where p: "putVideo e (cachedOfResult v) w = (Inr (), w1)" "db_up w1"
        using resolvesD [OF cache_up(7) [OF up(1)] up(2)] by fastforce
      have "\<forall>x \<in> set (rs @ [v]). VideoResult.videoId x \<in> set misses"
        using assms(2) Filing True by (simp add: lookups_ok_def image_subset_iff subset_iff)
      moreover from assms(1) Filing Cons True p(1) have "pc' = Some (Filing ids us)" "rs' = rs @ [v]" "w' = w1"
        by simp_all
      ultimately show ?thesis
        using assms(2) Filing p(2) putVideo_Inr [OF p(1)]
        by (simp add: lookups_ok_def withVideos_def image_subset_iff)
    next
      case False
      with assms Filing Cons show ?thesis by (auto simp: lookups_ok_def)
    qed
  qed
qed

lemma lookups_ok_order: "lookups_ok e misses d0 (as @ pc # bs, rs, w) \<longleftrightarrow> lookups_ok e misses d0 (pc # as @ bs, rs, w)"
  by (auto simp: lookups_ok_def)

interpretation lookup_system: step_system "lookup_step e" "lookups_ok e misses d0" for e misses d0
proof unfold_locales
  fix c c' :: "'w http_scheme lookups"
  assume "lookup_step e c c'" and "lookups_ok e misses d0 c"
  then show "lookups_ok e misses d0 c'"
    by (cases rule: lookup_step.cases)
      (auto simp: lookups_ok_order dest: lookup_next_ok)
qed

lemma start_ok: "no_idb_faults e \<Longrightarrow> db_up w \<Longrightarrow> lookups_ok e misses (data w) (startLookups e misses, [], w)"
  using prefixMap_ids [of e misses]
  by (fastforce simp: lookups_ok_def startLookups_def withVideos_def)

section \<open>Every interleaving ends\<close>

text \<open>
  A step of a lookup either turns an unasked one into one that files, or shortens a list that
  is being filed, or removes a lookup.
\<close>

fun asks :: "lookup_pc \<Rightarrow> nat" where
  "asks (Asking p ids) = 1"
| "asks (Filing ids vs) = 0"

fun files :: "lookup_pc \<Rightarrow> nat" where
  "files (Asking p ids) = 0"
| "files (Filing ids vs) = Suc (length vs)"

definition lookup_order :: "('w lookups \<times> 'w lookups) set" where
  "lookup_order = inv_image (less_than <*lex*> less_than)
     (\<lambda>(ts, rs, w). (sum_list (map asks ts), sum_list (map files ts)))"

lemma wf_lookup_order: "wf lookup_order"
  by (simp add: lookup_order_def wf_lex_prod)

lemma lookup_step_decreases: "lookup_step e c c' \<Longrightarrow> (c', c) \<in> lookup_order"
proof (induction rule: lookup_step.induct)
  case (run pc rs w pc' rs' w' as bs)
  then show ?case
    by (cases "(e, pc, rs, w)" rule: lookup_next.cases)
      (auto simp: lookup_order_def split: prod.splits sum.splits option.splits if_splits)
next
  case (finish pc rs w rs' w' as bs)
  then show ?case
    by (cases pc) (auto simp: lookup_order_def)
qed

lemma lookup_progress: "ts \<noteq> [] \<Longrightarrow> \<exists>c'. lookup_step e (ts, rs, w) c'"
proof -
  assume "ts \<noteq> []"
  then obtain pc bs where ts: "ts = [] @ pc # bs" by (cases ts) auto
  obtain q rs' w' where n: "lookup_next e pc rs w = (q, rs', w')" by (metis prod_cases3)
  show ?thesis
  proof (cases q)
    case None
    with n show ?thesis unfolding ts by (blast intro: finish)
  next
    case (Some pc')
    with n show ?thesis unfolding ts by (blast intro: run)
  qed
qed

text \<open>So from every configuration some schedule runs all lookups to their ends.\<close>

lemma lookups_end: "\<exists>rs' w'. rtranclp (lookup_step e) c ([], rs', w')"
proof (induction c rule: wf_induct_rule [OF wf_lookup_order])
  case (1 c)
  obtain ts rs w where c: "c = (ts, rs, w)" by (metis prod_cases3)
  show ?case
  proof (cases "ts = []")
    case True
    then show ?thesis unfolding c by blast
  next
    case False
    from lookup_progress [OF this] obtain c' where "lookup_step e c c'" unfolding c by blast
    with 1 [OF lookup_step_decreases [OF this]] show ?thesis
      by (meson converse_rtranclp_into_rtranclp)
  qed
qed

section \<open>Running them in order is one of the schedules\<close>

lemma filing_schedule:
  "fileVideos e ids rs vs w = (Inr rs', w') \<Longrightarrow> rtranclp (lookup_step e) (Filing ids vs # ts, rs, w) (ts, rs', w')"
proof (induction vs arbitrary: rs w)
  case Nil
  then have "lookup_step e ([] @ Filing ids [] # ts, rs, w) ([] @ ts, rs', w')" by (intro finish) simp
  then show ?case by auto
next
  case (Cons v vs)
  let ?go = "lookup_step e ([] @ Filing ids (v # vs) # ts, rs, w)"
  show ?case
  proof (cases "VideoResult.videoId v \<in> set ids")
    case True
    obtain q w1 where p: "putVideo e (cachedOfResult v) w = (q, w1)" by fastforce
    show ?thesis
    proof (cases q)
      case (Inl x)
      with Cons.prems True p have r: "rs' = rs @ [v]" "w' = w1" by (simp_all add: eff)
      have "?go ([] @ ts, rs', w')" using True p Inl by (intro finish) (simp add: r)
      then show ?thesis by auto
    next
      case (Inr u)
      have "?go ([] @ Filing ids vs # ts, rs @ [v], w1)" using True p Inr by (intro run) simp
      moreover from Cons.prems True p Inr have "fileVideos e ids (rs @ [v]) vs w1 = (Inr rs', w')" by (simp add: eff)
      note Cons.IH [OF this]
      ultimately show ?thesis by (simp add: converse_rtranclp_into_rtranclp)
    qed
  next
    case False
    then have "?go ([] @ Filing ids vs # ts, rs, w)" by (intro run) simp
    moreover from Cons.prems False have "fileVideos e ids rs vs w = (Inr rs', w')" by simp
    note Cons.IH [OF this]
    ultimately show ?thesis by (simp add: converse_rtranclp_into_rtranclp)
  qed
qed

lemma lookup_schedule:
  assumes "checkLookup e rs (p, ids) w = (Inr rs', w')"
  shows "rtranclp (lookup_step e) (Asking p ids # ts, rs, w) (ts, rs', w')"
proof -
  obtain a w1 where t: "tryLookup e p w = (Inr a, w1)" using tryLookup_Inr by blast
  show ?thesis
  proof (cases a)
    case None
    with assms t have r: "rs' = rs" "w' = w1" by (simp_all add: checkLookup_def eff)
    have "lookup_step e ([] @ Asking p ids # ts, rs, w) ([] @ ts, rs', w')"
      using t None by (intro finish) (simp add: r)
    then show ?thesis by auto
  next
    case (Some vs)
    have "lookup_step e ([] @ Asking p ids # ts, rs, w) ([] @ Filing ids vs # ts, rs, w1)"
      using t Some by (intro run) simp
    moreover from assms t Some have "fileVideos e ids rs vs w1 = (Inr rs', w')" by (simp add: checkLookup_def eff)
    note filing_schedule [OF this, of ts]
    ultimately show ?thesis by (simp add: converse_rtranclp_into_rtranclp)
  qed
qed

lemma lookups_schedule:
  "foldE (checkLookup e) rs m w = (Inr rs', w') \<Longrightarrow>
     rtranclp (lookup_step e) (map (\<lambda>(p, ids). Asking p ids) m, rs, w) ([], rs', w')"
proof (induction m arbitrary: rs w)
  case (Cons x m)
  obtain p ids where x: "x = (p, ids)" by fastforce
  from Cons.prems obtain rs1 w1 where c: "checkLookup e rs (p, ids) w = (Inr rs1, w1)"
    "foldE (checkLookup e) rs1 m w1 = (Inr rs', w')"
    by (auto simp: x bindE_Inr_iff)
  from rtranclp_trans [OF lookup_schedule [OF c(1)] Cons.IH [OF c(2)]] show ?case
    by (simp add: x)
qed auto


section \<open>Property\<close>

text \<open>
  C8: the lookups of a check are independent of their order. However the concurrent lookups of
  one \<open>CHECK_VIDEOS\<close> message interleave, and however the server answers each, when storage works:
  no interleaving runs forever, one that is not finished can go on, and at the end every result
  is for a requested video that was not cached, and the cache holds exactly the results on top
  of what it held. Running the lookups in order, as the model of the hub does, is one of them.
\<close>

theorem lookups_any_order:
  assumes "no_idb_faults e" and "db_up w" and "misses = filter (\<lambda>k. videoLookup w k = None) ids"
    and "rtranclp (lookup_step e) (startLookups e misses, [], w) (ts, rs, w')"
  shows "wf {(c', c). lookup_step e c (c' :: 'w http_scheme lookups)} \<and>
     (ts \<noteq> [] \<longrightarrow> (\<exists>c'. lookup_step e (ts, rs, w') c')) \<and>
     VideoResult.videoId ` set rs \<subseteq> {k \<in> set ids. videoLookup w k = None} \<and>
     videoLookup w' = (\<lambda>k. case find (\<lambda>v. VideoResult.videoId v = k) (rev rs) of
       Some v \<Rightarrow> Some (cachedOfResult v) | None \<Rightarrow> videoLookup w k) \<and>
     (foldE (checkLookup e) [] (prefixMap e misses) w = (Inr api, w1) \<longrightarrow>
        rtranclp (lookup_step e) (startLookups e misses, [], w) ([], api, w1))"
proof -
  from lookup_system.steps_ok [OF assms(4) start_ok [OF assms(1,2)]]
  have ok: "VideoResult.videoId ` set rs \<subseteq> set misses" "data w' = withVideos rs (data w)"
    by (simp_all add: lookups_ok_def)
  have key: "video_key (cachedOfResult v) = VideoResult.videoId v" for v by (simp add: cachedOfResult_def)
  have "wf {(c', c). lookup_step e c (c' :: 'w http_scheme lookups)}"
    by (rule wf_subset [OF wf_lookup_order]) (use lookup_step_decreases in auto)
  moreover have "videoLookup w' = (\<lambda>k. case find (\<lambda>v. VideoResult.videoId v = k) (rev rs) of
       Some v \<Rightarrow> Some (cachedOfResult v) | None \<Rightarrow> videoLookup w k)"
    using db_ok_stores(1) [OF db_up_ok [OF assms(2)]]
    by (simp add: ok(2) withVideos_def fun_eq_iff store.get_put_all rev_map find_map key split: option.splits)
  moreover from ok(1) have "VideoResult.videoId ` set rs \<subseteq> {k \<in> set ids. videoLookup w k = None}"
    by (simp add: assms(3))
  moreover have "foldE (checkLookup e) [] (prefixMap e misses) w = (Inr api, w1) \<longrightarrow>
      rtranclp (lookup_step e) (startLookups e misses, [], w) ([], api, w1)"
    unfolding startLookups_def by (intro impI lookups_schedule)
  moreover have "ts \<noteq> [] \<longrightarrow> (\<exists>c'. lookup_step e (ts, rs, w') c')"
    using lookup_progress by (intro impI)
  ultimately show ?thesis by (intro conjI)
qed

theorem lookups_any_order_witness:
  "\<exists>c'. lookup_step (sample_hub_env (VideosBody []) 200)
     (startLookups (sample_hub_env (VideosBody []) 200) [''v1''], [], sample_hub) c'"
proof -
  let ?e = "sample_hub_env (VideosBody []) 200"
  have "videoLookup sample_hub k = None" for k
    by (simp add: sample_hub_def queue.defs sample_queue_def empty_data_def store_get_def)
  then have m: "[''v1''] = filter (\<lambda>k. videoLookup sample_hub k = None) [''v1'']" by simp
  have "startLookups ?e [''v1''] \<noteq> []" by (simp add: startLookups_def prefixMap_def)
  moreover have "no_idb_faults ?e" by simp
  note lookups_any_order [where e = ?e and api = "[]" and ?w1.0 = sample_hub, OF this sample_hub_up m rtranclp.rtrancl_refl]
  ultimately show ?thesis by (elim conjE mp)
qed

end
