(* ===== verification/Id_Steps.thy ===== *)
theory Id_Steps
  imports Identity
begin

text \<open>
  Concurrent calls of \<open>getLocalId\<close> (\<open>background/identity.ts\<close>). The function waits twice: for the
  read of the stored id and for the write of a new one. The start-up, the messages of the popup
  and of the vote button and the flush of the queue all call it, and nothing holds one back while
  another is under way. \<open>Identity.getLocalId\<close> is one call with nothing in between; here any
  number of calls interleave at their awaits.
\<close>

section \<open>One call\<close>

text \<open>\<open>Reading\<close>: waiting for the read. \<open>Writing\<close>: a new id has been generated, its write is under way.\<close>

datatype id_pc = Reading | Writing string | Resolved string

fun id_next :: "'e ident_env_scheme \<Rightarrow> id_pc \<Rightarrow> 'w ident_scheme \<Rightarrow> id_pc \<times> 'w ident_scheme" where
  "id_next e Reading w =
     (if localId w \<noteq> None \<and> localId w \<noteq> Some '''' then (Resolved (the (localId w)), w)
      else (case generateUUID e w of
              (Inr uuid, w') \<Rightarrow> (Writing uuid, w')
            | (Inl _, w') \<Rightarrow> (Reading, w')))"
| "id_next e (Writing uuid) w = (Resolved uuid, w\<lparr>localId := Some uuid\<rparr>)"
| "id_next e (Resolved uuid) w = (Resolved uuid, w)"

inductive id_step :: "'e ident_env_scheme \<Rightarrow> id_pc list \<times> 'w ident_scheme \<Rightarrow> id_pc list \<times> 'w ident_scheme \<Rightarrow> bool"
  for e :: "'e ident_env_scheme" where
  call: "id_step e (cs, w) (cs @ [Reading], w)"
| go: "i < length cs \<Longrightarrow> (\<forall>u. cs ! i \<noteq> Resolved u) \<Longrightarrow> id_next e (cs ! i) w = (pc, w') \<Longrightarrow>
     id_step e (cs, w) (cs[i := pc], w')"

text \<open>A call that is not interrupted does what \<open>getLocalId\<close> does.\<close>

lemma generateUUID_Inr: "\<exists>s w'. generateUUID e w = (Inr s, w')"
  by (simp add: generateUUID_def split: option.splits prod.splits)

lemma getLocalId_steps:
  assumes "id_next e Reading w = (pc, w1)" and "id_next e pc w1 = (pc', w2)"
  shows "\<exists>u. pc' = Resolved u \<and> getLocalId e w = (Inr u, w2)"
proof -
  obtain s w' where g: "generateUUID e w = (Inr s, w')" using generateUUID_Inr by blast
  with assms show ?thesis by (auto simp: getLocalId_def eff split: if_splits)
qed

section \<open>With a stored id\<close>

definition id_known :: "string \<Rightarrow> id_pc list \<times> 'w ident_scheme \<Rightarrow> bool" where
  "id_known s c = (case c of (cs, w) \<Rightarrow> s \<noteq> '''' \<and> localId w = Some s \<and> list_all (\<lambda>pc. pc \<in> {Reading, Resolved s}) cs)"

text \<open>
  Without one: a stored id is one that was stored before or that a call has resolved with, and
  every id generated is used.
\<close>

fun pc_id :: "id_pc \<Rightarrow> string option" where
  "pc_id Reading = None"
| "pc_id (Writing u) = Some u"
| "pc_id (Resolved u) = Some u"

definition id_fresh :: "id_pc list \<times> 'w ident_scheme \<Rightarrow> bool" where
  "id_fresh c = (case c of (cs, w) \<Rightarrow>
     (localId w = None \<longrightarrow> (\<forall>u. Resolved u \<notin> set cs)) \<and>
     (\<forall>s. localId w = Some s \<longrightarrow> Resolved s \<in> set cs) \<and>
     (\<forall>pc \<in> set cs. pc_id pc \<noteq> Some []))"

lemma generateUUID_localId: "generateUUID e w = (r, w') \<Longrightarrow> localId w' = localId w"
  by (auto simp: generateUUID_def split: option.splits prod.splits)

interpretation known_ids: step_system "id_step e" "id_known s" for e s
proof unfold_locales
  fix c c' :: "id_pc list \<times> 'w ident_scheme"
  assume "id_step e c c'" and "id_known s c"
  then show "id_known s c'"
  proof cases
    case (go i cs w pc w')
    with \<open>id_known s c\<close> have "cs ! i = Reading" by (auto simp: id_known_def list_all_length)
    with go \<open>id_known s c\<close> show ?thesis
      by (auto simp: id_known_def list_all_iff dest!: set_update_subset_insert [THEN subsetD])
  qed (simp add: id_known_def)
qed

lemma id_fresh_update:
  assumes "id_fresh (cs, w)" and "i < length cs" and "\<forall>u. cs ! i \<noteq> Resolved u"
    and "id_next e (cs ! i) w = (pc, w')" and "nonempty_uuid e"
  shows "id_fresh (cs[i := pc], w')"
proof -
  note fresh = assms(1)[unfolded id_fresh_def prod.case]
  have other: "x = pc \<or> x \<in> set cs" if "x \<in> set (cs[i := pc])" for x
    using that set_update_subset_insert by fastforce
  have kept: "Resolved s \<in> set (cs[i := pc])" if "Resolved s \<in> set cs" for s
  proof -
    from that obtain j where "j < length cs" "cs ! j = Resolved s" by (auto simp: in_set_conv_nth)
    with assms(3) show ?thesis by (metis length_list_update nth_list_update_neq nth_mem)
  qed
  have new: "pc \<in> set (cs[i := pc])" using assms(2) by (rule set_update_memI)
  have named: "\<forall>x \<in> set (cs[i := pc]). pc_id x \<noteq> Some []" if "pc_id pc \<noteq> Some []"
    using that fresh other by blast
  show ?thesis
  proof (cases "cs ! i")
    case Reading
    show ?thesis
    proof (cases "localId w = None \<or> localId w = Some []")
      case True
      obtain u v where g: "generateUUID e w = (Inr u, v)" "u \<noteq> []"
        using generateUUID_resolves [OF assms(5)] .
      with Reading True assms(4) have r: "pc = Writing u" "w' = v" by auto
      have "Resolved x \<notin> set (cs[i := pc])" if "localId w = None" for x
        using that fresh other r by blast
      with named kept fresh r g generateUUID_localId [OF g(1)] show ?thesis
        by (simp add: id_fresh_def)
    next
      case False
      then obtain s where s: "localId w = Some s" "s \<noteq> []" by auto
      with Reading assms(4) have r: "pc = Resolved s" "w' = w" by auto
      with named kept fresh s show ?thesis by (simp add: id_fresh_def)
    qed
  next
    case (Writing u)
    with assms(4) have r: "pc = Resolved u" "w' = w\<lparr>localId := Some u\<rparr>" by auto
    have "Writing u \<in> set cs" using assms(2) Writing by (metis nth_mem)
    with fresh have "u \<noteq> []" by (metis pc_id.simps(2))
    with named new r show ?thesis by (simp add: id_fresh_def)
  next
    case (Resolved u)
    with assms(3) show ?thesis by simp
  qed
qed

interpretation fresh_ids: step_system "id_step e" "\<lambda>c. nonempty_uuid e \<and> id_fresh c" for e
proof unfold_locales
  fix c c' :: "id_pc list \<times> 'w ident_scheme"
  assume s: "id_step e c c'" and ok: "nonempty_uuid e \<and> id_fresh c"
  from s show "nonempty_uuid e \<and> id_fresh c'"
  proof cases
    case (go i cs w pc w')
    with ok show ?thesis by (auto intro: id_fresh_update)
  qed (use ok in \<open>auto simp: id_fresh_def\<close>)
qed

section \<open>Properties\<close>



text \<open>
  C37: two calls racing for the first id. The code does not mean this to happen, since the id is
  to be the user's for good: where no id is stored and two calls read before either writes, each
  generates an id and resolves with its own; the later write stays. Whoever asked first has an
  id that is never returned again.
\<close>

theorem first_id_race:
  assumes "localId w = None" and "randomUUID e = Some f"
    and "f (uuidCalls w) \<noteq> f (Suc (uuidCalls w))" and "f (Suc (uuidCalls w)) \<noteq> ''''"
  shows "\<exists>a b w'. rtranclp (id_step e) ([], w) ([Resolved a, Resolved b], w') \<and> a \<noteq> b \<and>
     localId w' = Some b \<and> getLocalId e w' = (Inr b, w')"
proof -
  let ?a = "f (uuidCalls w)" and ?b = "f (Suc (uuidCalls w))"
  let ?v = "w\<lparr>uuidCalls := Suc (Suc (uuidCalls w))\<rparr>"
  have c1: "id_step e ([], w) ([Reading], w)" using id_step.call [of e "[]" w] by simp
  have c2: "id_step e ([Reading], w) ([Reading, Reading], w)" using id_step.call [of e "[Reading]" w] by simp
  have r1: "id_step e ([Reading, Reading], w) ([Writing ?a, Reading], w\<lparr>uuidCalls := Suc (uuidCalls w)\<rparr>)"
    using id_step.go [of 0 "[Reading, Reading]" e w] assms(1,2) by (simp add: generateUUID_def)
  have r2: "id_step e ([Writing ?a, Reading], w\<lparr>uuidCalls := Suc (uuidCalls w)\<rparr>) ([Writing ?a, Writing ?b], ?v)"
    using id_step.go [of 1 "[Writing ?a, Reading]" e "w\<lparr>uuidCalls := Suc (uuidCalls w)\<rparr>"] assms(1,2)
    by (simp add: generateUUID_def)
  have w1: "id_step e ([Writing ?a, Writing ?b], ?v) ([Resolved ?a, Writing ?b], ?v\<lparr>localId := Some ?a\<rparr>)"
    using id_step.go [of 0 "[Writing ?a, Writing ?b]" e ?v] by simp
  have w2: "id_step e ([Resolved ?a, Writing ?b], ?v\<lparr>localId := Some ?a\<rparr>) ([Resolved ?a, Resolved ?b], ?v\<lparr>localId := Some ?b\<rparr>)"
    using id_step.go [of 1 "[Resolved ?a, Writing ?b]" e "?v\<lparr>localId := Some ?a\<rparr>"] by simp
  have "rtranclp (id_step e) ([], w) ([Resolved ?a, Resolved ?b], ?v\<lparr>localId := Some ?b\<rparr>)"
    by (intro known_ids.and_then [OF c1] known_ids.and_then [OF c2] known_ids.and_then [OF r1]
        known_ids.and_then [OF r2] known_ids.and_then [OF w1] known_ids.and_then [OF w2] known_ids.no_step)
  moreover have "getLocalId e (?v\<lparr>localId := Some ?b\<rparr>) = (Inr ?b, ?v\<lparr>localId := Some ?b\<rparr>)"
    using assms(4) by (intro getLocalId_known) simp_all
  moreover have "localId (?v\<lparr>localId := Some ?b\<rparr>) = Some ?b" by simp
  ultimately show ?thesis using assms(3) by blast
qed

theorem first_id_race_witness:
  "\<exists>a b w'. rtranclp (id_step (sample_ident_env\<lparr>randomUUID := Some (\<lambda>n. if n = 0 then ''a'' else ''b'')\<rparr>))
     ([], sample_ident) ([Resolved a, Resolved b], w') \<and> a \<noteq> b \<and> localId w' = Some b"
  using first_id_race [of sample_ident "sample_ident_env\<lparr>randomUUID := Some (\<lambda>n. if n = 0 then ''a'' else ''b'')\<rparr>"
      "\<lambda>n. if n = 0 then ''a'' else ''b''"]
  by (simp add: sample_ident_def idb.defs) blast

end
