(* ===== verification/Dom_Utils.thy ===== *)
theory Dom_Utils
  imports Cache Js_Std "HOL-Library.AList"
begin

text \<open>
  \<open>content/dom-utils.ts\<close>: which YouTube page this is, and which video each renderer element
  shows. The page is what the content scripts see of the browser: the location, the attached
  elements in document order (by handle), and for each element its tag, its attributes, its
  inline \<open>display\<close> style, the elements below it in document order and the anchors
  \<open>querySelector\<close> finds there. Parsing a URL is the
  browser's: \<open>newURL\<close> is \<open>new URL(url, window.location.origin)\<close>, None where it throws.
\<close>

section \<open>The page\<close>

record url_parts =
  pathname :: string
  searchParams :: "(string \<times> string) list"

text \<open>\<open>anchor sel\<close>: the href attribute of the first anchor below that matches the selector.\<close>

record node =
  tagName :: string
  anchor :: "string \<Rightarrow> string option option"
  attrs :: "(string \<times> string) list"
  display :: string
  descendants :: "nat list"

record page =
  location :: url_parts
  href :: string
  document :: "nat list"
  nodes :: "nat \<Rightarrow> node"

record page_env =
  newURL :: "string \<Rightarrow> url_parts option"

definition getAttribute :: "string \<Rightarrow> node \<Rightarrow> string option" where
  "getAttribute a n = map_of (attrs n) a"

definition setAttribute :: "string \<Rightarrow> string \<Rightarrow> node \<Rightarrow> node" where
  "setAttribute a v n = n\<lparr>attrs := AList.update a v (attrs n)\<rparr>"

definition removeAttribute :: "string \<Rightarrow> node \<Rightarrow> node" where
  "removeAttribute a n = n\<lparr>attrs := AList.delete a (attrs n)\<rparr>"

definition querySelectorAll :: "string list \<Rightarrow> 'w page_scheme \<Rightarrow> nat list" where
  "querySelectorAll tags w = filter (\<lambda>el. tagName (nodes w el) \<in> set tags) (document w)"

text \<open>JavaScript's Map: insertion order, \<open>set\<close> on an existing key keeps its place.\<close>

type_synonym video_map = "(string \<times> nat) list"

definition mapSet :: "string \<Rightarrow> nat \<Rightarrow> video_map \<Rightarrow> video_map" where
  "mapSet k el m = AList.update k el m"

section \<open>Page types\<close>

datatype PageType = Home | Search | Watch | Shorts | Channel | Unknown

definition detectPageType :: "'w page_scheme \<Rightarrow> PageType" where
  "detectPageType w =
     (let path = pathname (location w) in
      if path = ''/'' \<or> path = ''/feed/trending'' \<or> startsWith path ''/feed/'' then Home
      else if path = ''/results'' then Search
      else if path = ''/watch'' then Watch
      else if startsWith path ''/shorts/'' then Shorts
      else if startsWith path ''/@'' \<or> startsWith path ''/channel/'' \<or> startsWith path ''/c/'' then Channel
      else Unknown)"

text \<open>The selector of a page type: a comma-separated list of tag names.\<close>

definition feedTag :: string where "feedTag = ''ytd-rich-item-renderer''"
definition searchTag :: string where "searchTag = ''ytd-video-renderer''"
definition sidebarTag :: string where "sidebarTag = ''ytd-compact-video-renderer''"
definition shortsTag :: string where "shortsTag = ''ytd-reel-video-renderer''"
definition channelTag :: string where "channelTag = ''ytd-grid-video-renderer''"

definition getVideoRendererSelector :: "PageType \<Rightarrow> string list" where
  "getVideoRendererSelector p =
     (case p of
        Home \<Rightarrow> [feedTag, sidebarTag]
      | Search \<Rightarrow> [searchTag]
      | Watch \<Rightarrow> [sidebarTag]
      | Shorts \<Rightarrow> [shortsTag]
      | Channel \<Rightarrow> [channelTag, feedTag]
      | Unknown \<Rightarrow> [feedTag, searchTag, sidebarTag, shortsTag, channelTag])"

section \<open>Video ids\<close>

definition videoIdChars :: "char set" where
  "videoIdChars = set ''abcdefghijklmnopqrstuvwxyzABCDEFGHIJKLMNOPQRSTUVWXYZ0123456789_-''"

text \<open>The pattern \<open>^/shorts/([a-zA-Z0-9_-]{11})\<close>, not anchored at the end.\<close>

definition shortsMatch :: "string \<Rightarrow> string option" where
  "shortsMatch path =
     (let i = take 11 (drop 8 path) in
      if startsWith path ''/shorts/'' \<and> length i = 11 \<and> set i \<subseteq> videoIdChars then Some i else None)"

definition extractVideoIdFromUrl :: "'e page_env_scheme \<Rightarrow> string \<Rightarrow> string option" where
  "extractVideoIdFromUrl e url =
     (case newURL e url of
        None \<Rightarrow> None
      | Some parsed \<Rightarrow>
          if pathname parsed = ''/watch'' then map_of (searchParams parsed) ''v''
          else shortsMatch (pathname parsed))"

text \<open>The argument is the anchor's href attribute.\<close>

definition extractVideoIdFromLink :: "'e page_env_scheme \<Rightarrow> string option \<Rightarrow> string option" where
  "extractVideoIdFromLink e h = (if truthy h then extractVideoIdFromUrl e (the h) else None)"

definition THUMB_SELECTOR :: string where
  "THUMB_SELECTOR = ''a#thumbnail, a.ytd-thumbnail, a[href*='/watch?v='], a[href*='/shorts/']''"

definition TITLE_SELECTOR :: string where
  "TITLE_SELECTOR = ''a#video-title, a#video-title-link''"

definition linkId :: "'e page_env_scheme \<Rightarrow> string \<Rightarrow> node \<Rightarrow> string option" where
  "linkId e sel n = (case anchor n sel of None \<Rightarrow> None | Some h \<Rightarrow> extractVideoIdFromLink e h)"

definition extractVideoIdFromRenderer :: "'e page_env_scheme \<Rightarrow> node \<Rightarrow> string option" where
  "extractVideoIdFromRenderer e n =
     (if truthy (linkId e THUMB_SELECTOR n) then linkId e THUMB_SELECTOR n
      else if truthy (linkId e TITLE_SELECTOR n) then linkId e TITLE_SELECTOR n
      else None)"

text \<open>Collecting the ids of a list of elements, as the loops of the module do.\<close>

definition collectIds :: "(node \<Rightarrow> string option) \<Rightarrow> 'w page_scheme \<Rightarrow> nat list \<Rightarrow> video_map \<Rightarrow> video_map" where
  "collectIds idOf w els m =
     fold (\<lambda>el m. if truthy (idOf (nodes w el)) then mapSet (the (idOf (nodes w el))) el m else m) els m"

definition extractAllVideoIds :: "'e page_env_scheme \<Rightarrow> PageType \<Rightarrow> 'w page_scheme \<Rightarrow> video_map" where
  "extractAllVideoIds e p w =
     collectIds (extractVideoIdFromRenderer e) w (querySelectorAll (getVideoRendererSelector p) w) []"

text \<open>
  An added node of a mutation: whether it is an HTML element, and its handle. Elements are looked
  at in the order the code does: the node itself, then its descendants, as they are when the
  mutations are looked at.
\<close>

record added_node =
  isElement :: bool
  handle :: nat

type_synonym mutation = "added_node list"

definition addedElements :: "string list \<Rightarrow> 'w page_scheme \<Rightarrow> mutation list \<Rightarrow> nat list" where
  "addedElements tags w ms =
     filter (\<lambda>el. tagName (nodes w el) \<in> set tags)
       (concat (map (\<lambda>n. handle n # descendants (nodes w (handle n))) (filter isElement (concat ms))))"

definition extractVideoIdsFromMutations :: "'e page_env_scheme \<Rightarrow> mutation list \<Rightarrow> PageType \<Rightarrow> 'w page_scheme \<Rightarrow> video_map" where
  "extractVideoIdsFromMutations e ms p w =
     collectIds (extractVideoIdFromRenderer e) w (addedElements (getVideoRendererSelector p) w ms) []"

definition getCurrentWatchVideoId :: "'e page_env_scheme \<Rightarrow> 'w page_scheme \<Rightarrow> string option" where
  "getCurrentWatchVideoId e w = extractVideoIdFromUrl e (href w)"

section \<open>Facts\<close>

lemma map_of_mapSet: "map_of (mapSet k el m) = (map_of m)(k \<mapsto> el)"
  by (simp add: mapSet_def update_conv')

lemma distinct_mapSet: "distinct (map fst m) \<Longrightarrow> distinct (map fst (mapSet k el m))"
  by (simp add: mapSet_def distinct_update)

lemma getAttribute_simps [simp]:
  "getAttribute a (setAttribute a v n) = Some v"
  "getAttribute a (removeAttribute a n) = None"
  "getAttribute a (n\<lparr>display := d\<rparr>) = getAttribute a n"
  "display (setAttribute a v n) = display n" "display (removeAttribute a n) = display n"
  "tagName (setAttribute a v n) = tagName n" "anchor (setAttribute a v n) = anchor n"
  by (simp_all add: getAttribute_def setAttribute_def removeAttribute_def update_conv' delete_conv')

lemma collectIds_cong: "nodes w' = nodes w \<Longrightarrow> collectIds idOf w' els m = collectIds idOf w els m"
  by (simp add: collectIds_def cong: if_cong)

lemma collectIds_distinct: "distinct (map fst m) \<Longrightarrow> distinct (map fst (collectIds idOf w els m))"
  unfolding collectIds_def by (induction els arbitrary: m) (auto simp: distinct_mapSet)

text \<open>Every entry of the map is an element of the list with the id of that element.\<close>

lemma collectIds_sound:
  assumes "map_of (collectIds idOf w els m) k = Some el" "map_of m k = None"
  shows "el \<in> set els \<and> idOf (nodes w el) = Some k \<and> k \<noteq> ''''"
proof -
  have "map_of (collectIds idOf w els m) k = Some el \<longrightarrow>
     map_of m k = Some el \<or> (el \<in> set els \<and> idOf (nodes w el) = Some k \<and> k \<noteq> '''')"
    unfolding collectIds_def
  proof (induction els arbitrary: m)
    case (Cons x xs)
    show ?case
      using Cons.IH [of "if truthy (idOf (nodes w x)) then mapSet (the (idOf (nodes w x))) x m else m"]
      by (auto simp: map_of_mapSet truthy_def split: if_splits)
  qed simp
  with assms show ?thesis by simp
qed

text \<open>Every element with an id is in the map, under its id, or a later one with the same id is.\<close>

lemma collectIds_complete:
  "el \<in> set els \<Longrightarrow> idOf (nodes w el) = Some k \<Longrightarrow> k \<noteq> '''' \<Longrightarrow> \<exists>el'. map_of (collectIds idOf w els m) k = Some el'"
proof -
  have mono: "map_of m k \<noteq> None \<Longrightarrow> map_of (collectIds idOf w els m) k \<noteq> None" for els m
    unfolding collectIds_def by (induction els arbitrary: m) (auto simp: map_of_mapSet)
  have step: "collectIds idOf w (x # xs) m =
      collectIds idOf w xs (if truthy (idOf (nodes w x)) then mapSet (the (idOf (nodes w x))) x m else m)" for x xs m
    by (simp add: collectIds_def)
  show "el \<in> set els \<Longrightarrow> idOf (nodes w el) = Some k \<Longrightarrow> k \<noteq> '''' \<Longrightarrow> ?thesis"
  proof (induction els arbitrary: m)
    case (Cons x xs)
    show ?case
    proof (cases "x = el")
      case True
      with Cons.prems mono [of "mapSet k el m" xs] show ?thesis
        by (simp add: step truthy_def map_of_mapSet)
    next
      case False
      with Cons show ?thesis by (simp add: step)
    qed
  qed simp
qed

lemma shortsMatch_shape: "shortsMatch path = Some i \<Longrightarrow> length i = 11 \<and> set i \<subseteq> videoIdChars \<and> startsWith path (''/shorts/'' @ i)"
proof -
  assume m: "shortsMatch path = Some i"
  then have i: "startsWith path ''/shorts/''" "i = take 11 (drop 8 path)" "length i = 11" "set i \<subseteq> videoIdChars"
    by (auto simp: shortsMatch_def Let_def split: if_splits)
  from i(1) obtain t where "path = ''/shorts/'' @ t" by (auto simp: startsWith_iff)
  with i show ?thesis by (simp add: startsWith_def)
qed

end
