(* ===== verification/Hide.thy ===== *)
theory Hide
  imports Dom_Utils
begin

text \<open>
  \<open>content/hide.ts\<close>: asks the background worker about the videos on the page and hides the
  renderers of those whose score reaches the user's threshold. The worker's answer to
  \<open>CHECK_VIDEOS\<close> is the environment's (\<open>checkReply\<close>, which may depend on the checks sent
  before): it rejects, or gives no list of videos (None), or gives one. The threshold is the
  stored setting \<open>hideThreshold\<close>.
\<close>

record tab = page +
  hideThresholdItem :: "rat option"
  checksSent :: "string list list"

record tab_env = page_env +
  checkReply :: "string list list \<Rightarrow> string list \<Rightarrow> js_error + CachedVideo list option"

definition HIDDEN_ATTR :: string where
  "HIDDEN_ATTR = ''data-realtube-hidden''"

definition DEFAULT_THRESHOLD :: rat where
  "DEFAULT_THRESHOLD = 50"

definition getThreshold :: "'w tab_scheme \<Rightarrow> rat" where
  "getThreshold w = (case hideThresholdItem w of None \<Rightarrow> DEFAULT_THRESHOLD | Some t \<Rightarrow> t)"

section \<open>Hiding one element\<close>

definition hideElement :: "node \<Rightarrow> node" where
  "hideElement n =
     (if truthy (getAttribute HIDDEN_ATTR n) then n
      else setAttribute HIDDEN_ATTR ''true'' (n\<lparr>display := ''none''\<rparr>))"

definition unhideElement :: "node \<Rightarrow> node" where
  "unhideElement n =
     (if \<not> truthy (getAttribute HIDDEN_ATTR n) then n
      else removeAttribute HIDDEN_ATTR (n\<lparr>display := ''''\<rparr>))"

definition isHidden :: "node \<Rightarrow> bool" where
  "isHidden n = truthy (getAttribute HIDDEN_ATTR n)"

text \<open>
  What hiding an element is, for \<open>hideElement\<close> here and \<open>hideShort\<close> in \<open>shorts.ts\<close>: the
  element is marked and not displayed, what is marked is left alone, the video it shows is the
  same.
\<close>

locale element_hider =
  fixes hide :: "node \<Rightarrow> node"
  assumes hides: "isHidden (hide n)"
    and hidden_same: "isHidden n \<Longrightarrow> hide n = n"
    and not_displayed: "\<not> isHidden n \<Longrightarrow> display (hide n) = ''none''"
    and same_tag: "tagName (hide n) = tagName n"
    and same_anchors: "anchor (hide n) = anchor n"
begin

lemma hide_idem: "hide (hide n) = hide n"
  by (simp add: hidden_same hides)

definition marked_ok :: "node \<Rightarrow> bool" where
  "marked_ok n \<longleftrightarrow> (isHidden n \<longrightarrow> display n = ''none'')"

lemma marked_hide: "marked_ok n \<Longrightarrow> marked_ok (hide n)"
  unfolding marked_ok_def using hidden_same not_displayed by metis

lemma same_video: "extractVideoIdFromRenderer e (hide n) = extractVideoIdFromRenderer e n"
  by (simp add: extractVideoIdFromRenderer_def linkId_def same_anchors)

text \<open>Hiding the elements of a list, in any order and however often, hides exactly those.\<close>

lemma hide_all:
  "fold (\<lambda>el f. f(el := hide (f el))) els f el = (if el \<in> set els then hide (f el) else f el)"
  by (induction els arbitrary: f) (auto simp: hide_idem)

end

interpretation hider: element_hider hideElement
  by unfold_locales (auto simp: hideElement_def isHidden_def truthy_def)

section \<open>Checking a batch\<close>

definition sendCheck :: "'e tab_env_scheme \<Rightarrow> string list \<Rightarrow> ('w tab_scheme, CachedVideo list option) eff" where
  "sendCheck e ids w = (checkReply e (checksSent w) ids, w\<lparr>checksSent := checksSent w @ [ids]\<rparr>)"

definition hideFlagged :: "rat \<Rightarrow> video_map \<Rightarrow> CachedVideo \<Rightarrow> 'w page_scheme \<Rightarrow> 'w page_scheme" where
  "hideFlagged threshold m video w =
     (if threshold \<le> CachedVideo.score video
      then (case map_of m (CachedVideo.videoId video) of
              None \<Rightarrow> w
            | Some el \<Rightarrow> w\<lparr>nodes := (nodes w)(el := hideElement (nodes w el))\<rparr>)
      else w)"

text \<open>What is done with the answer.\<close>

definition hideResume :: "video_map \<Rightarrow> CachedVideo list option \<Rightarrow> ('w tab_scheme, unit) eff" where
  "hideResume m response =
     (case response of
        None \<Rightarrow> retE ()
      | Some flaggedVideos \<Rightarrow>
          bindE (getE getThreshold) (\<lambda>threshold. modE (fold (hideFlagged threshold m) flaggedVideos)))"

definition checkAndHideVideos :: "'e tab_env_scheme \<Rightarrow> video_map \<Rightarrow> ('w tab_scheme, unit) eff" where
  "checkAndHideVideos e m =
     (if m = [] then retE ()
      else catchE (bindE (sendCheck e (map fst m)) (hideResume m)) (\<lambda>err. retE ()))"

definition getHiddenCount :: "'w page_scheme \<Rightarrow> nat" where
  "getHiddenCount w = length (filter (\<lambda>el. getAttribute HIDDEN_ATTR (nodes w el) \<noteq> None) (document w))"

section \<open>What a check does\<close>

text \<open>The elements a list of records flags, in order.\<close>

definition flagged :: "rat \<Rightarrow> video_map \<Rightarrow> CachedVideo list \<Rightarrow> nat list" where
  "flagged threshold m vs =
     List.map_filter (\<lambda>v. if threshold \<le> CachedVideo.score v then map_of m (CachedVideo.videoId v) else None) vs"

definition hideAt :: "nat \<Rightarrow> (nat \<Rightarrow> node) \<Rightarrow> nat \<Rightarrow> node" where
  "hideAt el f = f(el := hideElement (f el))"

lemma fold_hideAt: "fold hideAt els f el = (if el \<in> set els then hideElement (f el) else f el)"
  using hider.hide_all [of els f el] by (simp add: hideAt_def [abs_def])

lemma hideFlagged_eq:
  "hideFlagged threshold m v w =
     (case (if threshold \<le> CachedVideo.score v then map_of m (CachedVideo.videoId v) else None) of
        None \<Rightarrow> w | Some el \<Rightarrow> w\<lparr>nodes := hideAt el (nodes w)\<rparr>)"
  by (simp add: hideFlagged_def hideAt_def split: option.split)

lemma hideFlagged_all:
  "fold (hideFlagged threshold m) vs w = w\<lparr>nodes := fold hideAt (flagged threshold m vs) (nodes w)\<rparr>"
proof (induction vs arbitrary: w)
  case (Cons v vs)
  then show ?case
    by (simp add: hideFlagged_eq flagged_def map_filter_simps split: option.splits)
qed (simp add: flagged_def map_filter_simps)

lemma set_flagged:
  "el \<in> set (flagged threshold m vs) \<longleftrightarrow>
     (\<exists>v \<in> set vs. threshold \<le> CachedVideo.score v \<and> map_of m (CachedVideo.videoId v) = Some el)"
  by (force simp: flagged_def List.map_filter_def image_iff split: if_splits)

text \<open>The videos a check is answered with; a failed check has none.\<close>

definition replied :: "'e tab_env_scheme \<Rightarrow> 'w tab_scheme \<Rightarrow> video_map \<Rightarrow> CachedVideo list" where
  "replied e w m = (if m = [] then [] else
     case checkReply e (checksSent w) (map fst m) of Inr (Some vs) \<Rightarrow> vs | _ \<Rightarrow> [])"

lemma checkAndHideVideos_eq:
  "checkAndHideVideos e m w =
     (Inr (), w\<lparr>checksSent := checksSent w @ (if m = [] then [] else [map fst m]),
        nodes := fold hideAt (flagged (getThreshold w) m (replied e w m)) (nodes w)\<rparr>)"
  by (auto simp: checkAndHideVideos_def hideResume_def sendCheck_def eff hideFlagged_all getThreshold_def replied_def
      flagged_def map_filter_simps split: sum.splits option.splits)

definition sample_node :: "string \<Rightarrow> string \<Rightarrow> node" where
  "sample_node t vid = \<lparr>tagName = t, anchor = (\<lambda>_. Some (Some vid)), attrs = [], display = '''', descendants = []\<rparr>"

definition sample_tab_env :: "(string list list \<Rightarrow> string list \<Rightarrow> js_error + CachedVideo list option) \<Rightarrow> tab_env" where
  "sample_tab_env f = \<lparr>newURL = (\<lambda>u. Some \<lparr>pathname = ''/watch'', searchParams = [(''v'', u)]\<rparr>), checkReply = f\<rparr>"

definition sample_tab :: tab where
  "sample_tab = \<lparr>location = \<lparr>pathname = ''/'', searchParams = []\<rparr>, href = '''', document = [0, 1],
     nodes = (\<lambda>n. sample_node feedTag (if n = 0 then ''v0'' else ''v1'')), hideThresholdItem = None, checksSent = []\<rparr>"

text \<open>
  C21: checking the page. It never fails; it asks the worker once, about exactly the videos of
  the map, or not at all when there are none; afterwards an element is hidden exactly when it
  was before or the worker's answer has a record of its video whose score is at least the
  threshold; hidden elements are not displayed; every other element is untouched. In
  particular nothing hidden is ever shown again: no later check, whatever its answer, unhides
  an element, not even one YouTube reuses for another video.
\<close>

theorem checkAndHide_spec:
  "\<exists>w'. checkAndHideVideos e m w = (Inr (), w') \<and>
     checksSent w' = checksSent w @ (if m = [] then [] else [map fst m]) \<and>
     (\<forall>el. isHidden (nodes w' el) \<longleftrightarrow> isHidden (nodes w el) \<or>
        (\<exists>v \<in> set (replied e w m). getThreshold w \<le> CachedVideo.score v \<and> map_of m (CachedVideo.videoId v) = Some el)) \<and>
     (\<forall>el. isHidden (nodes w' el) = isHidden (nodes w el) \<longrightarrow> nodes w' el = nodes w el) \<and>
     (\<forall>el. isHidden (nodes w' el) \<and> \<not> isHidden (nodes w el) \<longrightarrow> display (nodes w' el) = ''none'')"
proof -
  let ?fl = "flagged (getThreshold w) m (replied e w m)"
  define w' where "w' = w\<lparr>checksSent := checksSent w @ (if m = [] then [] else [map fst m]),
        nodes := fold hideAt ?fl (nodes w)\<rparr>"
  have n: "nodes w' el = (if el \<in> set ?fl then hideElement (nodes w el) else nodes w el)" for el
    by (simp add: w'_def fold_hideAt)
  have "checkAndHideVideos e m w = (Inr (), w')"
    by (simp add: checkAndHideVideos_eq w'_def)
  moreover have "\<forall>el. isHidden (nodes w' el) \<longleftrightarrow> isHidden (nodes w el) \<or> el \<in> set ?fl"
    using hider.hides by (auto simp: n)
  moreover have "\<forall>el. isHidden (nodes w' el) = isHidden (nodes w el) \<longrightarrow> nodes w' el = nodes w el"
    using hider.hides hider.hidden_same by (metis n)
  moreover have "\<forall>el. isHidden (nodes w' el) \<and> \<not> isHidden (nodes w el) \<longrightarrow> display (nodes w' el) = ''none''"
    using hider.not_displayed by (simp add: n)
  ultimately show ?thesis
    by (intro exI [of _ w']) (simp add: set_flagged w'_def)
qed

theorem checkAndHide_spec_witness:
  "isHidden (nodes (snd (checkAndHideVideos (sample_tab_env (\<lambda>_ _. Inr (Some [sample_video ''v1'' 75])))
     [(''v0'', 0), (''v1'', 1)] sample_tab)) 1)"
  using checkAndHide_spec [of "sample_tab_env (\<lambda>_ _. Inr (Some [sample_video ''v1'' 75]))" "[(''v0'', 0), (''v1'', 1)]" sample_tab]
  by (auto simp: replied_def sample_tab_env_def sample_tab_def getThreshold_def DEFAULT_THRESHOLD_def sample_video_def)

end
