(* ===== verification/Shorts.thy ===== *)
theory Shorts
  imports Hide
begin

text \<open>
  \<open>content/shorts.ts\<close>: on a Shorts page the video that plays is the one the URL names; if the
  worker flags it, the script clicks on to the next one, and marks the renderer so that it
  does so once. The state adds what the module sees of the player (is there a next button, is
  there a scroll container) and a log of what it did to it; \<open>navWatch\<close> is the URL the polling
  watcher last saw, None while no watcher runs.
\<close>

datatype skip_action = ClickNext | ScrollNext

record shorts_tab = tab +
  nextButton :: bool
  shortsContainer :: bool
  skipLog :: "skip_action list"
  navWatch :: "string option"

definition SKIP_ATTR :: string where
  "SKIP_ATTR = ''data-realtube-skipped''"

definition isShortsPage :: "'w page_scheme \<Rightarrow> bool" where
  "isShortsPage w = startsWith (pathname (location w)) ''/shorts/''"

definition getCurrentShortVideoId :: "'e page_env_scheme \<Rightarrow> 'w page_scheme \<Rightarrow> string option" where
  "getCurrentShortVideoId e w = extractVideoIdFromUrl e (href w)"

text \<open>An anchor's \<open>href\<close> property is the empty string when it has no href attribute.\<close>

definition hrefId :: "'e page_env_scheme \<Rightarrow> string \<Rightarrow> node \<Rightarrow> string option" where
  "hrefId e sel n =
     (case anchor n sel of None \<Rightarrow> None
      | Some h \<Rightarrow> extractVideoIdFromUrl e (case h of None \<Rightarrow> '''' | Some u \<Rightarrow> u))"

definition extractVideoIdFromShort :: "'e page_env_scheme \<Rightarrow> node \<Rightarrow> string option" where
  "extractVideoIdFromShort e n =
     (if truthy (hrefId e ''a[href*=\"/shorts/\"]'' n) then hrefId e ''a[href*=\"/shorts/\"]'' n
      else if truthy (hrefId e ''a[href*=\"/watch?v=\"]'' n) then hrefId e ''a[href*=\"/watch?v=\"]'' n
      else if truthy (getAttribute ''video-id'' n) then getAttribute ''video-id'' n
      else if truthy (getAttribute ''data-video-id'' n) then getAttribute ''data-video-id'' n
      else None)"

definition extractShortsVideoIds :: "'e page_env_scheme \<Rightarrow> 'w page_scheme \<Rightarrow> video_map" where
  "extractShortsVideoIds e w =
     collectIds (extractVideoIdFromShort e) w (querySelectorAll [shortsTag] w) []"

definition hideShort :: "node \<Rightarrow> node" where
  "hideShort n =
     (if truthy (getAttribute HIDDEN_ATTR n) then n
      else setAttribute HIDDEN_ATTR ''true'' (n\<lparr>display := ''none''\<rparr>))"

interpretation short_hider: element_hider hideShort
  by unfold_locales (auto simp: hideShort_def isHidden_def truthy_def)

definition skipToNextShort :: "'w shorts_tab_scheme \<Rightarrow> 'w shorts_tab_scheme" where
  "skipToNextShort w =
     (if nextButton w then w\<lparr>skipLog := skipLog w @ [ClickNext]\<rparr>
      else if shortsContainer w then w\<lparr>skipLog := skipLog w @ [ScrollNext]\<rparr>
      else w)"

definition findRendererForCurrentShort :: "'e page_env_scheme \<Rightarrow> 'w page_scheme \<Rightarrow> nat option" where
  "findRendererForCurrentShort e w =
     (if \<not> truthy (getCurrentShortVideoId e w) then None
      else find (\<lambda>el. extractVideoIdFromShort e (nodes w el) = getCurrentShortVideoId e w)
             (querySelectorAll [shortsTag] w))"

definition markSkipped :: "nat option \<Rightarrow> 'w page_scheme \<Rightarrow> 'w page_scheme" where
  "markSkipped r w = (case r of None \<Rightarrow> w
     | Some el \<Rightarrow> w\<lparr>nodes := (nodes w)(el := setAttribute SKIP_ATTR ''true'' (nodes w el))\<rparr>)"

text \<open>The loop over the worker's answer; it returns at the first record that matches.\<close>

fun skipLoop :: "rat \<Rightarrow> string \<Rightarrow> nat option \<Rightarrow> CachedVideo list \<Rightarrow> 'w shorts_tab_scheme \<Rightarrow> 'w shorts_tab_scheme" where
  "skipLoop threshold vid r [] w = w"
| "skipLoop threshold vid r (v # vs) w =
     (if CachedVideo.videoId v = vid \<and> threshold \<le> CachedVideo.score v
      then skipToNextShort (markSkipped r w)
      else skipLoop threshold vid r vs w)"

text \<open>
  Before the await: the video and its renderer, None when there is nothing to check. After it:
  what is done with the answer, in the state the page is in by then.
\<close>

definition skipBegin :: "'e page_env_scheme \<Rightarrow> 'w page_scheme \<Rightarrow> (string \<times> nat option) option" where
  "skipBegin e w =
     (if \<not> truthy (getCurrentShortVideoId e w) then None
      else (let r = findRendererForCurrentShort e w in
        if (case r of None \<Rightarrow> False | Some el \<Rightarrow> truthy (getAttribute SKIP_ATTR (nodes w el))) then None
        else Some (the (getCurrentShortVideoId e w), r)))"

definition skipResume :: "string \<Rightarrow> nat option \<Rightarrow> CachedVideo list option \<Rightarrow> ('w shorts_tab_scheme, unit) eff" where
  "skipResume vid r response =
     (case response of
        None \<Rightarrow> retE ()
      | Some flaggedVideos \<Rightarrow>
          bindE (getE getThreshold) (\<lambda>threshold. modE (skipLoop threshold vid r flaggedVideos)))"

definition checkAndSkipCurrentShort :: "'e tab_env_scheme \<Rightarrow> ('w shorts_tab_scheme, unit) eff" where
  "checkAndSkipCurrentShort e =
     bindE (getE (skipBegin e)) (\<lambda>begun.
       case begun of
         None \<Rightarrow> retE ()
       | Some (vid, r) \<Rightarrow> catchE (bindE (sendCheck e [vid]) (skipResume vid r)) (\<lambda>err. retE ()))"

text \<open>The observer's callback, and one tick of the watcher.\<close>

definition onShortsMutations :: "'e page_env_scheme \<Rightarrow> (video_map \<Rightarrow> ('w page_scheme, unit) eff) \<Rightarrow> mutation list \<Rightarrow>
    ('w page_scheme, unit) eff" where
  "onShortsMutations e onNewShorts ms =
     bindE (getE (\<lambda>w. collectIds (extractVideoIdFromShort e) w (addedElements [shortsTag] w ms) [])) (\<lambda>newShorts.
       if newShorts \<noteq> [] then onNewShorts newShorts else retE ())"

definition watchShortsNavigation :: "'w shorts_tab_scheme \<Rightarrow> 'w shorts_tab_scheme" where
  "watchShortsNavigation w = w\<lparr>navWatch := Some (href w)\<rparr>"

definition stopShortsNavWatch :: "'w shorts_tab_scheme \<Rightarrow> 'w shorts_tab_scheme" where
  "stopShortsNavWatch w = w\<lparr>navWatch := None\<rparr>"

definition navTick :: "('w shorts_tab_scheme, unit) eff \<Rightarrow> ('w shorts_tab_scheme, unit) eff" where
  "navTick callback =
     bindE (getE (\<lambda>w. (navWatch w, href w))) (\<lambda>(watch, now).
       if watch \<noteq> None \<and> watch \<noteq> Some now
       then bindE (modE (\<lambda>w. w\<lparr>navWatch := Some now\<rparr>)) (\<lambda>_.
              bindE (getE isShortsPage) (\<lambda>onShorts. if onShorts then callback else retE ()))
       else retE ())"

section \<open>What a check does\<close>

definition flagsVideo :: "rat \<Rightarrow> string \<Rightarrow> CachedVideo list \<Rightarrow> bool" where
  "flagsVideo threshold vid vs = (\<exists>v \<in> set vs. CachedVideo.videoId v = vid \<and> threshold \<le> CachedVideo.score v)"

lemma skipLoop_eq:
  "skipLoop threshold vid r vs w =
     (if flagsVideo threshold vid vs then skipToNextShort (markSkipped r w) else w)"
  by (induction vs) (auto simp: flagsVideo_def)

definition skipReply :: "'e tab_env_scheme \<Rightarrow> 'w tab_scheme \<Rightarrow> string \<Rightarrow> CachedVideo list" where
  "skipReply e w vid = (case checkReply e (checksSent w) [vid] of Inr (Some vs) \<Rightarrow> vs | _ \<Rightarrow> [])"

lemma checkAndSkip_eq:
  "checkAndSkipCurrentShort e w =
     (Inr (), case skipBegin e w of None \<Rightarrow> w
       | Some (vid, r) \<Rightarrow>
           (let w1 = w\<lparr>checksSent := checksSent w @ [[vid]]\<rparr> in
            if flagsVideo (getThreshold w) vid (skipReply e w vid) then skipToNextShort (markSkipped r w1) else w1))"
  by (auto simp: checkAndSkipCurrentShort_def skipResume_def sendCheck_def eff skipLoop_eq getThreshold_def
      skipReply_def flagsVideo_def Let_def split: option.splits sum.splits prod.splits)

lemma skip_nodes [simp]: "nodes (skipToNextShort w) = nodes w" "location (skipToNextShort w) = location w"
  "href (skipToNextShort w) = href w" "document (skipToNextShort w) = document w"
  by (simp_all add: skipToNextShort_def)

lemma extractVideoIdFromShort_mark [simp]:
  "extractVideoIdFromShort e (setAttribute SKIP_ATTR v n) = extractVideoIdFromShort e n"
  by (simp add: extractVideoIdFromShort_def hrefId_def setAttribute_def getAttribute_def update_conv' SKIP_ATTR_def)


definition sample_shorts :: shorts_tab where
  "sample_shorts = \<lparr>location = \<lparr>pathname = ''/shorts/abcdefghijk'', searchParams = []\<rparr>, href = ''abcdefghijk'',
     document = [0], nodes = (\<lambda>_. sample_node shortsTag ''abcdefghijk''), hideThresholdItem = None, checksSent = [],
     nextButton = True, shortsContainer = True, skipLog = [], navWatch = None\<rparr>"


end
