(* ===== verification/Vote_Ui.thy ===== *)
theory Vote_Ui
  imports Shorts
begin

text \<open>
  \<open>content/vote-ui.ts\<close>: the vote button and its dropdown. The state is the module's variables
  and, of the DOM it builds, what later code reads or the user can act on: which view the
  dropdown shows, which option is highlighted, whether its vote button is enabled. Timers of
  the module that are pending are counted (\<open>closeTimers\<close>, \<open>injectTimers\<close>), votes sent are
  logged. Styling is not modelled, nor the check mark in front of the success messages.
  \<open>containerEl\<close> is the container, with whether it is attached to the page; \<open>actionBar\<close> and
  \<open>shortsActionBar\<close> say whether the page has the bars the two finders look for.
\<close>

section \<open>State\<close>

text \<open>
  \<open>Choosing h v s\<close>: the options, \<open>h\<close> highlighted, the vote button enabled when \<open>v\<close>, its
  spinner shown when \<open>s\<close>. \<open>Feedback ok msg\<close>: the message that replaces them.
\<close>

datatype dropdown = Choosing "string option" bool bool | Feedback bool string

record vote_ui = shorts_tab +
  containerEl :: "bool option"
  buttonEl :: bool
  dropdownEl :: "dropdown option"
  selectedCategory :: "string option"
  isSubmitting :: bool
  outsideListeners :: bool
  closeTimers :: nat
  injectTimers :: nat
  actionBar :: bool
  shortsActionBar :: bool
  containerShorts :: bool
  dropdownShorts :: bool
  votesSent :: "(string \<times> string) list"
  inFlight :: nat

text \<open>A category's identifier, label and icon (its code point).\<close>

definition CATEGORIES :: "(string \<times> string \<times> nat) list" where
  "CATEGORIES =
     [(''fully_ai'', ''Fully AI'', 0x2B22), (''ai_voiceover'', ''AI Voice'', 0x266A),
      (''ai_visuals'', ''AI Visuals'', 0x25C6), (''ai_thumbnails'', ''AI Thumbnail'', 0x25A3),
      (''ai_assisted'', ''AI Assist'', 0x2726)]"

abbreviation "categoryIds \<equiv> map fst CATEGORIES"

definition getVideoId :: "'w page_scheme \<Rightarrow> string option" where
  "getVideoId w =
     (if truthy (map_of (searchParams (location w)) ''v'') then map_of (searchParams (location w)) ''v''
      else shortsMatch (pathname (location w)))"

section \<open>Dropdown lifecycle\<close>

definition openDropdown :: "'w vote_ui_scheme \<Rightarrow> 'w vote_ui_scheme" where
  "openDropdown w =
     (if dropdownEl w \<noteq> None \<or> containerEl w = None \<or> isSubmitting w then w
      else w\<lparr>selectedCategory := None, dropdownEl := Some (Choosing None False False),
             dropdownShorts := isShortsPage w, outsideListeners := True\<rparr>)"

definition closeDropdown :: "'w vote_ui_scheme \<Rightarrow> 'w vote_ui_scheme" where
  "closeDropdown w = w\<lparr>dropdownEl := None, selectedCategory := None, isSubmitting := False, outsideListeners := False\<rparr>"

definition onClickOutside :: "bool \<Rightarrow> 'w vote_ui_scheme \<Rightarrow> 'w vote_ui_scheme" where
  "onClickOutside inside w = (if containerEl w \<noteq> None \<and> \<not> inside then closeDropdown w else w)"

definition onEscape :: "string \<Rightarrow> 'w vote_ui_scheme \<Rightarrow> 'w vote_ui_scheme" where
  "onEscape pressed w = (if pressed = ''Escape'' then closeDropdown w else w)"

definition selectCategory :: "string \<Rightarrow> 'w vote_ui_scheme \<Rightarrow> 'w vote_ui_scheme" where
  "selectCategory c w =
     (if isSubmitting w \<or> dropdownEl w = None then w
      else w\<lparr>selectedCategory := Some c,
             dropdownEl := (case dropdownEl w of Some (Choosing h v s) \<Rightarrow> Some (Choosing (Some c) True s) | d \<Rightarrow> d)\<rparr>)"

definition showFeedback :: "bool \<Rightarrow> string \<Rightarrow> 'w vote_ui_scheme \<Rightarrow> 'w vote_ui_scheme" where
  "showFeedback ok msg w =
     (if dropdownEl w = None then w
      else w\<lparr>dropdownEl := Some (Feedback ok msg), closeTimers := Suc (closeTimers w)\<rparr>)"

section \<open>Submitting\<close>

text \<open>What \<open>sendMessage\<close> gives: it rejects, or a response, of which \<open>undefined\<close> is one.\<close>

datatype vote_reply = Rejected | NoResponse | Response bool bool "string option"

definition submitBegin :: "'w vote_ui_scheme \<Rightarrow> 'w vote_ui_scheme" where
  "submitBegin w =
     (if \<not> truthy (selectedCategory w) \<or> isSubmitting w \<or> dropdownEl w = None then w
      else if \<not> truthy (getVideoId w) then showFeedback False ''Could not find video ID'' w
      else w\<lparr>isSubmitting := True,
             dropdownEl := (case dropdownEl w of Some (Choosing h v s) \<Rightarrow> Some (Choosing h False True) | d \<Rightarrow> d),
             votesSent := votesSent w @ [(the (getVideoId w), the (selectedCategory w))],
             inFlight := Suc (inFlight w)\<rparr>)"

definition submitEnd :: "vote_reply \<Rightarrow> 'w vote_ui_scheme \<Rightarrow> 'w vote_ui_scheme" where
  "submitEnd r w =
     (case r of
        Rejected \<Rightarrow> showFeedback False ''Vote failed'' w
      | NoResponse \<Rightarrow> showFeedback False ''Vote failed'' w
      | Response success queued err \<Rightarrow>
          if success then showFeedback True (if queued then ''Vote saved offline'' else ''Vote submitted'') w
          else showFeedback False (if truthy err then the err else ''Vote failed'') w)"

section \<open>The button\<close>

definition onButtonClick :: "'w vote_ui_scheme \<Rightarrow> 'w vote_ui_scheme" where
  "onButtonClick w = (if dropdownEl w \<noteq> None then closeDropdown w else openDropdown w)"

definition injectVoteButton :: "'w vote_ui_scheme \<Rightarrow> 'w vote_ui_scheme" where
  "injectVoteButton w =
     (if containerEl w = Some True then w
      else if \<not> truthy (getVideoId w) then w
      else if \<not> (if isShortsPage w then shortsActionBar w else actionBar w)
      then w\<lparr>injectTimers := Suc (injectTimers w)\<rparr>
      else w\<lparr>containerEl := Some True, containerShorts := isShortsPage w, buttonEl := True\<rparr>)"

definition removeVoteButton :: "'w vote_ui_scheme \<Rightarrow> 'w vote_ui_scheme" where
  "removeVoteButton w =
     (let w' = closeDropdown w in
      if containerEl w' \<noteq> None then w'\<lparr>containerEl := None, buttonEl := False\<rparr> else w')"

section \<open>The module as a transition system\<close>

text \<open>
  The user can only act on what is there: click the button, an option, the enabled vote button,
  elsewhere, or press a key while the dropdown listens. Answers arrive, timers fire, the page
  navigates, YouTube rebuilds its action bar (which can detach the container).
\<close>

inductive user_step :: "'w vote_ui_scheme \<Rightarrow> 'w vote_ui_scheme \<Rightarrow> bool" where
  button: "containerEl w \<noteq> None \<Longrightarrow> user_step w (onButtonClick w)"
| option: "dropdownEl w = Some (Choosing h v s) \<Longrightarrow> c \<in> set categoryIds \<Longrightarrow> user_step w (selectCategory c w)"
| vote: "dropdownEl w = Some (Choosing h True s) \<Longrightarrow> user_step w (submitBegin w)"
| reply: "0 < inFlight w \<Longrightarrow> user_step w (submitEnd r (w\<lparr>inFlight := inFlight w - 1\<rparr>))"
| autoClose: "0 < closeTimers w \<Longrightarrow> user_step w (closeDropdown (w\<lparr>closeTimers := closeTimers w - 1\<rparr>))"
| outside: "outsideListeners w \<Longrightarrow> user_step w (onClickOutside inside w)"
| key: "outsideListeners w \<Longrightarrow> user_step w (onEscape k w)"
| retryInject: "0 < injectTimers w \<Longrightarrow> user_step w (injectVoteButton (w\<lparr>injectTimers := injectTimers w - 1\<rparr>))"
| navigate: "user_step w (w\<lparr>location := l, href := u\<rparr>)"
| rebuilt: "user_step w (w\<lparr>actionBar := b, shortsActionBar := b', containerEl := map_option (\<lambda>_. attached) (containerEl w)\<rparr>)"

text \<open>The module under any use of its two exported functions.\<close>

inductive ui_step :: "'w vote_ui_scheme \<Rightarrow> 'w vote_ui_scheme \<Rightarrow> bool" where
  user: "user_step w w' \<Longrightarrow> ui_step w w'"
| inject: "ui_step w (injectVoteButton w)"
| remove: "ui_step w (removeVoteButton w)"

inductive_cases user_stepE: "user_step w w'"

text \<open>The module's variables and the dropdown agree.\<close>

fun view_ok :: "dropdown option \<Rightarrow> string option \<Rightarrow> bool \<Rightarrow> bool" where
  "view_ok (Some (Choosing h v s)) selected submitting =
     (h = selected \<and> s = submitting \<and> (v \<longleftrightarrow> selected \<noteq> None \<and> \<not> submitting))"
| "view_ok (Some (Feedback ok msg)) selected submitting = True"
| "view_ok None selected submitting = True"

definition ui_ok :: "'w vote_ui_scheme \<Rightarrow> bool" where
  "ui_ok w \<longleftrightarrow>
     (isSubmitting w \<longrightarrow> dropdownEl w \<noteq> None) \<and>
     (selectedCategory w \<noteq> None \<longrightarrow> dropdownEl w \<noteq> None) \<and>
     (dropdownEl w \<noteq> None \<longrightarrow> containerEl w \<noteq> None) \<and>
     (outsideListeners w \<longleftrightarrow> dropdownEl w \<noteq> None) \<and>
     (buttonEl w \<longleftrightarrow> containerEl w \<noteq> None) \<and>
     view_ok (dropdownEl w) (selectedCategory w) (isSubmitting w) \<and>
     (\<forall>c. selectedCategory w = Some c \<longrightarrow> c \<in> set categoryIds) \<and>
     (\<forall>(vid, c) \<in> set (votesSent w). vid \<noteq> '''' \<and> c \<in> set categoryIds)"

lemmas ui_ops = openDropdown_def closeDropdown_def onClickOutside_def onEscape_def selectCategory_def
  showFeedback_def submitBegin_def submitEnd_def onButtonClick_def injectVoteButton_def
  removeVoteButton_def Let_def

lemma ui_ok_indep [simp]:
  "ui_ok (w\<lparr>closeTimers := n\<rparr>) = ui_ok w" "ui_ok (w\<lparr>injectTimers := n\<rparr>) = ui_ok w"
  "ui_ok (w\<lparr>inFlight := n\<rparr>) = ui_ok w" "ui_ok (w\<lparr>location := l, href := u\<rparr>) = ui_ok w"
  by (simp_all add: ui_ok_def)

lemma closeDropdown_ok: "ui_ok w \<Longrightarrow> ui_ok (closeDropdown w)"
  by (simp add: ui_ok_def closeDropdown_def)

lemma openDropdown_ok: "ui_ok w \<Longrightarrow> ui_ok (openDropdown w)"
  by (auto simp: ui_ok_def openDropdown_def)

lemma selectCategory_ok: "ui_ok w \<Longrightarrow> c \<in> set categoryIds \<Longrightarrow> ui_ok (selectCategory c w)"
  by (auto simp: ui_ok_def selectCategory_def split: option.splits dropdown.splits)

lemma showFeedback_ok: "ui_ok w \<Longrightarrow> ui_ok (showFeedback ok msg w)"
  by (auto simp: ui_ok_def showFeedback_def)

lemma submitBegin_ok: "ui_ok w \<Longrightarrow> ui_ok (submitBegin w)"
proof (cases "\<not> truthy (selectedCategory w) \<or> isSubmitting w \<or> dropdownEl w = None \<or> \<not> truthy (getVideoId w)")
  case True
  assume "ui_ok w"
  with True show ?thesis by (auto simp: submitBegin_def showFeedback_ok)
next
  case False
  then obtain c vid d where got: "selectedCategory w = Some c" "getVideoId w = Some vid" "vid \<noteq> ''''"
      "\<not> isSubmitting w" "dropdownEl w = Some d"
    by (auto simp: truthy_iff)
  from False have go: "submitBegin w = w\<lparr>isSubmitting := True,
      dropdownEl := (case dropdownEl w of Some (Choosing h v s) \<Rightarrow> Some (Choosing h False True) | x \<Rightarrow> x),
      votesSent := votesSent w @ [(the (getVideoId w), the (selectedCategory w))], inFlight := Suc (inFlight w)\<rparr>"
    by (auto simp: submitBegin_def)
  assume "ui_ok w"
  with got show ?thesis unfolding go by (cases d) (simp_all add: ui_ok_def)
qed

lemma submitEnd_ok: "ui_ok w \<Longrightarrow> ui_ok (submitEnd r w)"
  by (simp add: submitEnd_def showFeedback_ok split: vote_reply.split)

lemma ui_ok_attach: "ui_ok w \<Longrightarrow> ui_ok (w\<lparr>containerEl := Some b, containerShorts := c, buttonEl := True\<rparr>)"
  by (simp add: ui_ok_def )

lemma injectVoteButton_ok: "ui_ok w \<Longrightarrow> ui_ok (injectVoteButton w)"
  by (simp add: injectVoteButton_def ui_ok_attach)

lemma removeVoteButton_ok: "ui_ok w \<Longrightarrow> ui_ok (removeVoteButton w)"
  by (simp add: ui_ok_def removeVoteButton_def closeDropdown_def Let_def)

lemma user_step_ok: "user_step w w' \<Longrightarrow> ui_ok w \<Longrightarrow> ui_ok w'"
proof (induction rule: user_step.induct)
  case (rebuilt w b b' attached)
  then show ?case by (auto simp: ui_ok_def)
next
  case (option w h v s c)
  then show ?case by (blast intro: selectCategory_ok)
qed (auto simp: onButtonClick_def onClickOutside_def onEscape_def
    intro: closeDropdown_ok openDropdown_ok submitBegin_ok submitEnd_ok injectVoteButton_ok)

lemma ui_step_ok: "ui_step w w' \<Longrightarrow> ui_ok w \<Longrightarrow> ui_ok w'"
  by (induction rule: ui_step.induct) (auto intro: user_step_ok injectVoteButton_ok removeVoteButton_ok)

interpretation vote_system: step_system ui_step ui_ok
  by unfold_locales (rule ui_step_ok)

text \<open>The module as it is loaded.\<close>

definition fresh_ui :: "'w vote_ui_scheme \<Rightarrow> bool" where
  "fresh_ui w \<longleftrightarrow> containerEl w = None \<and> \<not> buttonEl w \<and> dropdownEl w = None \<and> selectedCategory w = None \<and>
     \<not> isSubmitting w \<and> \<not> outsideListeners w \<and> closeTimers w = 0 \<and> injectTimers w = 0 \<and>
     votesSent w = [] \<and> inFlight w = 0"

lemma fresh_ui_ok: "fresh_ui w \<Longrightarrow> ui_ok w"
  by (simp add: fresh_ui_def ui_ok_def)

definition sample_ui :: vote_ui where
  "sample_ui = shorts_tab.extend (sample_shorts\<lparr>location := \<lparr>pathname = ''/watch'', searchParams = [(''v'', ''abc'')]\<rparr>\<rparr>)
     \<lparr>containerEl = None, buttonEl = False, dropdownEl = None, selectedCategory = None, isSubmitting = False,
      outsideListeners = False, closeTimers = 0, injectTimers = 0,
      actionBar = True, shortsActionBar = True, containerShorts = False, dropdownShorts = False, votesSent = [], inFlight = 0\<rparr>"

lemma sample_ui_simps [simp]:
  "fresh_ui sample_ui" "getVideoId sample_ui = Some ''abc''" "actionBar sample_ui" "\<not> isShortsPage sample_ui"
  by (simp_all add: sample_ui_def shorts_tab.defs sample_shorts_def fresh_ui_def getVideoId_def truthy_def
      isShortsPage_def startsWith_def)

section \<open>Properties\<close>

text \<open>
  C10: the dropdown and the variables agree, in every state the user, the answers, the timers
  and YouTube's navigation can reach: a selection or a submission in progress exists only while
  the dropdown is open, the document listeners exist exactly then, the highlighted option is
  the selected one, the vote button can be clicked exactly when one is selected and no
  submission of this dropdown is in progress; and every vote ever sent names a video and one
  of the five categories.
\<close>

theorem vote_ui_invariant:
  assumes "fresh_ui w0" and "rtranclp ui_step w0 w"
  shows "(isSubmitting w \<or> selectedCategory w \<noteq> None \<longrightarrow> dropdownEl w \<noteq> None) \<and>
     (outsideListeners w \<longleftrightarrow> dropdownEl w \<noteq> None) \<and> (dropdownEl w \<noteq> None \<longrightarrow> containerEl w \<noteq> None) \<and>
     (\<forall>h v s. dropdownEl w = Some (Choosing h v s) \<longrightarrow>
        h = selectedCategory w \<and> (v \<longleftrightarrow> selectedCategory w \<noteq> None \<and> \<not> isSubmitting w)) \<and>
     (\<forall>(vid, c) \<in> set (votesSent w). vid \<noteq> '''' \<and>
        c \<in> {''fully_ai'', ''ai_voiceover'', ''ai_visuals'', ''ai_thumbnails'', ''ai_assisted''})"
proof -
  have ok: "ui_ok w" by (rule vote_system.steps_ok [OF assms(2) fresh_ui_ok [OF assms(1)]])
  then have "\<forall>h v s. dropdownEl w = Some (Choosing h v s) \<longrightarrow>
      h = selectedCategory w \<and> (v \<longleftrightarrow> selectedCategory w \<noteq> None \<and> \<not> isSubmitting w)"
    unfolding ui_ok_def by (metis view_ok.simps(1))
  moreover from ok have "\<forall>(vid, c) \<in> set (votesSent w). vid \<noteq> '''' \<and>
        c \<in> {''fully_ai'', ''ai_voiceover'', ''ai_visuals'', ''ai_thumbnails'', ''ai_assisted''}"
    unfolding ui_ok_def CATEGORIES_def by simp
  ultimately show ?thesis using ok unfolding ui_ok_def by blast
qed

theorem vote_ui_invariant_witness:
  "outsideListeners (openDropdown (injectVoteButton sample_ui)) \<and>
   dropdownEl (openDropdown (injectVoteButton sample_ui)) \<noteq> None"
proof -
  let ?w1 = "injectVoteButton sample_ui"
  have c: "containerEl ?w1 = Some True" "dropdownEl ?w1 = None" "\<not> isSubmitting ?w1"
    using sample_ui_simps by (auto simp: injectVoteButton_def truthy_def fresh_ui_def)
  have s1: "ui_step sample_ui ?w1" by (rule inject)
  have "ui_step ?w1 (onButtonClick ?w1)" by (rule user [OF button]) (simp add: c)
  then have s2: "ui_step ?w1 (openDropdown ?w1)" using c by (simp add: onButtonClick_def)
  have "rtranclp ui_step sample_ui (openDropdown ?w1)"
    by (rule vote_system.and_then [OF s1 vote_system.and_then [OF s2 vote_system.no_step]])
  from vote_ui_invariant [OF sample_ui_simps(1) this] c show ?thesis
    by (simp add: openDropdown_def)
qed

text \<open>
  A stale timer closes the wrong dropdown. The timer that closes the feedback after two
  seconds is never cancelled: when the user closes the feedback, opens the dropdown again and
  selects a category before it fires, it closes that dropdown and forgets the selection.
\<close>

theorem feedback_timer_closes_new_dropdown:
  assumes "0 < closeTimers w" and "containerEl w \<noteq> None" and "dropdownEl w = Some (Feedback ok msg)"
    and "c \<in> set categoryIds"
  shows "\<exists>w1 w2. rtranclp ui_step w w1 \<and> dropdownEl w1 = Some (Choosing (Some c) True False) \<and>
     ui_step w1 w2 \<and> dropdownEl w2 = None \<and> selectedCategory w2 = None"
proof -
  let ?a = "onButtonClick w" and ?b = "onButtonClick (onButtonClick w)"
  let ?c = "selectCategory c ?b"
  have a: "?a = closeDropdown w" using assms(3) by (simp add: onButtonClick_def)
  have b: "dropdownEl ?b = Some (Choosing None False False)" "\<not> isSubmitting ?b" "closeTimers ?b = closeTimers w"
    using assms(2) by (simp_all add: a, simp_all add: onButtonClick_def openDropdown_def closeDropdown_def)
  have s1: "ui_step w ?a" by (rule user [OF button]) (rule assms(2))
  have s2: "ui_step ?a ?b" by (rule user [OF button]) (simp add: a closeDropdown_def assms(2))
  have s3: "ui_step ?b ?c" by (rule user [OF option [OF b(1) assms(4)]])
  have "rtranclp ui_step w ?c"
    by (rule vote_system.and_then [OF s1 vote_system.and_then [OF s2 vote_system.and_then [OF s3 vote_system.no_step]]])
  moreover have c: "dropdownEl ?c = Some (Choosing (Some c) True False)" "0 < closeTimers ?c"
    using b assms(1) by (simp_all add: selectCategory_def)
  moreover have "ui_step ?c (closeDropdown (?c\<lparr>closeTimers := closeTimers ?c - 1\<rparr>))"
    by (rule user [OF autoClose [OF c(2)]])
  ultimately show ?thesis
    by (intro exI [of _ ?c] exI [of _ "closeDropdown (?c\<lparr>closeTimers := closeTimers ?c - 1\<rparr>)"])
      (simp add: closeDropdown_def)
qed

theorem feedback_timer_closes_new_dropdown_witness:
  "\<exists>w1 w2. dropdownEl (w1 :: vote_ui) = Some (Choosing (Some ''fully_ai'') True False) \<and> ui_step w1 w2 \<and> dropdownEl w2 = None"
  using feedback_timer_closes_new_dropdown
    [of "sample_ui\<lparr>closeTimers := 1, containerEl := Some True, dropdownEl := Some (Feedback True ''Vote submitted'')\<rparr>"
      True "''Vote submitted''" "''fully_ai''"]
  by (auto simp: CATEGORIES_def)

text \<open>
  A submission can be repeated while the first is under way: closing the dropdown clears
  \<open>isSubmitting\<close>, so opening it again and voting sends a second vote.
\<close>

lemma vote_ui_double_submit:
  fixes w :: "'w vote_ui_scheme"
  assumes "dropdownEl w = Some (Choosing (Some c) True False)" and "selectedCategory w = Some c" and "c \<noteq> ''''"
    and "\<not> isSubmitting w" and "containerEl w \<noteq> None" and "getVideoId w = Some vid" and "vid \<noteq> ''''"
    and "c \<in> set categoryIds"
  shows "\<exists>w'. rtranclp ui_step w w' \<and> inFlight w' = inFlight w + 2 \<and> votesSent w' = votesSent w @ [(vid, c), (vid, c)]"
proof -
  let ?a = "submitBegin w" and ?b = "onButtonClick (submitBegin w)"
  let ?c = "onButtonClick ?b"
  let ?d = "selectCategory c ?c" and ?e = "submitBegin (selectCategory c ?c)"
  have g: "getVideoId (x :: 'w vote_ui_scheme) = Some vid" if "location x = location w" for x
    using assms(6) unfolding getVideoId_def that .
  have a: "dropdownEl ?a = Some (Choosing (Some c) False True)" "containerEl ?a \<noteq> None" "location ?a = location w"
    "inFlight ?a = Suc (inFlight w)" "votesSent ?a = votesSent w @ [(vid, c)]"
    using assms(1-5,7) g [OF refl] by (simp_all add: submitBegin_def truthy_def)
  have b: "?b = closeDropdown ?a" using a by (simp add: onButtonClick_def)
  have c: "?c = openDropdown (closeDropdown ?a)" unfolding b by (simp add: onButtonClick_def closeDropdown_def)
  have c': "dropdownEl ?c = Some (Choosing None False False)" "\<not> isSubmitting ?c" "location ?c = location w"
    "inFlight ?c = Suc (inFlight w)" "votesSent ?c = votesSent w @ [(vid, c)]"
    unfolding c using a by (simp_all add: openDropdown_def closeDropdown_def)
  have d: "dropdownEl ?d = Some (Choosing (Some c) True False)" "selectedCategory ?d = Some c" "\<not> isSubmitting ?d"
    "location ?d = location w" "inFlight ?d = Suc (inFlight w)" "votesSent ?d = votesSent w @ [(vid, c)]"
    using c' by (simp_all add: selectCategory_def)
  have e: "inFlight ?e = inFlight w + 2" "votesSent ?e = votesSent w @ [(vid, c), (vid, c)]"
    using d g [OF d(4)] assms(3,7) by (simp_all add: submitBegin_def truthy_def)
  have s1: "ui_step w ?a" by (rule user [OF vote [OF assms(1)]])
  have s2: "ui_step ?a ?b" by (rule user [OF button]) (rule a(2))
  have s3: "ui_step ?b ?c" by (rule user [OF button]) (use a(2) in \<open>simp add: b closeDropdown_def\<close>)
  have s4: "ui_step ?c ?d" by (rule user [OF option [OF c'(1) assms(8)]])
  have s5: "ui_step ?d ?e" by (rule user [OF vote [OF d(1)]])
  have "rtranclp ui_step w ?e"
    by (rule vote_system.and_then [OF s1 vote_system.and_then [OF s2 vote_system.and_then [OF s3 vote_system.and_then [OF s4 vote_system.and_then [OF s5 vote_system.no_step]]]]])
  with e show ?thesis by blast
qed

end
