(* ===== verification/Content.thy ===== *)
theory Content
  imports Vote_Ui
begin

text \<open>
  \<open>content/content.ts\<close>: the content script of a YouTube tab. It starts and stops the observers,
  reacts to navigation and to changed settings, and starts the checks. The handlers here are
  synchronous up to the message they send; what a check does with the worker's answer happens
  later and is a job that waits for it (\<open>jobs\<close>). Timeouts wait in \<open>tasks\<close>, in the order they
  will fire: they all have the same delay. \<open>storedEnabled\<close> and \<open>storedShorts\<close> are the settings in
  \<open>chrome.storage.sync\<close>, None where unset or not a boolean; reading a setting after an answer is
  taken to be immediate.
\<close>

section \<open>State\<close>

datatype job = HideJob video_map | SkipJob string "nat option"

datatype task = Scan | InjectButton | StartShorts

datatype phase = Loading | AskingShorts | Running | Disabled

record content = vote_ui +
  storedEnabled :: "bool option"
  storedShorts :: "bool option"
  currentPageType :: PageType
  observer :: bool
  shortsObserver :: bool
  debounceTimer :: "(int \<times> mutation list) option"
  enabled :: bool
  shortsFilterEnabled :: bool
  navigationListener :: bool
  settingsListener :: bool
  tasks :: "(int \<times> task) list"
  jobs :: "job list"
  phase :: phase

definition DEBOUNCE_MS :: int where
  "DEBOUNCE_MS = 100"

definition INITIAL_SCAN_DELAY_MS :: int where
  "INITIAL_SCAN_DELAY_MS = 500"

section \<open>Checks\<close>

text \<open>\<open>checkAndHideVideos\<close> and \<open>checkAndSkipCurrentShort\<close> up to the message, and after the answer.\<close>

definition startHide :: "video_map \<Rightarrow> 'w content_scheme \<Rightarrow> 'w content_scheme" where
  "startHide m w =
     (if m = [] then w
      else w\<lparr>checksSent := checksSent w @ [map fst m], jobs := jobs w @ [HideJob m]\<rparr>)"

definition startSkip :: "'e page_env_scheme \<Rightarrow> 'w content_scheme \<Rightarrow> 'w content_scheme" where
  "startSkip e w =
     (case skipBegin e w of
        None \<Rightarrow> w
      | Some (vid, r) \<Rightarrow> w\<lparr>checksSent := checksSent w @ [[vid]], jobs := jobs w @ [SkipJob vid r]\<rparr>)"

definition answer :: "job \<Rightarrow> js_error + CachedVideo list option \<Rightarrow> 'w content_scheme \<Rightarrow> 'w content_scheme" where
  "answer j response w =
     (case response of
        Inl err \<Rightarrow> w
      | Inr vs \<Rightarrow> snd (case j of HideJob m \<Rightarrow> hideResume m vs w | SkipJob vid r \<Rightarrow> skipResume vid r vs w))"

section \<open>Settings, scans and the observer\<close>

definition isEnabled :: "'w content_scheme \<Rightarrow> bool" where
  "isEnabled w = (storedEnabled w \<noteq> Some False)"

definition isShortsFilteringEnabled :: "'w content_scheme \<Rightarrow> bool" where
  "isShortsFilteringEnabled w = (storedShorts w \<noteq> Some False)"

definition scanVisibleVideos :: "'e page_env_scheme \<Rightarrow> 'w content_scheme \<Rightarrow> 'w content_scheme" where
  "scanVisibleVideos e w =
     (if \<not> enabled w then w else startHide (extractAllVideoIds e (currentPageType w) w) w)"

definition onMutation :: "mutation list \<Rightarrow> 'w content_scheme \<Rightarrow> 'w content_scheme" where
  "onMutation ms w = (if \<not> enabled w then w else w\<lparr>debounceTimer := Some (DEBOUNCE_MS, ms)\<rparr>)"

definition onDebounce :: "'e page_env_scheme \<Rightarrow> mutation list \<Rightarrow> 'w content_scheme \<Rightarrow> 'w content_scheme" where
  "onDebounce e ms w = startHide (extractVideoIdsFromMutations e ms (currentPageType w) w) w"

definition stopObserver :: "'w content_scheme \<Rightarrow> 'w content_scheme" where
  "stopObserver w = (if observer w then w\<lparr>observer := False\<rparr> else w)"

definition startObserver :: "'w content_scheme \<Rightarrow> 'w content_scheme" where
  "startObserver w = (stopObserver w)\<lparr>observer := True\<rparr>"

section \<open>Shorts mode\<close>

definition stopShortsMode :: "'w content_scheme \<Rightarrow> 'w content_scheme" where
  "stopShortsMode w =
     (let w1 = (if shortsObserver w then w\<lparr>shortsObserver := False\<rparr> else w)
      in if navWatch w1 \<noteq> None then stopShortsNavWatch w1 else w1)"

definition startShortsMode :: "'e page_env_scheme \<Rightarrow> 'w content_scheme \<Rightarrow> 'w content_scheme" where
  "startShortsMode e w =
     (let w1 = startSkip e (stopShortsMode w);
          w2 = startHide (extractShortsVideoIds e w1) w1
      in watchShortsNavigation (w2\<lparr>shortsObserver := True\<rparr>))"

section \<open>Navigation\<close>

definition later :: "task \<Rightarrow> 'w content_scheme \<Rightarrow> 'w content_scheme" where
  "later t w = w\<lparr>tasks := tasks w @ [(INITIAL_SCAN_DELAY_MS, t)]\<rparr>"

definition onNavigate :: "'w content_scheme \<Rightarrow> 'w content_scheme" where
  "onNavigate w =
     (let p = detectPageType w;
          w1 = removeVoteButton (w\<lparr>currentPageType := p\<rparr>);
          w2 = (if p = Watch \<or> p = Shorts then later InjectButton w1 else w1);
          w3 = (if p = Shorts \<and> shortsFilterEnabled w2 then later StartShorts w2 else stopShortsMode w2)
      in later Scan w3)"

definition setupNavigationListener :: "'w content_scheme \<Rightarrow> 'w content_scheme" where
  "setupNavigationListener w = w\<lparr>navigationListener := True\<rparr>"

definition setupSettingsListener :: "'w content_scheme \<Rightarrow> 'w content_scheme" where
  "setupSettingsListener w = w\<lparr>settingsListener := True\<rparr>"

text \<open>
  The settings listener: for each of the two settings, whether it is among the changes and if so
  its new value (None where it was removed or is not a boolean).
\<close>

definition onEnabledChanged :: "'e page_env_scheme \<Rightarrow> bool option \<Rightarrow> 'w content_scheme \<Rightarrow> 'w content_scheme" where
  "onEnabledChanged e v w =
     (let w0 = w\<lparr>enabled := (v \<noteq> Some False)\<rparr> in
      if enabled w0
      then (let w1 = startObserver (scanVisibleVideos e w0)
            in if currentPageType w1 = Shorts \<and> shortsFilterEnabled w1 then startShortsMode e w1 else w1)
      else stopShortsMode (stopObserver w0))"

definition onShortsFilterChanged :: "'e page_env_scheme \<Rightarrow> bool option \<Rightarrow> 'w content_scheme \<Rightarrow> 'w content_scheme" where
  "onShortsFilterChanged e v w =
     (let w0 = w\<lparr>shortsFilterEnabled := (v \<noteq> Some False)\<rparr> in
      if enabled w0 \<and> currentPageType w0 = Shorts
      then (if shortsFilterEnabled w0 then startShortsMode e w0 else stopShortsMode w0)
      else w0)"

definition onSettingsChanged ::
  "'e page_env_scheme \<Rightarrow> string \<Rightarrow> bool option option \<Rightarrow> bool option option \<Rightarrow> 'w content_scheme \<Rightarrow> 'w content_scheme" where
  "onSettingsChanged e area enabledChange shortsChange w =
     (if area \<noteq> ''sync'' then w
      else (let w1 = (case enabledChange of None \<Rightarrow> w | Some v \<Rightarrow> onEnabledChanged e v w)
            in case shortsChange of None \<Rightarrow> w1 | Some v \<Rightarrow> onShortsFilterChanged e v w1))"

section \<open>Initialisation\<close>

text \<open>\<open>init\<close> suspends twice, at the two reads of the storage.\<close>

definition initEnabled :: "'w content_scheme \<Rightarrow> 'w content_scheme" where
  "initEnabled w =
     (let w1 = w\<lparr>enabled := isEnabled w\<rparr>
      in w1\<lparr>phase := (if \<not> enabled w1 then Disabled else AskingShorts)\<rparr>)"

definition initRest :: "'w content_scheme \<Rightarrow> 'w content_scheme" where
  "initRest w =
     (let p = detectPageType w;
          w1 = w\<lparr>shortsFilterEnabled := isShortsFilteringEnabled w, currentPageType := p, phase := Running\<rparr>;
          w2 = setupSettingsListener (setupNavigationListener w1);
          w3 = later Scan w2;
          w4 = (if p = Watch \<or> p = Shorts then later InjectButton w3 else w3);
          w5 = (if p = Shorts \<and> shortsFilterEnabled w4 then later StartShorts w4 else w4)
      in startObserver w5)"

section \<open>The tab as a transition system\<close>

definition runTask :: "'e page_env_scheme \<Rightarrow> task \<Rightarrow> 'w content_scheme \<Rightarrow> 'w content_scheme" where
  "runTask e t w =
     (case t of Scan \<Rightarrow> scanVisibleVideos e w | InjectButton \<Rightarrow> injectVoteButton w | StartShorts \<Rightarrow> startShortsMode e w)"

definition onNewShorts :: "'e page_env_scheme \<Rightarrow> mutation list \<Rightarrow> 'w content_scheme \<Rightarrow> 'w content_scheme" where
  "onNewShorts e ms w = snd (onShortsMutations e (\<lambda>m. modE (startHide m)) ms w)"

definition onNavTick :: "'e page_env_scheme \<Rightarrow> 'w content_scheme \<Rightarrow> 'w content_scheme" where
  "onNavTick e w = snd (navTick (modE (startSkip e)) w)"

inductive content_step :: "'e page_env_scheme \<Rightarrow> 'w content_scheme \<Rightarrow> 'w content_scheme \<Rightarrow> bool" for e where
  boot: "phase w = Loading \<Longrightarrow> content_step e w (initEnabled w)"
| boot2: "phase w = AskingShorts \<Longrightarrow> content_step e w (initRest w)"
| navigated: "navigationListener w \<Longrightarrow> content_step e w (onNavigate w)"
| mutated: "observer w \<Longrightarrow> content_step e w (onMutation ms w)"
| debounced: "debounceTimer w = Some (d, ms) \<Longrightarrow> content_step e w (onDebounce e ms (w\<lparr>debounceTimer := None\<rparr>))"
| shortsMutated: "shortsObserver w \<Longrightarrow> content_step e w (onNewShorts e ms w)"
| polled: "navWatch w \<noteq> None \<Longrightarrow> content_step e w (onNavTick e w)"
| task: "tasks w = (d, t) # ts \<Longrightarrow> content_step e w (runTask e t (w\<lparr>tasks := ts\<rparr>))"
| answered: "jobs w = js @ j # js' \<Longrightarrow> content_step e w (answer j response (w\<lparr>jobs := js @ js'\<rparr>))"
| stored: "content_step e w
     (let w1 = w\<lparr>storedEnabled := (case x of None \<Rightarrow> storedEnabled w | Some v \<Rightarrow> v),
                 storedShorts := (case y of None \<Rightarrow> storedShorts w | Some v \<Rightarrow> v)\<rparr>
      in if settingsListener w1 then onSettingsChanged e ''sync'' x y w1 else w1)"
| acted: "user_step w w' \<Longrightarrow> content_step e w w'"
| rendered: "content_step e w (w\<lparr>document := doc, nodes := ns, nextButton := b, shortsContainer := c\<rparr>)"

section \<open>What the operations leave alone\<close>

text \<open>
  \<open>control w\<close>: the variables that say which observers, listeners and modes are on. Checks,
  answers and the vote button do not touch them.
\<close>

definition control :: "'w content_scheme \<Rightarrow> (bool \<times> bool \<times> bool \<times> bool) \<times> bool \<times> bool \<times> PageType \<times> phase" where
  "control w = ((observer w, shortsObserver w, navigationListener w, settingsListener w),
     enabled w, shortsFilterEnabled w, currentPageType w, phase w)"

lemma control_iff [simp]:
  "control w' = control w \<longleftrightarrow> observer w' = observer w \<and> shortsObserver w' = shortsObserver w \<and>
     navigationListener w' = navigationListener w \<and> settingsListener w' = settingsListener w \<and>
     enabled w' = enabled w \<and> shortsFilterEnabled w' = shortsFilterEnabled w \<and>
     currentPageType w' = currentPageType w \<and> phase w' = phase w"
  by (auto simp: control_def)

text \<open>What is under way: pending timers, jobs and everything sent.\<close>

definition idle :: "'w content_scheme \<Rightarrow> bool" where
  "idle w \<longleftrightarrow> \<not> observer w \<and> \<not> shortsObserver w \<and> debounceTimer w = None \<and> tasks w = [] \<and> jobs w = [] \<and>
     checksSent w = [] \<and> votesSent w = [] \<and> containerEl w = None \<and> injectTimers w = 0 \<and> closeTimers w = 0 \<and>
     inFlight w = 0"

lemma startHide_frame:
  "control (startHide m w) = control w" "navWatch (startHide m w) = navWatch w" "ui_ok (startHide m w) = ui_ok w"
  "href (startHide m w) = href w"
  by (simp_all add: startHide_def ui_ok_def)

lemma startSkip_frame:
  "control (startSkip e w) = control w" "navWatch (startSkip e w) = navWatch w" "ui_ok (startSkip e w) = ui_ok w"
  "href (startSkip e w) = href w"
  by (simp_all add: startSkip_def ui_ok_def split: option.split prod.split)

lemmas check_frame = startHide_frame [unfolded control_iff] startSkip_frame [unfolded control_iff]

lemma hideResume_eq:
  "hideResume m response w = (Inr (), w\<lparr>nodes := fold hideAt
     (flagged (getThreshold w) m (case response of None \<Rightarrow> [] | Some vs \<Rightarrow> vs)) (nodes w)\<rparr>)"
  by (simp add: hideResume_def eff hideFlagged_all flagged_def map_filter_simps split: option.split)

lemma skipResume_eq:
  "skipResume vid r response w =
     (Inr (), if flagsVideo (getThreshold w) vid (case response of None \<Rightarrow> [] | Some vs \<Rightarrow> vs)
              then skipToNextShort (markSkipped r w) else w)"
  by (cases response) (simp_all add: skipResume_def eff skipLoop_eq flagsVideo_def)

lemma skip_frame:
  fixes w :: "'w content_scheme"
  shows "control (skipToNextShort (markSkipped r w)) = control w" "navWatch (skipToNextShort (markSkipped r w)) = navWatch w"
  "ui_ok (skipToNextShort (markSkipped r w)) = ui_ok w"
  by (simp_all add: skipToNextShort_def markSkipped_def ui_ok_def split: option.split)

lemma answer_frame:
  "control (answer j response w) = control w" "navWatch (answer j response w) = navWatch w"
  "ui_ok (answer j response w) = ui_ok w"
proof -
  have "control (answer j response w) = control w \<and> navWatch (answer j response w) = navWatch w \<and>
      ui_ok (answer j response w) = ui_ok w"
  proof (cases response)
    case (Inr vs)
    then show ?thesis
      using skip_frame [of _ w]
      by (cases j) (simp_all add: answer_def hideResume_eq skipResume_eq ui_ok_def)
  qed (simp add: answer_def)
  then show "control (answer j response w) = control w" "navWatch (answer j response w) = navWatch w"
    "ui_ok (answer j response w) = ui_ok w" by blast+
qed

lemma stopShortsMode_on:
  "shortsObserver (stopShortsMode w) = False" "navWatch (stopShortsMode w) = None"
  "ui_ok (stopShortsMode w) = ui_ok w" "observer (stopShortsMode w) = observer w"
  "navigationListener (stopShortsMode w) = navigationListener w" "settingsListener (stopShortsMode w) = settingsListener w"
  "enabled (stopShortsMode w) = enabled w" "phase (stopShortsMode w) = phase w"
  "currentPageType (stopShortsMode w) = currentPageType w" "shortsFilterEnabled (stopShortsMode w) = shortsFilterEnabled w"
  "tasks (stopShortsMode w) = tasks w" "href (stopShortsMode w) = href w"
  by (simp_all add: stopShortsMode_def stopShortsNavWatch_def Let_def ui_ok_def)

lemma startShortsMode_on:
  "shortsObserver (startShortsMode e w) = True" "navWatch (startShortsMode e w) = Some (href w)"
  "ui_ok (startShortsMode e w) = ui_ok w" "observer (startShortsMode e w) = observer w"
  "navigationListener (startShortsMode e w) = navigationListener w" "settingsListener (startShortsMode e w) = settingsListener w"
  "enabled (startShortsMode e w) = enabled w" "phase (startShortsMode e w) = phase w"
  "currentPageType (startShortsMode e w) = currentPageType w" "shortsFilterEnabled (startShortsMode e w) = shortsFilterEnabled w"
proof -
  have ui: "ui_ok (watchShortsNavigation (v\<lparr>shortsObserver := b\<rparr>)) = ui_ok v" for v :: "'w content_scheme" and b
    by (simp add: watchShortsNavigation_def ui_ok_def)
  show "shortsObserver (startShortsMode e w) = True" "navWatch (startShortsMode e w) = Some (href w)"
    "ui_ok (startShortsMode e w) = ui_ok w" "observer (startShortsMode e w) = observer w"
    "navigationListener (startShortsMode e w) = navigationListener w" "settingsListener (startShortsMode e w) = settingsListener w"
    "enabled (startShortsMode e w) = enabled w" "phase (startShortsMode e w) = phase w"
    "currentPageType (startShortsMode e w) = currentPageType w" "shortsFilterEnabled (startShortsMode e w) = shortsFilterEnabled w"
    by (simp_all add: startShortsMode_def Let_def ui check_frame stopShortsMode_on)
      (simp_all add: watchShortsNavigation_def check_frame stopShortsMode_on)
qed

lemmas on_off = check_frame answer_frame [unfolded control_iff] stopShortsMode_on startShortsMode_on

lemma button_frame:
  fixes w :: "'w content_scheme"
  shows "control (injectVoteButton w) = control w" "navWatch (injectVoteButton w) = navWatch w"
  "control (removeVoteButton w) = control w" "navWatch (removeVoteButton w) = navWatch w"
  "tasks (removeVoteButton w) = tasks w" "location (removeVoteButton w) = location w"
  by (simp_all add: injectVoteButton_def removeVoteButton_def closeDropdown_def Let_def)

lemma user_frame:
  fixes w :: "'w content_scheme"
  assumes "user_step w w'"
  shows "control w' = control w \<and> navWatch w' = navWatch w"
  using assms
  by (induction rule: user_step.induct)
    (simp_all add: onButtonClick_def onClickOutside_def onEscape_def selectCategory_def submitBegin_def submitEnd_def
      showFeedback_def openDropdown_def closeDropdown_def injectVoteButton_def split: vote_reply.split)

lemma user_idle:
  fixes w :: "'w content_scheme"
  assumes "user_step w w'" and "idle w" and "ui_ok w"
  shows "idle w'"
proof -
  from assms(2,3) have n: "dropdownEl w = None" "\<not> outsideListeners w"
    by (auto simp: idle_def ui_ok_def)
  from assms(1,2) n show ?thesis
    by (cases rule: user_step.cases) (simp_all add: idle_def)
qed

definition content_ok :: "'w content_scheme \<Rightarrow> bool" where
  "content_ok w \<longleftrightarrow>
     ui_ok w \<and> (shortsObserver w \<longleftrightarrow> navWatch w \<noteq> None) \<and>
     (navigationListener w \<longleftrightarrow> phase w = Running) \<and> (settingsListener w \<longleftrightarrow> phase w = Running) \<and>
     (phase w = Running \<longrightarrow> observer w = enabled w) \<and>
     (phase w = Disabled \<longrightarrow> \<not> enabled w) \<and> (phase w = AskingShorts \<longrightarrow> enabled w) \<and>
     (phase w \<noteq> Running \<longrightarrow> idle w)"

lemmas running_ops = scanVisibleVideos_def onMutation_def onDebounce_def startObserver_def stopObserver_def
  later_def setupNavigationListener_def setupSettingsListener_def

lemma content_ok_running: "phase w = Running \<Longrightarrow> content_ok w \<longleftrightarrow>
    ui_ok w \<and> (shortsObserver w \<longleftrightarrow> navWatch w \<noteq> None) \<and> navigationListener w \<and> settingsListener w \<and> observer w = enabled w"
  by (auto simp: content_ok_def)

text \<open>Outside the running phase nothing is pending, so only the start-up and the user act.\<close>

lemma content_idle: "content_ok w \<Longrightarrow> phase w \<noteq> Running \<Longrightarrow> idle w \<and> navWatch w = None \<and>
    \<not> navigationListener w \<and> \<not> settingsListener w"
  by (auto simp: content_ok_def idle_def)

lemma ui_ok_content [simp]:
  fixes w :: "'w content_scheme"
  shows "ui_ok (w\<lparr>phase := p\<rparr>) = ui_ok w" "ui_ok (w\<lparr>enabled := b\<rparr>) = ui_ok w"
  "ui_ok (w\<lparr>shortsFilterEnabled := b\<rparr>) = ui_ok w" "ui_ok (w\<lparr>currentPageType := t\<rparr>) = ui_ok w"
  "ui_ok (w\<lparr>tasks := ts\<rparr>) = ui_ok w" "ui_ok (w\<lparr>jobs := js\<rparr>) = ui_ok w" "ui_ok (w\<lparr>observer := b\<rparr>) = ui_ok w"
  "ui_ok (w\<lparr>shortsObserver := b\<rparr>) = ui_ok w" "ui_ok (w\<lparr>debounceTimer := d\<rparr>) = ui_ok w"
  "ui_ok (w\<lparr>navigationListener := b\<rparr>) = ui_ok w" "ui_ok (w\<lparr>settingsListener := b\<rparr>) = ui_ok w"
  "ui_ok (w\<lparr>storedEnabled := v\<rparr>) = ui_ok w" "ui_ok (w\<lparr>storedShorts := v\<rparr>) = ui_ok w"
  "ui_ok (w\<lparr>navWatch := n\<rparr>) = ui_ok w"
  "ui_ok (w\<lparr>document := doc, nodes := ns, nextButton := b, shortsContainer := c\<rparr>) = ui_ok w"
  by (simp_all add: ui_ok_def)

lemma content_ok_same:
  "phase w = Running \<Longrightarrow> content_ok w \<Longrightarrow> control w' = control w \<Longrightarrow>
     (navWatch w' = None \<longleftrightarrow> navWatch w = None) \<Longrightarrow> ui_ok w' \<Longrightarrow> content_ok w'"
  by (simp add: content_ok_running)

lemma onNavigate_ok:
  assumes "phase w = Running" and "content_ok w"
  shows "content_ok (onNavigate w)"
proof -
  define p where "p = detectPageType w"
  define w1 where "w1 = removeVoteButton (w\<lparr>currentPageType := p\<rparr>)"
  have f: "observer w1 = observer w" "shortsObserver w1 = shortsObserver w" "navWatch w1 = navWatch w"
    "navigationListener w1 = navigationListener w" "settingsListener w1 = settingsListener w"
    "enabled w1 = enabled w" "phase w1 = phase w"
    using button_frame(3,4) [of "w\<lparr>currentPageType := p\<rparr>"] by (simp_all add: w1_def)
  have "ui_ok w1" using assms by (simp add: w1_def content_ok_running removeVoteButton_ok)
  moreover have "onNavigate w =
     (let w2 = (if p = Watch \<or> p = Shorts then later InjectButton w1 else w1);
          w3 = (if p = Shorts \<and> shortsFilterEnabled w2 then later StartShorts w2 else stopShortsMode w2)
      in later Scan w3)"
    by (simp add: onNavigate_def Let_def p_def w1_def)
  ultimately show ?thesis
    using assms f by (simp add: Let_def later_def content_ok_running on_off)
qed

lemma onEnabledChanged_ok:
  assumes "phase w = Running" and "content_ok w"
  shows "content_ok (onEnabledChanged e v w) \<and> phase (onEnabledChanged e v w) = Running"
  using assms by (simp add: onEnabledChanged_def Let_def running_ops content_ok_running on_off)

lemma onShortsFilterChanged_ok:
  assumes "phase w = Running" and "content_ok w"
  shows "content_ok (onShortsFilterChanged e v w)"
  using assms by (simp add: onShortsFilterChanged_def Let_def content_ok_running on_off)

lemma onSettingsChanged_ok:
  assumes "phase w = Running" and "content_ok w"
  shows "content_ok (onSettingsChanged e area x y w)"
  using assms by (simp add: onSettingsChanged_def Let_def onEnabledChanged_ok onShortsFilterChanged_ok split: option.split)

lemma onNewShorts_eq:
  "onNewShorts e ms w = startHide (collectIds (extractVideoIdFromShort e) w (addedElements [shortsTag] w ms) []) w"
  by (simp add: onNewShorts_def onShortsMutations_def eff startHide_def)

lemma onNavTick_eq:
  "onNavTick e w =
     (if navWatch w \<noteq> None \<and> navWatch w \<noteq> Some (href w)
      then (let w1 = w\<lparr>navWatch := Some (href w)\<rparr> in if isShortsPage w1 then startSkip e w1 else w1)
      else w)"
  by (simp add: onNavTick_def navTick_def eff Let_def)

text \<open>The timeouts \<open>init\<close> sets.\<close>

definition initTasks :: "PageType \<Rightarrow> bool \<Rightarrow> task list" where
  "initTasks p filtering =
     [Scan] @ (if p = Watch \<or> p = Shorts then [InjectButton] else []) @
     (if p = Shorts \<and> filtering then [StartShorts] else [])"

lemma initRest_eq:
  "initRest w = w\<lparr>shortsFilterEnabled := isShortsFilteringEnabled w, currentPageType := detectPageType w,
     phase := Running, navigationListener := True, settingsListener := True,
     tasks := tasks w @ map (Pair INITIAL_SCAN_DELAY_MS) (initTasks (detectPageType w) (isShortsFilteringEnabled w)),
     observer := True\<rparr>"
  by (cases "detectPageType w")
    (simp_all add: initRest_def Let_def later_def startObserver_def stopObserver_def initTasks_def
      setupNavigationListener_def setupSettingsListener_def)

lemma initRest_ok:
  assumes "phase w = AskingShorts" and "content_ok w"
  shows "content_ok (initRest w)"
  using assms by (simp add: initRest_eq content_ok_def idle_def)

lemma content_step_ok:
  assumes "content_step e w w'" and "content_ok w"
  shows "content_ok w'"
proof (cases "phase w = Running")
  case True
  have same: "content_ok w'" if "control w' = control w" "navWatch w' = None \<longleftrightarrow> navWatch w = None" "ui_ok w'"
    by (rule content_ok_same [OF True assms(2) that])
  from assms(2) have ui: "ui_ok w" by (simp add: content_ok_def)
  from assms(1) show ?thesis
  proof cases
    case navigated
    with True assms(2) show ?thesis by (simp add: onNavigate_ok)
  next
    case (task d t ts)
    show ?thesis
    proof (cases t)
      case InjectButton
      with task same ui button_frame(1,2) [of "w\<lparr>tasks := ts\<rparr>"] show ?thesis
        by (simp add: runTask_def injectVoteButton_ok)
    next
      case StartShorts
      with task True assms(2) show ?thesis by (simp add: runTask_def content_ok_running on_off)
    qed (use task same ui in \<open>simp add: runTask_def running_ops on_off\<close>)
  next
    case (stored y x)
    let ?w1 = "w\<lparr>storedEnabled := (case x of None \<Rightarrow> storedEnabled w | Some v \<Rightarrow> v),
                 storedShorts := (case y of None \<Rightarrow> storedShorts w | Some v \<Rightarrow> v)\<rparr>"
    have "content_ok ?w1" "phase ?w1 = Running" using True assms(2) by (simp_all add: content_ok_running)
    with stored onSettingsChanged_ok [of ?w1 e "''sync''" x y] show ?thesis by (simp add: Let_def)
  next
    case acted
    with user_frame [OF acted] user_step_ok [OF acted ui] same show ?thesis by simp
  next
    case polled
    with same ui show ?thesis by (simp add: onNavTick_eq Let_def on_off)
  qed (use True same ui in \<open>simp_all add: running_ops on_off onNewShorts_eq\<close>)
next
  case False
  from content_idle [OF assms(2) False] have idle: "idle w" "navWatch w = None" "\<not> navigationListener w" "\<not> settingsListener w"
    by auto
  from assms(2) have ui: "ui_ok w" by (simp add: content_ok_def)
  from assms(1) show ?thesis
  proof cases
    case boot
    with idle ui show ?thesis by (simp add: initEnabled_def Let_def content_ok_def idle_def)
  next
    case boot2
    with initRest_ok assms(2) show ?thesis by blast
  next
    case acted
    with user_frame [OF acted] user_step_ok [OF acted ui] user_idle [OF acted idle(1) ui] assms(2) False show ?thesis
      by (simp add: content_ok_def)
  next
    case (stored x y)
    with idle ui assms(2) False show ?thesis by (simp add: Let_def content_ok_def idle_def)
  next
    case (rendered doc ns b c)
    with idle ui assms(2) False show ?thesis by (simp add: content_ok_def idle_def)
  qed (use idle in \<open>simp_all add: idle_def\<close>)
qed

interpretation tab_system: step_system "content_step e" content_ok
  by unfold_locales (rule content_step_ok)

section \<open>Properties\<close>

text \<open>The content script as it is loaded into a tab.\<close>

definition fresh_content :: "'w content_scheme \<Rightarrow> bool" where
  "fresh_content w \<longleftrightarrow> fresh_ui w \<and> idle w \<and> phase w = Loading \<and> navWatch w = None \<and>
     \<not> navigationListener w \<and> \<not> settingsListener w"

lemma fresh_content_ok: "fresh_content w \<Longrightarrow> content_ok w"
  by (simp add: fresh_content_def content_ok_def fresh_ui_ok idle_def)

definition sample_content :: content where
  "sample_content = vote_ui.extend sample_ui
     \<lparr>storedEnabled = None, storedShorts = None, currentPageType = Unknown, observer = False, shortsObserver = False,
      debounceTimer = None, enabled = True, shortsFilterEnabled = True, navigationListener = False,
      settingsListener = False, tasks = [], jobs = [], phase = Loading\<rparr>"

lemma sample_content_simps [simp]:
  "fresh_content sample_content" "phase sample_content = Loading" "storedEnabled sample_content = None"
  "shortsFilterEnabled sample_content" "tasks sample_content = []" "jobs sample_content = []"
  "checksSent sample_content = []" "skipLog sample_content = []" "nextButton sample_content"
  by (simp_all add: sample_content_def vote_ui.defs sample_ui_def shorts_tab.defs sample_shorts_def fresh_content_def
      fresh_ui_def idle_def)

text \<open>
  C9: the content script's observers and settings agree, whatever the user, the page, YouTube's
  navigation, the worker's answers and the settings do and in whatever order: once it runs, the
  page is observed exactly when the extension is enabled; the Shorts observer and the Shorts
  URL poll are on and off together; and when it was disabled at load time it never does
  anything: it asks the worker nothing, injects no button and sends no vote, although the user
  may enable it (no listener is installed: that needs a reload).
\<close>

theorem content_invariant:
  assumes "fresh_content w0" and "rtranclp (content_step e) w0 w"
  shows "(phase w = Running \<longrightarrow> observer w = enabled w) \<and>
     (shortsObserver w \<longleftrightarrow> navWatch w \<noteq> None) \<and>
     (phase w = Disabled \<longrightarrow> checksSent w = [] \<and> votesSent w = [] \<and> containerEl w = None \<and> \<not> observer w \<and>
        \<not> shortsObserver w \<and> tasks w = [] \<and> \<not> settingsListener w)"
  using tab_system.steps_ok [OF assms(2) fresh_content_ok [OF assms(1)]]
  by (auto simp: content_ok_def idle_def)

theorem content_invariant_witness:
  "checksSent (initEnabled (sample_content\<lparr>storedEnabled := Some False\<rparr>)) = [] \<and>
   phase (initEnabled (sample_content\<lparr>storedEnabled := Some False\<rparr>)) = Disabled"
proof -
  let ?w = "sample_content\<lparr>storedEnabled := Some False\<rparr>"
  have f: "fresh_content ?w"
    using sample_content_simps(1) by (simp add: fresh_content_def idle_def fresh_ui_def)
  have "content_step e ?w (initEnabled ?w)" for e :: page_env
    by (rule boot) simp
  then have "rtranclp (content_step (e :: page_env)) ?w (initEnabled ?w)" for e
    by blast
  from content_invariant [OF f this] show ?thesis
    by (simp add: initEnabled_def Let_def isEnabled_def)
qed



text \<open>
  Only the last batch of a burst is looked at. Mutation batches that arrive within the
  debounce delay of each other replace one another, so of a burst only the videos of the last
  batch are checked; those of the earlier ones are not, unless a later scan finds them.
\<close>

theorem debounce_drops_mutations:
  assumes "enabled w" and "batches \<noteq> []"
  shows "debounceTimer (fold onMutation batches w) = Some (100, last batches) \<and>
     checksSent (fold onMutation batches w) = checksSent w \<and>
     checksSent (onDebounce e (last batches) ((fold onMutation batches w)\<lparr>debounceTimer := None\<rparr>)) =
       checksSent w @ (let m = extractVideoIdsFromMutations e (last batches) (currentPageType w) w
                       in if m = [] then [] else [map fst m])"
proof -
  have burst: "fold onMutation bs w = (if bs = [] then w else w\<lparr>debounceTimer := Some (DEBOUNCE_MS, last bs)\<rparr>)" for bs
    by (induction bs rule: rev_induct) (simp_all add: onMutation_def assms(1))
  have "extractVideoIdsFromMutations e ms p (w\<lparr>debounceTimer := d\<rparr>) = extractVideoIdsFromMutations e ms p w" for ms p d
    by (simp add: extractVideoIdsFromMutations_def addedElements_def collectIds_cong [of "w\<lparr>debounceTimer := d\<rparr>" w])
  with assms(2) show ?thesis
    by (simp add: burst DEBOUNCE_MS_def onDebounce_def startHide_def Let_def)
qed

theorem debounce_drops_mutations_witness:
  "debounceTimer (fold onMutation [[[]], []] sample_content) = Some (100, [])"
proof -
  have "enabled sample_content" by (simp add: sample_content_def vote_ui.defs)
  from debounce_drops_mutations [OF this, of "[[[]], []]" "sample_tab_env (\<lambda>_ _. Inr None)"] show ?thesis by simp
qed


text \<open>
  What a changed setting does at once: enabling observes the page and scans it, and on a
  Shorts page with the filter on starts Shorts mode; disabling stops the observer and Shorts
  mode, and asks nothing.
\<close>

lemma onEnabledChanged_eq:
  "enabled (onEnabledChanged e v w) = (v \<noteq> Some False) \<and> observer (onEnabledChanged e v w) = (v \<noteq> Some False) \<and>
   shortsObserver (onEnabledChanged e v w) =
     (if v = Some False then False else if currentPageType w = Shorts \<and> shortsFilterEnabled w then True else shortsObserver w) \<and>
   (v = Some False \<longrightarrow> checksSent (onEnabledChanged e v w) = checksSent w)"
  by (simp add: onEnabledChanged_def Let_def running_ops on_off)
    (simp add: stopShortsMode_def stopShortsNavWatch_def Let_def)


lemma sample_running: "phase (initRest (initEnabled sample_content)) = Running \<and> content_ok (initRest (initEnabled sample_content))"
proof -
  have "content_step e sample_content (initEnabled sample_content)" for e :: page_env
    by (rule boot) simp
  then have "content_ok (initEnabled sample_content)"
    using content_step_ok fresh_content_ok sample_content_simps(1) by blast
  moreover have "phase (initEnabled sample_content) = AskingShorts"
    by (simp add: initEnabled_def Let_def isEnabled_def)
  ultimately show ?thesis by (simp add: initRest_ok) (simp add: initRest_eq)
qed



section \<open>Two ways Shorts mode goes wrong\<close>

lemma skipBegin_cong:
  "href w' = href w \<Longrightarrow> document w' = document w \<Longrightarrow> nodes w' = nodes w \<Longrightarrow> skipBegin e w' = skipBegin e w"
  by (simp add: skipBegin_def findRendererForCurrentShort_def getCurrentShortVideoId_def querySelectorAll_def
      Let_def cong: if_cong option.case_cong)

lemma page_frame:
  fixes w :: "'w content_scheme"
  shows "href (removeVoteButton w) = href w" "document (removeVoteButton w) = document w" "nodes (removeVoteButton w) = nodes w"
  "href (injectVoteButton w) = href w" "document (injectVoteButton w) = document w" "nodes (injectVoteButton w) = nodes w"
  "tasks (injectVoteButton w) = tasks w" "document (stopShortsMode w) = document w" "nodes (stopShortsMode w) = nodes w"
  by (simp_all add: injectVoteButton_def removeVoteButton_def closeDropdown_def stopShortsMode_def stopShortsNavWatch_def Let_def)

lemma startShortsMode_asks:
  assumes "skipBegin e w = Some (vid, r)"
  shows "[vid] \<in> set (checksSent (startShortsMode e w))"
proof -
  have "skipBegin e (stopShortsMode w) = Some (vid, r)"
    using assms skipBegin_cong [of "stopShortsMode w" w e] by (simp add: page_frame on_off)
  then show ?thesis
    by (simp add: startShortsMode_def Let_def startSkip_def startHide_def watchShortsNavigation_def)
qed

text \<open>
  C40: disabling the extension does not keep it off. The navigation handler does not look at
  \<open>enabled\<close>: when the disabled tab navigates to a short, Shorts mode starts half a second later,
  the worker is asked about the short, and both the observer and the poll run.
\<close>

theorem disabled_navigation_starts_shorts:
  fixes w :: "'w content_scheme"
  assumes "navigationListener w" and "\<not> enabled w" and "shortsFilterEnabled w" and "tasks w = []"
    and "detectPageType w = Shorts" and "skipBegin e w = Some (vid, r)"
  shows "\<exists>w'. rtranclp (content_step e) w w' \<and> \<not> enabled w' \<and> shortsObserver w' \<and> navWatch w' \<noteq> None \<and>
     [vid] \<in> set (checksSent w')"
proof -
  let ?r = "removeVoteButton (w\<lparr>currentPageType := Shorts\<rparr>)"
  have r: "enabled ?r = enabled w" "tasks ?r = []" "shortsFilterEnabled ?r"
    using button_frame(3,5) [of "w\<lparr>currentPageType := Shorts\<rparr>"] assms(3,4) by simp_all
  have w1: "onNavigate w = ?r\<lparr>tasks := map (Pair INITIAL_SCAN_DELAY_MS) [InjectButton, StartShorts, Scan]\<rparr>"
    using assms(5) r by (simp add: onNavigate_def Let_def later_def)
  define w2 where "w2 = injectVoteButton (?r\<lparr>tasks := map (Pair INITIAL_SCAN_DELAY_MS) [StartShorts, Scan]\<rparr>)"
  have w2: "tasks w2 = map (Pair INITIAL_SCAN_DELAY_MS) [StartShorts, Scan]" "enabled w2 = enabled w"
    using button_frame(1) [of "?r\<lparr>tasks := map (Pair INITIAL_SCAN_DELAY_MS) [StartShorts, Scan]\<rparr>"] r(1)
    by (simp_all add: w2_def page_frame)
  define w3 where "w3 = startShortsMode e (w2\<lparr>tasks := [(INITIAL_SCAN_DELAY_MS, Scan)]\<rparr>)"
  have "skipBegin e (w2\<lparr>tasks := [(INITIAL_SCAN_DELAY_MS, Scan)]\<rparr>) = Some (vid, r)"
    using assms(6) skipBegin_cong [of "w2\<lparr>tasks := [(INITIAL_SCAN_DELAY_MS, Scan)]\<rparr>" w e]
    by (simp add: w2_def page_frame)
  then have asked: "[vid] \<in> set (checksSent w3)"
    unfolding w3_def by (rule startShortsMode_asks)
  have s1: "content_step e w (onNavigate w)"
    by (rule navigated) (rule assms(1))
  have "tasks (onNavigate w) = (INITIAL_SCAN_DELAY_MS, InjectButton) # map (Pair INITIAL_SCAN_DELAY_MS) [StartShorts, Scan]"
    by (simp add: w1)
  from task [OF this] have s2: "content_step e (onNavigate w) w2"
    by (simp add: runTask_def w2_def w1)
  have "tasks w2 = (INITIAL_SCAN_DELAY_MS, StartShorts) # [(INITIAL_SCAN_DELAY_MS, Scan)]"
    by (simp add: w2)
  from task [OF this] have s3: "content_step e w2 w3"
    by (simp add: runTask_def w3_def)
  have "rtranclp (content_step e) w w3"
    by (rule tab_system.and_then [OF s1 tab_system.and_then [OF s2 tab_system.and_then [OF s3 tab_system.no_step]]])
  moreover have "\<not> enabled w3" "shortsObserver w3" "navWatch w3 \<noteq> None"
    using assms(2) w2(2) by (simp_all add: w3_def on_off)
  ultimately show ?thesis using asked by blast
qed

definition on_short :: content where
  "on_short = sample_content\<lparr>location := \<lparr>pathname = ''/shorts/abcdefghijk'', searchParams = []\<rparr>,
     href := ''abcdefghijk'', document := [0], nodes := (\<lambda>_. sample_node shortsTag ''abcdefghijk''),
     navigationListener := True, settingsListener := True, enabled := False, phase := Running\<rparr>"

lemma on_short_simps [simp]:
  "navigationListener on_short" "\<not> enabled on_short" "shortsFilterEnabled on_short" "tasks on_short = []"
  "detectPageType on_short = Shorts" "skipLog on_short = []" "nextButton on_short"
  "skipBegin (sample_tab_env f) on_short = Some (''abcdefghijk'', Some 0)"
  "getThreshold on_short = 50" "jobs on_short = []" "extractVideoIdFromUrl (sample_tab_env f) v = Some v"
  "nodes on_short = (\<lambda>_. sample_node shortsTag ''abcdefghijk'')"
  by (simp_all add: on_short_def sample_content_def vote_ui.defs sample_ui_def shorts_tab.defs sample_shorts_def
      detectPageType_def Let_def startsWith_def skipBegin_def getCurrentShortVideoId_def extractVideoIdFromUrl_def
      sample_tab_env_def truthy_def findRendererForCurrentShort_def querySelectorAll_def sample_node_def
      extractVideoIdFromShort_def hrefId_def getAttribute_def getThreshold_def DEFAULT_THRESHOLD_def)

theorem disabled_navigation_starts_shorts_witness:
  "\<exists>w'. rtranclp (content_step (sample_tab_env (\<lambda>_ _. Inr None))) on_short w' \<and> \<not> enabled w' \<and> shortsObserver w' \<and>
     [''abcdefghijk''] \<in> set (checksSent w')"
  using disabled_navigation_starts_shorts [of on_short "sample_tab_env (\<lambda>_ _. Inr None)" "''abcdefghijk''" "Some 0"]
  by auto

text \<open>
  The wrong short can be skipped. The check of a short awaits the worker; when the user
  scrolls on meanwhile, a positive answer clicks on from the short that plays now, which nobody
  flagged.
\<close>

theorem skip_hits_next_short:
  fixes w :: "'w content_scheme"
  assumes "skipBegin e w = Some (a, r)" and "nextButton w"
    and "flagsVideo (getThreshold w) a vs"
    and "extractVideoIdFromUrl e u = Some b" and "b \<noteq> a" and "jobs w = []"
  shows "\<exists>w'. rtranclp (content_step e) (startSkip e w) w' \<and>
     getCurrentShortVideoId e w' = Some b \<and> skipLog w' = skipLog w @ [ClickNext]"
proof -
  let ?w1 = "startSkip e w"
  let ?w2 = "?w1\<lparr>location := l, href := u\<rparr>"
  let ?w3 = "answer (SkipJob a r) (Inr (Some vs)) (?w2\<lparr>jobs := [] @ []\<rparr>)"
  have w1: "?w1 = w\<lparr>checksSent := checksSent w @ [[a]], jobs := [SkipJob a r]\<rparr>"
    using assms(1,6) by (simp add: startSkip_def)
  have "user_step ?w1 ?w2" by (rule navigate)
  then have s1: "content_step e ?w1 ?w2" by (rule acted)
  have "jobs ?w2 = [] @ SkipJob a r # []" by (simp add: w1)
  from answered [OF this] have s2: "content_step e ?w2 ?w3" .
  have t: "getThreshold (?w2\<lparr>jobs := []\<rparr>) = getThreshold w" by (simp add: w1 getThreshold_def)
  have "getCurrentShortVideoId e ?w3 = Some b \<and> skipLog ?w3 = skipLog w @ [ClickNext]"
    using assms(2-4) t
    by (simp add: answer_def skipResume_eq getCurrentShortVideoId_def)
      (simp add: skipToNextShort_def markSkipped_def w1 split: option.split)
  moreover have "rtranclp (content_step e) ?w1 ?w3"
    by (rule tab_system.and_then [OF s1 tab_system.and_then [OF s2 tab_system.no_step]])
  ultimately show ?thesis by blast
qed

theorem skip_hits_next_short_witness:
  "\<exists>w' :: content. getCurrentShortVideoId (sample_tab_env (\<lambda>_ _. Inr None)) w' = Some ''xxxxxxxxxxx'' \<and>
     skipLog w' = [ClickNext]"
  using skip_hits_next_short [of "sample_tab_env (\<lambda>_ _. Inr None)" on_short "''abcdefghijk''" "Some 0"
      "[sample_video ''abcdefghijk'' 75]" "''xxxxxxxxxxx''" "''xxxxxxxxxxx''"]
  by (auto simp: flagsVideo_def sample_video_def)

end
