(* ===== verification/Options.thy ===== *)
theory Options
  imports Background
begin

text \<open>
  \<open>options/options.tsx\<close>: the settings page. Modelled are the settings with their defaults, what
  loading makes of the stored items, the page's state and effects (the React state and refs as
  one record, a render taken to follow each state change at once) and every edit a control can
  make; what the page renders is in \<open>Options_View\<close>. \<open>stored\<close> is \<open>chrome.storage.sync\<close>: each item the
  extension keeps there, None when unset.
\<close>

section \<open>Stored items and settings\<close>

record sync_items =
  enabledItem :: "bool option"
  shortsFilterItem :: "bool option"
  defaultActionItem :: "string option"
  hideThresholdItem :: "rat option"
  categoryThresholdsItem :: "(string \<rightharpoonup> rat) option"
  badgeStyleItem :: "string option"
  showNotificationsItem :: "bool option"
  hashPrefixModeItem :: "bool option"
  serverUrlItem :: "string option"
  cacheTtlItem :: "rat option"
  debugLoggingItem :: "bool option"

record Settings =
  enabled :: bool
  shortsFilterEnabled :: bool
  defaultAction :: string
  hideThreshold :: rat
  categoryThresholds :: "string \<rightharpoonup> rat"
  badgeStyle :: string
  showNotifications :: bool
  hashPrefixMode :: bool
  serverUrl :: string
  cacheTtlMinutes :: rat
  debugLogging :: bool

definition DEFAULT_SETTINGS :: Settings where
  "DEFAULT_SETTINGS = \<lparr>
     enabled = True,
     shortsFilterEnabled = True,
     defaultAction = ''hide'',
     hideThreshold = 50,
     categoryThresholds = [''fully_ai'' \<mapsto> 50, ''ai_voiceover'' \<mapsto> 60, ''ai_visuals'' \<mapsto> 60,
       ''ai_thumbnails'' \<mapsto> 70, ''ai_assisted'' \<mapsto> 70],
     badgeStyle = ''badge'',
     showNotifications = True,
     hashPrefixMode = True,
     serverUrl = '''',
     cacheTtlMinutes = 30,
     debugLogging = False\<rparr>"

definition CATEGORIES :: "(string \<times> string \<times> string) list" where
  "CATEGORIES =
     [(''fully_ai'', ''Fully AI-Generated'', ''Entire video is AI: visuals, audio, script''),
      (''ai_voiceover'', ''AI Voiceover'', ''Real footage with AI-generated narration''),
      (''ai_visuals'', ''AI Visuals'', ''AI-generated images/video with human voice''),
      (''ai_thumbnails'', ''AI Thumbnails Only'', ''Only thumbnail is AI-generated''),
      (''ai_assisted'', ''AI-Assisted'', ''Significant AI editing/enhancement'')]"

text \<open>\<open>x !== undefined ? x : d\<close>, and \<open>x || d\<close> on strings.\<close>

definition orDefault :: "'a option \<Rightarrow> 'a \<Rightarrow> 'a" where
  "orDefault x d = (case x of None \<Rightarrow> d | Some v \<Rightarrow> v)"

definition orElse :: "string option \<Rightarrow> string \<Rightarrow> string" where
  "orElse x d = (if truthy x then the x else d)"

definition loadSettings :: "sync_items \<Rightarrow> Settings" where
  "loadSettings items = \<lparr>
     enabled = orDefault (enabledItem items) (enabled DEFAULT_SETTINGS),
     shortsFilterEnabled = orDefault (shortsFilterItem items) (shortsFilterEnabled DEFAULT_SETTINGS),
     defaultAction = orElse (defaultActionItem items) (defaultAction DEFAULT_SETTINGS),
     hideThreshold = orDefault (hideThresholdItem items) (hideThreshold DEFAULT_SETTINGS),
     categoryThresholds = categoryThresholds DEFAULT_SETTINGS ++ orDefault (categoryThresholdsItem items) Map.empty,
     badgeStyle = orElse (badgeStyleItem items) (badgeStyle DEFAULT_SETTINGS),
     showNotifications = orDefault (showNotificationsItem items) (showNotifications DEFAULT_SETTINGS),
     hashPrefixMode = orDefault (hashPrefixModeItem items) (hashPrefixMode DEFAULT_SETTINGS),
     serverUrl = orElse (serverUrlItem items) (serverUrl DEFAULT_SETTINGS),
     cacheTtlMinutes = orDefault (cacheTtlItem items) (cacheTtlMinutes DEFAULT_SETTINGS),
     debugLogging = orDefault (debugLoggingItem items) (debugLogging DEFAULT_SETTINGS)\<rparr>"

text \<open>\<open>chrome.storage.sync.set(next)\<close>: every setting is written.\<close>

definition storeSettings :: "Settings \<Rightarrow> sync_items \<Rightarrow> sync_items" where
  "storeSettings s items = items\<lparr>
     enabledItem := Some (enabled s),
     shortsFilterItem := Some (shortsFilterEnabled s),
     defaultActionItem := Some (defaultAction s),
     hideThresholdItem := Some (hideThreshold s),
     categoryThresholdsItem := Some (categoryThresholds s),
     badgeStyleItem := Some (badgeStyle s),
     showNotificationsItem := Some (showNotifications s),
     hashPrefixModeItem := Some (hashPrefixMode s),
     serverUrlItem := Some (serverUrl s),
     cacheTtlItem := Some (cacheTtlMinutes s),
     debugLoggingItem := Some (debugLogging s)\<rparr>"

section \<open>The page\<close>

text \<open>Where the effect that loads the page is: which answer it waits for.\<close>

datatype load_stage = AwaitSettings | AwaitUserId | AwaitUserInfo | Done

record options = platform +
  stored :: sync_items
  loading :: bool
  settings :: Settings
  shownUserId :: "string option"
  userInfo :: "UserInfoResponse option"
  toastVisible :: bool
  saveTimer :: "(int \<times> Settings) option"
  toastTimer :: "int option"
  loadStage :: load_stage

definition openOptions :: "int \<Rightarrow> sync_items \<Rightarrow> options" where
  "openOptions now items = \<lparr>clock = now, stored = items, loading = True, settings = DEFAULT_SETTINGS,
     shownUserId = None, userInfo = None, toastVisible = False, saveTimer = None, toastTimer = None,
     loadStage = AwaitSettings\<rparr>"

definition settingsLoaded :: "'w options_scheme \<Rightarrow> 'w options_scheme" where
  "settingsLoaded w = w\<lparr>settings := loadSettings (stored w), loading := False, loadStage := AwaitUserId\<rparr>"

text \<open>The answers to \<open>GET_USER_ID\<close> and \<open>GET_USER_INFO\<close>; a rejected message is silent.\<close>

definition userIdAnswered :: "js_error + MessageResponse \<Rightarrow> 'w options_scheme \<Rightarrow> 'w options_scheme" where
  "userIdAnswered res w =
     (let w1 = (case res of
          Inl err \<Rightarrow> w
        | Inr r \<Rightarrow> if MessageResponse.success r
            then w\<lparr>shownUserId := (case respData r of Some (UserIdData uid) \<Rightarrow> if uid = '''' then None else Some uid | _ \<Rightarrow> None)\<rparr>
            else w)
      in w1\<lparr>loadStage := AwaitUserInfo\<rparr>)"

definition userInfoAnswered :: "js_error + MessageResponse \<Rightarrow> 'w options_scheme \<Rightarrow> 'w options_scheme" where
  "userInfoAnswered res w =
     (let w1 = (case res of
          Inl err \<Rightarrow> w
        | Inr r \<Rightarrow> if MessageResponse.success r
            then w\<lparr>userInfo := (case respData r of Some (BodyData (UserBody u)) \<Rightarrow> Some u | _ \<Rightarrow> None)\<rparr>
            else w)
      in w1\<lparr>loadStage := Done\<rparr>)"

section \<open>Saving\<close>

text \<open>
  \<open>armSave ms\<close>: the pending write is dropped and one of the current settings is due in \<open>ms\<close>
  milliseconds; \<open>save\<close> merges a partial update into the settings first.
\<close>

definition armSave :: "int \<Rightarrow> 'w options_scheme \<Rightarrow> 'w options_scheme" where
  "armSave ms w =
     (let w1 = (if saveTimer w \<noteq> None then w\<lparr>saveTimer := None\<rparr> else w)
      in w1\<lparr>saveTimer := Some (clock w1 + timerDelay (Some ms), settings w1)\<rparr>)"

definition save :: "(Settings \<Rightarrow> Settings) \<Rightarrow> 'w options_scheme \<Rightarrow> 'w options_scheme" where
  "save partial w = armSave 300 (w\<lparr>settings := partial (settings w)\<rparr>)"

definition armToast :: "int \<Rightarrow> 'w options_scheme \<Rightarrow> 'w options_scheme" where
  "armToast ms w =
     (let w1 = (if toastTimer w \<noteq> None then w\<lparr>toastTimer := None\<rparr> else w)
      in w1\<lparr>toastTimer := Some (clock w1 + timerDelay (Some ms))\<rparr>)"

definition onSaveTimer :: "Settings \<Rightarrow> 'w options_scheme \<Rightarrow> 'w options_scheme" where
  "onSaveTimer next w = armToast 1500 (w\<lparr>stored := storeSettings next (stored w), toastVisible := True\<rparr>)"

definition onToastTimer :: "'w options_scheme \<Rightarrow> 'w options_scheme" where
  "onToastTimer w = w\<lparr>toastVisible := False\<rparr>"

definition setCategoryThreshold :: "string \<Rightarrow> rat \<Rightarrow> 'w options_scheme \<Rightarrow> 'w options_scheme" where
  "setCategoryThreshold catId v w =
     (let updated = (categoryThresholds (settings w))(catId \<mapsto> v)
      in save (\<lambda>s. s\<lparr>categoryThresholds := updated\<rparr>) w)"

text \<open>\<open>Math.max(5, Math.min(1440, Number(v) || 30))\<close>; None is NaN.\<close>

definition clampTtl :: "rat option \<Rightarrow> rat" where
  "clampTtl v = max 5 (min 1440 (case v of None \<Rightarrow> 30 | Some n \<Rightarrow> if n = 0 then 30 else n))"

section \<open>The controls\<close>

datatype edit =
    ToggleEnabled bool
  | ChooseAction string
  | ToggleShorts bool
  | SlideThreshold rat
  | SlideCategory string rat
  | ChooseBadge string
  | ToggleNotifications bool
  | TypeServerUrl string
  | TypeCacheTtl "rat option"
  | ToggleDebug bool

text \<open>What a control can produce: one of its options, a slider position from 0 to 100.\<close>

definition possible :: "edit \<Rightarrow> bool" where
  "possible ed = (case ed of
       ChooseAction a \<Rightarrow> a \<in> {''hide'', ''warn'', ''dim'', ''ignore''}
     | SlideThreshold v \<Rightarrow> v \<in> of_nat ` {0..100}
     | SlideCategory c v \<Rightarrow> c \<in> set (map fst CATEGORIES) \<and> v \<in> of_nat ` {0..100}
     | ChooseBadge b \<Rightarrow> b \<in> {''badge'', ''dot'', ''none''}
     | _ \<Rightarrow> True)"

definition onEdit :: "edit \<Rightarrow> 'w options_scheme \<Rightarrow> 'w options_scheme" where
  "onEdit ed = (case ed of
       ToggleEnabled v \<Rightarrow> save (\<lambda>s. s\<lparr>enabled := v\<rparr>)
     | ChooseAction a \<Rightarrow> save (\<lambda>s. s\<lparr>defaultAction := a\<rparr>)
     | ToggleShorts v \<Rightarrow> save (\<lambda>s. s\<lparr>shortsFilterEnabled := v\<rparr>)
     | SlideThreshold v \<Rightarrow> save (\<lambda>s. s\<lparr>hideThreshold := v\<rparr>)
     | SlideCategory c v \<Rightarrow> setCategoryThreshold c v
     | ChooseBadge b \<Rightarrow> save (\<lambda>s. s\<lparr>badgeStyle := b\<rparr>)
     | ToggleNotifications v \<Rightarrow> save (\<lambda>s. s\<lparr>showNotifications := v\<rparr>)
     | TypeServerUrl u \<Rightarrow> save (\<lambda>s. s\<lparr>serverUrl := u\<rparr>)
     | TypeCacheTtl n \<Rightarrow> save (\<lambda>s. s\<lparr>cacheTtlMinutes := clampTtl n\<rparr>)
     | ToggleDebug v \<Rightarrow> save (\<lambda>s. s\<lparr>debugLogging := v\<rparr>))"

section \<open>The page as a transition system\<close>

text \<open>
  \<open>others\<close>: another part of the extension, or another device, writes the synced storage. The
  page's controls exist once it has loaded.
\<close>

inductive options_step :: "'w options_scheme \<Rightarrow> 'w options_scheme \<Rightarrow> bool" where
  loaded: "loadStage w = AwaitSettings \<Longrightarrow> options_step w (settingsLoaded w)"
| gotUserId: "loadStage w = AwaitUserId \<Longrightarrow> options_step w (userIdAnswered r w)"
| gotUserInfo: "loadStage w = AwaitUserInfo \<Longrightarrow> options_step w (userInfoAnswered r w)"
| edited: "\<not> loading w \<Longrightarrow> possible ed \<Longrightarrow> options_step w (onEdit ed w)"
| saved: "saveTimer w = Some (t, next) \<Longrightarrow> t \<le> clock w \<Longrightarrow> options_step w (onSaveTimer next (w\<lparr>saveTimer := None\<rparr>))"
| toasted: "toastTimer w = Some t \<Longrightarrow> t \<le> clock w \<Longrightarrow> options_step w (onToastTimer (w\<lparr>toastTimer := None\<rparr>))"
| passed: "0 \<le> d \<Longrightarrow> options_step w (w\<lparr>clock := clock w + d\<rparr>)"
| others: "options_step w (w\<lparr>stored := items\<rparr>)"

inductive_cases options_stepE: "options_step w w'"

interpretation save_slot: timer_slot clock "\<lambda>w. map_option fst (saveTimer w)" armSave
  by unfold_locales (simp_all add: armSave_def Let_def)

interpretation toast_slot: timer_slot clock toastTimer armToast
  by unfold_locales (simp_all add: armToast_def Let_def)


section \<open>Invariant\<close>

text \<open>
  \<open>settings_wf\<close>: what every settings value the page can hold satisfies. \<open>options_ok\<close>: the page
  shows well-formed settings once it has loaded, and a pending write is of the settings it shows.
\<close>

definition settings_wf :: "Settings \<Rightarrow> bool" where
  "settings_wf s \<longleftrightarrow> set (map fst CATEGORIES) \<subseteq> dom (categoryThresholds s) \<and> defaultAction s \<noteq> '''' \<and> badgeStyle s \<noteq> ''''"

definition options_ok :: "'w options_scheme \<Rightarrow> bool" where
  "options_ok w \<longleftrightarrow> settings_wf (settings w) \<and> (loading w \<longleftrightarrow> loadStage w = AwaitSettings) \<and>
     (loading w \<longrightarrow> saveTimer w = None) \<and> (\<forall>t s. saveTimer w = Some (t, s) \<longrightarrow> s = settings w \<and> t \<le> clock w + 300)"

lemma default_wf: "settings_wf DEFAULT_SETTINGS"
  by (simp add: settings_wf_def DEFAULT_SETTINGS_def CATEGORIES_def)

lemma default_fields [simp]:
  "dom (categoryThresholds DEFAULT_SETTINGS) = set (map fst CATEGORIES)"
  "defaultAction DEFAULT_SETTINGS = ''hide''" "badgeStyle DEFAULT_SETTINGS = ''badge''" "serverUrl DEFAULT_SETTINGS = ''''"
  by (auto simp: DEFAULT_SETTINGS_def CATEGORIES_def)

lemma load_wf: "settings_wf (loadSettings items)"
  by (auto simp: settings_wf_def loadSettings_def orElse_def truthy_def)

lemma map_add_dom: "dom m \<subseteq> dom n \<Longrightarrow> m ++ n = n"
  by (auto simp: map_add_def fun_eq_iff split: option.split)

lemma load_store: "settings_wf s \<Longrightarrow> loadSettings (storeSettings s items) = s"
  by (simp add: loadSettings_def storeSettings_def orDefault_def orElse_def truthy_def settings_wf_def map_add_dom)

lemma save_state:
  "settings (save f w) = f (settings w)" "saveTimer (save f w) = Some (clock w + 300, f (settings w))"
  "loading (save f w) = loading w" "loadStage (save f w) = loadStage w" "stored (save f w) = stored w" "clock (save f w) = clock w"
  by (simp_all add: save_def armSave_def Let_def timerDelay_small)

text \<open>Every edit is a save of some update of the settings.\<close>

definition editOf :: "edit \<Rightarrow> Settings \<Rightarrow> Settings" where
  "editOf ed s = (case ed of
       ToggleEnabled v \<Rightarrow> s\<lparr>enabled := v\<rparr> | ChooseAction a \<Rightarrow> s\<lparr>defaultAction := a\<rparr>
     | ToggleShorts v \<Rightarrow> s\<lparr>shortsFilterEnabled := v\<rparr> | SlideThreshold v \<Rightarrow> s\<lparr>hideThreshold := v\<rparr>
     | SlideCategory c v \<Rightarrow> s\<lparr>categoryThresholds := (categoryThresholds s)(c \<mapsto> v)\<rparr>
     | ChooseBadge b \<Rightarrow> s\<lparr>badgeStyle := b\<rparr> | ToggleNotifications v \<Rightarrow> s\<lparr>showNotifications := v\<rparr>
     | TypeServerUrl u \<Rightarrow> s\<lparr>serverUrl := u\<rparr> | TypeCacheTtl n \<Rightarrow> s\<lparr>cacheTtlMinutes := clampTtl n\<rparr>
     | ToggleDebug v \<Rightarrow> s\<lparr>debugLogging := v\<rparr>)"

lemma onEdit_eq: "onEdit ed w = save (editOf ed) w"
  by (cases ed) (simp_all add: onEdit_def editOf_def [abs_def] setCategoryThreshold_def Let_def save_def)

lemma edit_wf: "possible ed \<Longrightarrow> settings_wf s \<Longrightarrow> settings_wf (editOf ed s)"
  by (cases ed) (auto simp: settings_wf_def editOf_def possible_def)

lemma options_step_ok:
  assumes "options_step w w'" and "options_ok w"
  shows "options_ok w'"
  using assms(1)
proof cases
  case loaded
  with assms(2) show ?thesis by (simp add: options_ok_def settingsLoaded_def load_wf)
next
  case (gotUserId r)
  with assms(2) show ?thesis
    by (simp add: options_ok_def userIdAnswered_def Let_def split: sum.split)
next
  case (gotUserInfo r)
  with assms(2) show ?thesis
    by (simp add: options_ok_def userInfoAnswered_def Let_def split: sum.split)
next
  case (edited ed)
  with assms(2) show ?thesis by (simp add: options_ok_def onEdit_eq save_state edit_wf)
next
  case (passed d)
  with assms(2) show ?thesis by (fastforce simp: options_ok_def)
qed (use assms(2) in \<open>simp_all add: options_ok_def onSaveTimer_def onToastTimer_def armToast_def Let_def\<close>)

interpretation options_system: step_system options_step options_ok
  by unfold_locales (rule options_step_ok)

lemma openOptions_ok: "options_ok (openOptions now items)"
  by (simp add: options_ok_def openOptions_def default_wf)


section \<open>Properties\<close>

text \<open>
  C26: settings round trip. Whatever was stored when the page was opened and whatever the user
  edited since, the settings the page shows are exactly what it would load after writing them;
  and the write that is pending, if one is, is of those settings.
\<close>

theorem options_roundtrip:
  assumes "rtranclp options_step (openOptions now items) w"
  shows "loadSettings (storeSettings (settings w) its) = settings w \<and>
     (\<forall>t s. saveTimer w = Some (t, s) \<longrightarrow> loadSettings (stored (onSaveTimer s (w\<lparr>saveTimer := None\<rparr>))) = settings w)"
proof -
  from options_system.steps_ok [OF assms openOptions_ok] have ok: "options_ok w" .
  then have "settings_wf (settings w)" by (simp add: options_ok_def)
  with ok show ?thesis
    by (auto simp: options_ok_def load_store onSaveTimer_def armToast_def Let_def)
qed

definition empty_items :: sync_items where
  "empty_items = \<lparr>enabledItem = None, shortsFilterItem = None, defaultActionItem = None, hideThresholdItem = None,
     categoryThresholdsItem = None, badgeStyleItem = None, showNotificationsItem = None, hashPrefixModeItem = None,
     serverUrlItem = None, cacheTtlItem = None, debugLoggingItem = None\<rparr>"

theorem options_roundtrip_witness:
  "loadSettings (storeSettings (settings (settingsLoaded (openOptions 0 empty_items))) empty_items) =
     settings (settingsLoaded (openOptions 0 empty_items))"
proof -
  have "options_step (openOptions 0 empty_items) (settingsLoaded (openOptions 0 empty_items))"
    by (rule loaded) (simp add: openOptions_def)
  then have "rtranclp options_step (openOptions 0 empty_items) (settingsLoaded (openOptions 0 empty_items))"
    by blast
  from options_roundtrip [OF this] show ?thesis by blast
qed

text \<open>
  The cache lifetime stays within its bounds: whatever is typed, also something that is not
  a number, the value saved is between 5 and 1440 minutes; a number within the bounds is saved
  as it is, and nothing or zero counts as 30.
\<close>

theorem cacheTtl_bounds:
  "5 \<le> cacheTtlMinutes (settings (onEdit (TypeCacheTtl v) w)) \<and> cacheTtlMinutes (settings (onEdit (TypeCacheTtl v) w)) \<le> 1440 \<and>
   (v = None \<or> v = Some 0 \<longrightarrow> cacheTtlMinutes (settings (onEdit (TypeCacheTtl v) w)) = 30) \<and>
   (\<forall>n. v = Some n \<and> 5 \<le> n \<and> n \<le> 1440 \<longrightarrow> cacheTtlMinutes (settings (onEdit (TypeCacheTtl v) w)) = n)"
  by (auto simp: onEdit_eq save_state editOf_def clampTtl_def split: option.split)

theorem cacheTtl_bounds_witness:
  "cacheTtlMinutes (settings (onEdit (TypeCacheTtl (Some 60)) (openOptions 0 empty_items))) = 60"
  using cacheTtl_bounds [of "Some 60" "openOptions 0 empty_items"] by simp

text \<open>
  A burst of edits is written once. Edits that follow each other within the save delay
  leave one pending write, 300 ms after the last of them, of the settings with all of them
  applied in order; until it fires the storage is untouched.
\<close>

theorem options_burst:
  assumes "eds \<noteq> []"
  shows "saveTimer (fold onEdit eds w) = Some (clock w + 300, fold editOf eds (settings w)) \<and>
     stored (fold onEdit eds w) = stored w"
proof -
  have "settings (fold onEdit eds w) = fold editOf eds (settings w) \<and> clock (fold onEdit eds w) = clock w \<and>
      stored (fold onEdit eds w) = stored w \<and>
      (eds \<noteq> [] \<longrightarrow> saveTimer (fold onEdit eds w) = Some (clock w + 300, fold editOf eds (settings w)))" for eds
    by (induction eds rule: rev_induct) (simp_all add: onEdit_eq save_state)
  with assms show ?thesis by blast
qed

theorem options_burst_witness:
  "stored (fold onEdit [ToggleEnabled False, SlideThreshold 70] (openOptions 0 empty_items)) = empty_items"
  using options_burst [of "[ToggleEnabled False, SlideThreshold 70]" "openOptions 0 empty_items"]
  by (simp add: openOptions_def)

text \<open>
  C39: saving one setting overwrites the others. A save writes every setting the page holds,
  and the page does not listen for changes made elsewhere: when the popup pauses the extension
  while the settings page is open, changing any other setting there switches it on again.
\<close>

theorem options_undoes_pause:
  assumes "\<not> loading w" and "enabled (settings w)" and "possible ed" and "\<And>v. ed \<noteq> ToggleEnabled v"
  shows "\<exists>w'. rtranclp options_step (w\<lparr>stored := (stored w)\<lparr>enabledItem := Some False\<rparr>\<rparr>) w' \<and>
     enabledItem (stored w') = Some True"
proof -
  let ?p = "w\<lparr>stored := (stored w)\<lparr>enabledItem := Some False\<rparr>\<rparr>"
  let ?a = "onEdit ed ?p"
  let ?b = "?a\<lparr>clock := clock ?a + 300\<rparr>"
  let ?s = "editOf ed (settings w)"
  have s: "saveTimer ?b = Some (clock w + 300, ?s)" "clock ?b = clock w + 300"
    by (simp_all add: onEdit_eq save_state)
  have s1: "options_step ?p ?a" using assms(1,3) by (intro edited) simp_all
  have s2: "options_step ?a ?b" by (rule passed) simp
  have s3: "options_step ?b (onSaveTimer ?s (?b\<lparr>saveTimer := None\<rparr>))"
    by (rule saved [OF s(1)]) (simp only: s(2) order.refl)
  have "rtranclp options_step ?p (onSaveTimer ?s (?b\<lparr>saveTimer := None\<rparr>))"
    by (rule options_system.and_then [OF s1 options_system.and_then [OF s2 options_system.and_then [OF s3 options_system.no_step]]])
  moreover have "enabled ?s"
  proof (cases ed)
    case (ToggleEnabled v)
    with assms(4) show ?thesis by blast
  qed (use assms(2) in \<open>simp_all add: editOf_def\<close>)
  then have "enabledItem (stored (onSaveTimer ?s (?b\<lparr>saveTimer := None\<rparr>))) = Some True"
    by (simp add: onSaveTimer_def armToast_def Let_def storeSettings_def)
  ultimately show ?thesis by blast
qed

theorem options_undoes_pause_witness:
  "\<exists>w' :: options. enabledItem (stored w') = Some True"
proof -
  let ?w = "settingsLoaded (openOptions 0 empty_items)"
  have "\<exists>w'. rtranclp options_step (?w\<lparr>stored := (stored ?w)\<lparr>enabledItem := Some False\<rparr>\<rparr>) w' \<and> enabledItem (stored w') = Some True"
    by (rule options_undoes_pause [where ed = "ToggleDebug True"])
      (simp_all add: settingsLoaded_def openOptions_def loadSettings_def empty_items_def orDefault_def possible_def DEFAULT_SETTINGS_def)
  then show ?thesis by blast
qed

end
