(* ===== verification/Jsx.thy ===== *)
theory Jsx
  imports Js_Std
begin

text \<open>
  What the React pages render: trees of elements, texts, fragments and nothing (what \<open>null\<close>,
  \<open>false\<close> and \<open>cond && x\<close> with a false condition render). A component is a function from its
  properties to such a tree. A handler is what it does to the state of the page.

  Text is a list of pieces, since the pages splice numbers into templates: \<open>Num\<close> is a number as
  JavaScript prints it, \<open>Grouped\<close> one printed by \<open>toLocaleString\<close>, \<open>Code\<close> a character by its code
  point. Text that JSX breaks over lines is joined by single blanks, as JSX joins it.
\<close>

section \<open>Trees\<close>

datatype piece = Lit string | Num rat | Grouped rat | Code nat

text \<open>
  \<open>OnCheck\<close>: \<open>onChange\<close> read through \<open>e.target.checked\<close>. \<open>OnText\<close>: through \<open>e.target.value\<close>.
  \<open>OnNumber\<close>: through \<open>Number(e.target.value)\<close>, None being NaN.
\<close>

datatype 'h attr =
    Attr string "piece list"
  | Flag string bool
  | Style "(string \<times> piece list) list"
  | OnClick 'h
  | OnCheck "bool \<Rightarrow> 'h"
  | OnText "string \<Rightarrow> 'h"
  | OnNumber "rat option \<Rightarrow> 'h"

datatype 'h jsx = Elem string "'h attr list" "'h jsx list" | Text "piece list" | Fragment "'h jsx list" | Nothing

abbreviation lit :: "string \<Rightarrow> string \<Rightarrow> 'h attr" where
  "lit name v \<equiv> Attr name [Lit v]"

abbreviation "cls c \<equiv> lit ''className'' c"

abbreviation "says s \<equiv> Text [Lit s]"

section \<open>What the user can do\<close>

text \<open>
  An element fires its handlers unless it is disabled: a click, a tick, a text (of a selection:
  one of its options), a number (of a slider: from its minimum to its maximum in steps of one;
  of a number field: anything, also nothing).
\<close>

fun textAttr :: "string \<Rightarrow> 'h attr list \<Rightarrow> string option" where
  "textAttr n [] = None"
| "textAttr n (Attr m [Lit v] # as) = (if m = n then Some v else textAttr n as)"
| "textAttr n (_ # as) = textAttr n as"

fun numAttr :: "string \<Rightarrow> 'h attr list \<Rightarrow> rat option" where
  "numAttr n [] = None"
| "numAttr n (Attr m [Num v] # as) = (if m = n then Some v else numAttr n as)"
| "numAttr n (_ # as) = numAttr n as"

fun flagged :: "string \<Rightarrow> 'h attr list \<Rightarrow> bool" where
  "flagged n [] = False"
| "flagged n (Flag m b # as) = (if m = n then b else flagged n as)"
| "flagged n (_ # as) = flagged n as"

definition opt_list :: "'a option \<Rightarrow> 'a list" where
  "opt_list x = (case x of None \<Rightarrow> [] | Some v \<Rightarrow> [v])"

fun optionValues :: "'h jsx list \<Rightarrow> string list" where
  "optionValues [] = []"
| "optionValues (Elem t as us # cs) = (if t = ''option'' then opt_list (textAttr ''value'' as) else []) @ optionValues cs"
| "optionValues (_ # cs) = optionValues cs"

definition sliderNumbers :: "rat option \<Rightarrow> rat option \<Rightarrow> rat option set" where
  "sliderNumbers lo hi =
     (case (lo, hi) of (Some a, Some b) \<Rightarrow> {Some (a + of_nat k) | k. a + of_nat k \<le> b} | _ \<Rightarrow> UNIV)"

fun fired :: "string \<Rightarrow> 'h attr list \<Rightarrow> 'h jsx list \<Rightarrow> 'h attr \<Rightarrow> 'h set" where
  "fired t as cs (OnClick h) = {h}"
| "fired t as cs (OnCheck f) = range f"
| "fired t as cs (OnText f) = (if t = ''select'' then f ` set (optionValues cs) else range f)"
| "fired t as cs (OnNumber f) =
     f ` (if textAttr ''type'' as = Some ''range'' then sliderNumbers (numAttr ''min'' as) (numAttr ''max'' as) else UNIV)"
| "fired t as cs _ = {}"

fun fires :: "'h jsx \<Rightarrow> 'h set" where
  "fires (Elem t as cs) =
     (if flagged ''disabled'' as then {} else \<Union> (fired t as cs ` set as)) \<union> \<Union> (fires ` set cs)"
| "fires (Fragment cs) = \<Union> (fires ` set cs)"
| "fires (Text ps) = {}"
| "fires Nothing = {}"

section \<open>What the user sees of the controls\<close>

text \<open>In the order of the page: which boxes are ticked, and the values of selections and fields.\<close>

fun ticks :: "'h jsx \<Rightarrow> bool list" where
  "ticks (Elem t as cs) =
     (if textAttr ''type'' as = Some ''checkbox'' then [flagged ''checked'' as] else []) @ concat (map ticks cs)"
| "ticks (Fragment cs) = concat (map ticks cs)"
| "ticks (Text ps) = []"
| "ticks Nothing = []"

fun pieces :: "string \<Rightarrow> 'h attr list \<Rightarrow> piece list option" where
  "pieces n [] = None"
| "pieces n (Attr m ps # as) = (if m = n then Some ps else pieces n as)"
| "pieces n (_ # as) = pieces n as"

fun fields :: "'h jsx \<Rightarrow> piece list list" where
  "fields (Elem t as cs) =
     (if t \<in> {''input'', ''select''} then opt_list (pieces ''value'' as) else []) @ concat (map fields cs)"
| "fields (Fragment cs) = concat (map fields cs)"
| "fields (Text ps) = []"
| "fields Nothing = []"

text \<open>The texts of the page.\<close>

fun texts :: "'h jsx \<Rightarrow> piece list list" where
  "texts (Elem t as cs) = concat (map texts cs)"
| "texts (Fragment cs) = concat (map texts cs)"
| "texts (Text ps) = [ps]"
| "texts Nothing = []"

section \<open>Icons\<close>

text \<open>The frame of the pages' inline icons, with the width of its strokes.\<close>

definition svgIcon :: "rat \<Rightarrow> 'h jsx list \<Rightarrow> 'h jsx" where
  "svgIcon width shapes =
     Elem ''svg'' [lit ''viewBox'' ''0 0 24 24'', lit ''fill'' ''none'', lit ''stroke'' ''currentColor'',
       Attr ''strokeWidth'' [Num width], lit ''strokeLinecap'' ''round'', lit ''strokeLinejoin'' ''round''] shapes"

definition path :: "string \<Rightarrow> 'h jsx" where
  "path d = Elem ''path'' [lit ''d'' d] []"

definition circle :: "rat \<Rightarrow> rat \<Rightarrow> rat \<Rightarrow> 'h jsx" where
  "circle x y r = Elem ''circle'' [Attr ''cx'' [Num x], Attr ''cy'' [Num y], Attr ''r'' [Num r]] []"

definition line :: "rat \<Rightarrow> rat \<Rightarrow> rat \<Rightarrow> rat \<Rightarrow> 'h jsx" where
  "line x1 y1 x2 y2 = Elem ''line'' [Attr ''x1'' [Num x1], Attr ''y1'' [Num y1], Attr ''x2'' [Num x2], Attr ''y2'' [Num y2]] []"

definition polyline :: "string \<Rightarrow> 'h jsx" where
  "polyline points = Elem ''polyline'' [lit ''points'' points] []"

definition polygon :: "string \<Rightarrow> 'h jsx" where
  "polygon points = Elem ''polygon'' [lit ''points'' points, lit ''fill'' ''currentColor'', lit ''stroke'' ''none''] []"

text \<open>A picture: nothing to do, nothing to read.\<close>

definition inert :: "'h jsx \<Rightarrow> bool" where
  "inert x \<longleftrightarrow> fires x = {} \<and> ticks x = [] \<and> fields x = [] \<and> texts x = []"

lemma inert_shapes [simp]:
  "inert (path d)" "inert (circle x y r)" "inert (line x1 y1 x2 y2)" "inert (polyline ps)" "inert (polygon ps)"
  by (simp_all add: inert_def path_def circle_def line_def polyline_def polygon_def)

lemma inert_svgIcon: "list_all inert cs \<Longrightarrow> inert (svgIcon width cs)"
  by (induction cs) (auto simp: inert_def svgIcon_def)

lemma inertD: "inert x \<Longrightarrow> fires x = {}" "inert x \<Longrightarrow> ticks x = []" "inert x \<Longrightarrow> fields x = []" "inert x \<Longrightarrow> texts x = []"
  by (simp_all add: inert_def)

end
