(* ===== verification/Options_View.thy ===== *)
theory Options_View
  imports Options Jsx
begin

text \<open>
  What \<open>options/options.tsx\<close> renders, as a tree that depends on the page's state: the icons, the
  toggle and slider components, the sections of the page. A handler of the tree changes the
  state as the source's handler does. The last part shows that what the tree offers is what
  the edits of \<open>Options\<close> are, and that it shows the settings.
\<close>

section \<open>Icons\<close>

definition IconEyeLogo :: "'h jsx" where
  "IconEyeLogo = svgIcon (9 / 5)
    [path ''M1 12s4-8 11-8 11 8 11 8-4 8-11 8S1 12 1 12z'',
     polygon ''12,8 16,12 12,16 8,12'']"

definition IconSettings :: "'h jsx" where
  "IconSettings = svgIcon 2
    [circle 12 12 3,
     path ''M19.4 15a1.65 1.65 0 0 0 .33 1.82l.06.06a2 2 0 0 1-2.83 2.83l-.06-.06a1.65 1.65 0 0 0-1.82-.33 1.65 1.65 0 0 0-1 1.51V21a2 2 0 0 1-4 0v-.09A1.65 1.65 0 0 0 9 19.4a1.65 1.65 0 0 0-1.82.33l-.06.06a2 2 0 0 1-2.83-2.83l.06-.06A1.65 1.65 0 0 0 4.68 15a1.65 1.65 0 0 0-1.51-1H3a2 2 0 0 1 0-4h.09A1.65 1.65 0 0 0 4.6 9a1.65 1.65 0 0 0-.33-1.82l-.06-.06a2 2 0 0 1 2.83-2.83l.06.06A1.65 1.65 0 0 0 9 4.68a1.65 1.65 0 0 0 1-1.51V3a2 2 0 0 1 4 0v.09a1.65 1.65 0 0 0 1 1.51 1.65 1.65 0 0 0 1.82-.33l.06-.06a2 2 0 0 1 2.83 2.83l-.06.06A1.65 1.65 0 0 0 19.4 9a1.65 1.65 0 0 0 1.51 1H21a2 2 0 0 1 0 4h-.09a1.65 1.65 0 0 0-1.51 1z'']"

definition IconSliders :: "'h jsx" where
  "IconSliders = svgIcon 2
    [line 4 21 4 14,
     line 4 10 4 3,
     line 12 21 12 12,
     line 12 8 12 3,
     line 20 21 20 16,
     line 20 12 20 3,
     line 1 14 7 14,
     line 9 8 15 8,
     line 17 16 23 16]"

definition IconEye :: "'h jsx" where
  "IconEye = svgIcon 2
    [path ''M1 12s4-8 11-8 11 8 11 8-4 8-11 8-11-8-11-8z'',
     circle 12 12 3]"

definition IconShield :: "'h jsx" where
  "IconShield = svgIcon 2 [path ''M12 22s8-4 8-10V5l-8-3-8 3v7c0 6 8 10 8 10z'']"

definition IconTerminal :: "'h jsx" where
  "IconTerminal = svgIcon 2
    [polyline ''4 17 10 11 4 5'',
     line 12 19 20 19]"

definition IconInfo :: "'h jsx" where
  "IconInfo = svgIcon 2
    [circle 12 12 10,
     line 12 16 12 12,
     line 12 8 (1201 / 100) 8]"

definition IconCheck :: "'h jsx" where
  "IconCheck = svgIcon (5 / 2) [path ''M5 13l4 4L19 7'']"

lemma options_icons_inert [simp]:
  "inert IconEyeLogo" "inert IconSettings" "inert IconSliders" "inert IconEye" "inert IconShield" "inert IconTerminal" "inert IconInfo" "inert IconCheck"
  by (simp_all add: IconEyeLogo_def IconSettings_def IconSliders_def IconEye_def IconShield_def IconTerminal_def IconInfo_def IconCheck_def inert_svgIcon)

section \<open>Components\<close>

definition Toggle :: "bool \<Rightarrow> (bool \<Rightarrow> 'h) \<Rightarrow> bool \<Rightarrow> 'h jsx" where
  "Toggle checked onChange disabled =
     Elem ''label''
       (cls ''rt-opts-toggle'' #
        (if disabled then [Style [(''opacity'', [Num (1 / 2)]), (''pointerEvents'', [Lit ''none''])]] else []))
       [Elem ''input'' [lit ''type'' ''checkbox'', Flag ''checked'' checked, OnCheck onChange] [],
        Elem ''span'' [cls ''rt-opts-toggle-track''] [],
        Elem ''span'' [cls ''rt-opts-toggle-thumb''] []]"

definition trackStyle :: "rat \<Rightarrow> (string \<times> piece list) list" where
  "trackStyle pct =
     [(''background'',
       [Lit ''linear-gradient(to right, var(--rt-accent) 0%, var(--rt-accent) '', Num pct,
        Lit ''%, var(--rt-bg-subtle) '', Num pct, Lit ''%, var(--rt-bg-subtle) 100%)''])]"

definition Slider :: "string \<Rightarrow> rat \<Rightarrow> (rat \<Rightarrow> 'h) \<Rightarrow> string \<Rightarrow> 'h jsx" where
  "Slider label v onChange desc =
     Elem ''div'' [cls ''rt-opts-slider-row'']
       [Elem ''div'' [cls ''rt-opts-slider-header'']
          [Elem ''span'' [cls ''rt-opts-slider-label''] [says label],
           Elem ''span'' [cls ''rt-opts-slider-value''] [Text [Num v]]],
        (if desc \<noteq> '''' then Elem ''div'' [cls ''rt-opts-row-desc'', Style [(''marginBottom'', [Num 6])]] [says desc] else Nothing),
        Elem ''input''
          [lit ''type'' ''range'', cls ''rt-opts-slider'', Attr ''min'' [Num 0], Attr ''max'' [Num 100],
           Attr ''value'' [Num v], OnNumber (\<lambda>n. onChange (the n)), Style (trackStyle v)] []]"

text \<open>The markup around the rows of a section, and around the control of a row.\<close>

definition optsSection :: "'h jsx \<Rightarrow> string \<Rightarrow> 'h jsx list \<Rightarrow> 'h jsx" where
  "optsSection icon title body =
     Elem ''div'' [cls ''rt-opts-section'']
       [Elem ''div'' [cls ''rt-opts-section-header'']
          [Elem ''span'' [cls ''rt-opts-section-icon''] [icon],
           Elem ''span'' [cls ''rt-opts-section-title''] [says title]],
        Elem ''div'' [cls ''rt-opts-section-body''] body]"

definition optsRow :: "string \<Rightarrow> string \<Rightarrow> 'h jsx \<Rightarrow> 'h jsx" where
  "optsRow label desc control =
     Elem ''div'' [cls ''rt-opts-row'']
       [Elem ''div'' [cls ''rt-opts-row-info'']
          [Elem ''div'' [cls ''rt-opts-row-label''] [says label],
           Elem ''div'' [cls ''rt-opts-row-desc''] [says desc]],
        control]"

definition optsOption :: "string \<times> string \<Rightarrow> 'h jsx" where
  "optsOption vl = Elem ''option'' [lit ''value'' (fst vl)] [says (snd vl)]"

section \<open>Sections\<close>

type_synonym 'w options_view = "('w options_scheme \<Rightarrow> 'w options_scheme) jsx"

definition pageHeader :: "'h jsx" where
  "pageHeader =
     Elem ''div'' [cls ''rt-opts-header'']
       [Elem ''span'' [cls ''rt-opts-logo''] [IconEyeLogo],
        Elem ''span'' [cls ''rt-opts-title''] [says ''RealTube Settings''],
        Elem ''span'' [cls ''rt-opts-subtitle''] [says ''v0.1.0'']]"

definition generalSection :: "Settings \<Rightarrow> 'w options_view" where
  "generalSection s = optsSection IconSettings ''General''
     [optsRow ''Enable RealTube'' ''Detect and hide AI-generated videos on YouTube''
        (Toggle (enabled s) (\<lambda>v. save (\<lambda>s. s\<lparr>enabled := v\<rparr>)) False),
      optsRow ''Default action for flagged videos'' ''What happens when a video exceeds the threshold''
        (Elem ''select''
           [cls ''rt-opts-select'', lit ''value'' (defaultAction s), OnText (\<lambda>v. save (\<lambda>s. s\<lparr>defaultAction := v\<rparr>))]
           (map optsOption [(''hide'', ''Hide''), (''warn'', ''Warn''), (''dim'', ''Dim''), (''ignore'', ''Ignore'')])),
      optsRow ''Filter Shorts'' ''Automatically skip flagged AI videos in YouTube Shorts''
        (Toggle (shortsFilterEnabled s) (\<lambda>v. save (\<lambda>s. s\<lparr>shortsFilterEnabled := v\<rparr>)) False)]"

definition categorySection :: "Settings \<Rightarrow> 'w options_view" where
  "categorySection s = optsSection IconSliders ''Category Thresholds''
     (Slider ''Global hide threshold'' (hideThreshold s) (\<lambda>v. save (\<lambda>s. s\<lparr>hideThreshold := v\<rparr>))
        ''Minimum AI score to trigger the default action'' #
      map (\<lambda>(catId, label, desc).
             Slider label (orDefault (categoryThresholds s catId) 50) (\<lambda>v. setCategoryThreshold catId v) desc)
        CATEGORIES)"

definition appearanceSection :: "Settings \<Rightarrow> 'w options_view" where
  "appearanceSection s = optsSection IconEye ''Appearance''
     [optsRow ''Badge style'' ''Icon badge shown on flagged video thumbnails''
        (Elem ''select''
           [cls ''rt-opts-select'', lit ''value'' (badgeStyle s), OnText (\<lambda>v. save (\<lambda>s. s\<lparr>badgeStyle := v\<rparr>))]
           (map optsOption [(''badge'', ''Badge''), (''dot'', ''Dot''), (''none'', ''None'')])),
      optsRow ''Show notifications'' ''Notify when new AI detections are found on the page''
        (Toggle (showNotifications s) (\<lambda>v. save (\<lambda>s. s\<lparr>showNotifications := v\<rparr>)) False)]"

definition privacySection :: "Settings \<Rightarrow> 'w options_view" where
  "privacySection s = optsSection IconShield ''Privacy''
     [optsRow ''Hash-prefix mode'' ''Send only a prefix of the video hash to the server (always enabled)''
        (Toggle (hashPrefixMode s) (\<lambda>_ w. w) True),
      Elem ''div'' [cls ''rt-opts-row'', Style [(''display'', [Lit ''block''])]]
        [Elem ''div'' [cls ''rt-opts-info-block'']
           [Elem ''strong'' [] [says ''How your privacy is protected:''],
            says '' RealTube never sends full video IDs to the server. Instead, it sends a short hash prefix (first 4 characters of SHA-256) which matches multiple videos, making it impossible for the server to know exactly which video you are watching. Your user ID is generated locally and hashed 5,000 times before being sent to the server. No browsing history, IP addresses, or personal data is collected.'']]]"

definition advancedSection :: "Settings \<Rightarrow> 'w options_view" where
  "advancedSection s = optsSection IconTerminal ''Advanced''
     [optsRow ''Server URL override'' ''Leave empty to use the default server''
        (Elem ''input''
           [lit ''type'' ''text'', cls ''rt-opts-input'', lit ''placeholder'' ''https://api.realtube.example'',
            lit ''value'' (serverUrl s), OnText (\<lambda>v. save (\<lambda>s. s\<lparr>serverUrl := v\<rparr>))] []),
      optsRow ''Cache TTL (minutes)'' ''How long cached data is considered fresh''
        (Elem ''input''
           [lit ''type'' ''number'', cls ''rt-opts-input'', Attr ''min'' [Num 5], Attr ''max'' [Num 1440],
            Attr ''value'' [Num (cacheTtlMinutes s)], OnNumber (\<lambda>v. save (\<lambda>s. s\<lparr>cacheTtlMinutes := clampTtl v\<rparr>))] []),
      optsRow ''Debug logging'' ''Log detailed messages to the browser console''
        (Toggle (debugLogging s) (\<lambda>v. save (\<lambda>s. s\<lparr>debugLogging := v\<rparr>)) False)]"

definition aboutItem :: "'h attr list \<Rightarrow> string \<Rightarrow> string \<Rightarrow> piece list \<Rightarrow> 'h jsx" where
  "aboutItem as label c v =
     Elem ''div'' (cls ''rt-opts-about-item'' # as)
       [Elem ''div'' [cls ''rt-opts-about-label''] [says label], Elem ''div'' [cls c] [Text v]]"

definition aboutLink :: "string \<Rightarrow> string \<Rightarrow> 'h jsx" where
  "aboutLink href label =
     Elem ''a'' [lit ''href'' href, cls ''rt-opts-link'', lit ''target'' ''_blank'', lit ''rel'' ''noopener noreferrer''] [says label]"

definition aboutSection :: "UserInfoResponse option \<Rightarrow> string option \<Rightarrow> 'h jsx" where
  "aboutSection info uid = optsSection IconInfo ''About''
     [Elem ''div'' [cls ''rt-opts-about-grid'']
        [aboutItem [] ''Version'' ''rt-opts-about-value'' [Lit ''0.1.0''],
         aboutItem [] ''Trust Score'' ''rt-opts-about-value accent''
           (case info of Some u \<Rightarrow> [Num (of_int (mathRound (trustScore u)))] | None \<Rightarrow> [Code 0x2014]),
         aboutItem [Style [(''gridColumn'', [Lit ''1 / -1''])]] ''User ID'' ''rt-opts-about-value mono''
           [Lit (if truthy uid then substring0 (the uid) 8 @ ''...'' else ''Loading...'')]],
      Elem ''div'' [cls ''rt-opts-links'']
        [aboutLink ''https://github.com/mathieu-neron/RealTube'' ''GitHub'',
         aboutLink ''https://github.com/mathieu-neron/RealTube/blob/master/docs/design/security-design.md'' ''Privacy Policy'']]"

definition saveToast :: "bool \<Rightarrow> 'h jsx" where
  "saveToast visible =
     Elem ''div'' [cls (''rt-opts-toast'' @ (if visible then '' visible'' else ''''))]
       [IconCheck, Elem ''span'' [] [says ''Settings saved'']]"

section \<open>The page\<close>

definition loadingPage :: "'h jsx" where
  "loadingPage = Fragment
     [Elem ''div'' [cls ''rt-opts-topbar''] [],
      Elem ''div'' [cls ''rt-opts-container'']
        [Elem ''div'' [cls ''rt-opts-loading'']
           [Elem ''span'' [cls ''rt-opts-spinner''] [], Elem ''span'' [] [says ''Loading settings...'']]]]"

definition OptionsPage :: "'w options_scheme \<Rightarrow> 'w options_view" where
  "OptionsPage w =
     (if loading w then loadingPage
      else Fragment
        [Elem ''div'' [cls ''rt-opts-topbar''] [],
         Elem ''div'' [cls ''rt-opts-container'']
           [pageHeader, generalSection (settings w), categorySection (settings w), appearanceSection (settings w),
            privacySection (settings w), advancedSection (settings w), aboutSection (userInfo w) (shownUserId w)],
         saveToast (toastVisible w)])"


section \<open>What the page offers and shows\<close>

lemma Toggle_view:
  "fires (Toggle c f d) = range f" "ticks (Toggle c f d) = [c]" "fields (Toggle c f d) = []"
  by (simp_all add: Toggle_def opt_list_def)

lemma Slider_view:
  "fires (Slider label v f desc) = {f (of_nat k) | k. k \<le> 100}" "ticks (Slider label v f desc) = []"
  "fields (Slider label v f desc) = [[Num v]]"
proof -
  have "sliderNumbers (Some 0) (Some 100) = {Some (of_nat k) | k. k \<le> 100}"
    using of_nat_le_iff [where 'a = rat, of _ 100] by (simp add: sliderNumbers_def)
  moreover have "(\<lambda>n. f (the n)) ` {Some (of_nat k) | k. k \<le> 100} = {f (of_nat k) | k. k \<le> 100}"
    by (auto simp: image_def)
  ultimately show "fires (Slider label v f desc) = {f (of_nat k) | k. k \<le> 100}"
    by (simp add: Slider_def)
qed (simp_all add: Slider_def opt_list_def)

lemma section_view:
  "fires (optsSection i t b) = fires i \<union> \<Union> (fires ` set b)" "ticks (optsSection i t b) = ticks i @ concat (map ticks b)"
  "fields (optsSection i t b) = fields i @ concat (map fields b)"
  by (simp_all add: optsSection_def opt_list_def)

lemma row_view:
  "fires (optsRow l d c) = fires c" "ticks (optsRow l d c) = ticks c" "fields (optsRow l d c) = fields c"
  by (simp_all add: optsRow_def opt_list_def)

lemma option_view:
  "fires (optsOption vl) = {}" "ticks (optsOption vl) = []" "fields (optsOption vl) = []"
  "optionValues (optsOption vl # cs) = fst vl # optionValues cs"
  by (simp_all add: optsOption_def opt_list_def)

lemmas view = Toggle_view Slider_view section_view row_view option_view inertD opt_list_def

lemma general_view:
  "fires (generalSection s) = onEdit ` (range ToggleEnabled \<union> ChooseAction ` {''hide'', ''warn'', ''dim'', ''ignore''} \<union> range ToggleShorts)"
  "ticks (generalSection s) = [enabled s, shortsFilterEnabled s]" "fields (generalSection s) = [[Lit (defaultAction s)]]"
  by (simp_all add: generalSection_def view image_Un image_image onEdit_def Un_ac)

lemma appearance_view:
  "fires (appearanceSection s) = onEdit ` (ChooseBadge ` {''badge'', ''dot'', ''none''} \<union> range ToggleNotifications)"
  "ticks (appearanceSection s) = [showNotifications s]" "fields (appearanceSection s) = [[Lit (badgeStyle s)]]"
  by (simp_all add: appearanceSection_def view image_Un image_image onEdit_def)

lemma advanced_view:
  "fires (advancedSection s) = onEdit ` (range TypeServerUrl \<union> range TypeCacheTtl \<union> range ToggleDebug)"
  "ticks (advancedSection s) = [debugLogging s]" "fields (advancedSection s) = [[Lit (serverUrl s)], [Num (cacheTtlMinutes s)]]"
  by (simp_all add: advancedSection_def view image_Un image_image onEdit_def Un_ac)

lemma privacy_view:
  "fires (privacySection s) = {\<lambda>w. w}" "ticks (privacySection s) = [hashPrefixMode s]" "fields (privacySection s) = []"
  by (simp_all add: privacySection_def view)

lemma slider_edit:
  "fires (case c of (catId, label, desc) \<Rightarrow> Slider label (orDefault (categoryThresholds s catId) 50)
      (setCategoryThreshold catId) desc) = {onEdit (SlideCategory (fst c) (of_nat k)) | k. k \<le> 100}"
  by (cases c) (simp add: Slider_view onEdit_def)

lemma all_settings: "(\<Union>x \<in> S. {f (g x) k | k. k \<le> (n :: nat)}) = (\<lambda>(c, k). f c k) ` (g ` S \<times> {0..n})"
  by force

lemma slide_edits:
  "{save (hideThreshold_update (\<lambda>_. of_nat k)) | k. k \<le> 100} = onEdit ` (\<lambda>k. SlideThreshold (of_nat k)) ` {0..100}"
  "(\<Union>c \<in> set CATEGORIES. {onEdit (SlideCategory (fst c) (of_nat k)) | k. k \<le> 100}) =
     onEdit ` (\<lambda>(c, k). SlideCategory c (of_nat k)) ` (set (map fst CATEGORIES) \<times> {0..100})"
proof -
  show "{save (hideThreshold_update (\<lambda>_. of_nat k)) | k. k \<le> 100} = onEdit ` (\<lambda>k. SlideThreshold (of_nat k)) ` {0..100}"
    by (simp add: image_image onEdit_def atMost_atLeast0 [symmetric] atMost_def setcompr_eq_image)
  show "(\<Union>c \<in> set CATEGORIES. {onEdit (SlideCategory (fst c) (of_nat k)) | k. k \<le> 100}) =
     onEdit ` (\<lambda>(c, k). SlideCategory c (of_nat k)) ` (set (map fst CATEGORIES) \<times> {0..100})"
    by (simp add: all_settings [of "\<lambda>c k. onEdit (SlideCategory c (of_nat k))"] image_image split_def)
qed

lemma category_view:
  "fires (categorySection s) =
     onEdit ` ((\<lambda>k. SlideThreshold (of_nat k)) ` {0..100} \<union> (\<lambda>(c, k). SlideCategory c (of_nat k)) ` (set (map fst CATEGORIES) \<times> {0..100}))"
  "ticks (categorySection s) = []"
  "fields (categorySection s) =
     [Num (hideThreshold s)] # map (\<lambda>(c, _). [Num (orDefault (categoryThresholds s c) 50)]) CATEGORIES"
proof -
  show "fires (categorySection s) =
     onEdit ` ((\<lambda>k. SlideThreshold (of_nat k)) ` {0..100} \<union> (\<lambda>(c, k). SlideCategory c (of_nat k)) ` (set (map fst CATEGORIES) \<times> {0..100}))"
    by (simp only: image_Un slide_edits [symmetric]) (simp add: categorySection_def section_view inertD Slider_view slider_edit)
qed (simp_all add: categorySection_def view CATEGORIES_def)

lemma frame_view:
  "fires pageHeader = {}" "ticks pageHeader = []" "fields pageHeader = []"
  "fires (aboutSection i u) = {}" "ticks (aboutSection i u) = []" "fields (aboutSection i u) = []"
  "fires (saveToast b) = {}" "ticks (saveToast b) = []" "fields (saveToast b) = []"
  "fires loadingPage = {}" "ticks loadingPage = []" "fields loadingPage = []"
  by (simp_all add: pageHeader_def aboutSection_def aboutItem_def aboutLink_def saveToast_def loadingPage_def view)

lemma possible_edits:
  "{ed. possible ed} =
     range ToggleEnabled \<union> ChooseAction ` {''hide'', ''warn'', ''dim'', ''ignore''} \<union> range ToggleShorts \<union>
     ((\<lambda>k. SlideThreshold (of_nat k)) ` {0..100} \<union> (\<lambda>(c, k). SlideCategory c (of_nat k)) ` (set (map fst CATEGORIES) \<times> {0..100})) \<union>
     (ChooseBadge ` {''badge'', ''dot'', ''none''} \<union> range ToggleNotifications) \<union>
     (range TypeServerUrl \<union> range TypeCacheTtl \<union> range ToggleDebug)" (is "_ = ?r")
proof (intro set_eqI iffI)
  fix ed assume "ed \<in> {ed. possible ed}"
  then show "ed \<in> ?r" by (cases ed) (force simp: possible_def)+
qed (force simp: possible_def)

section \<open>Property\<close>

text \<open>
  C27: the page offers exactly the edits and shows exactly the settings. While it loads there is
  nothing to use. Afterwards what its controls can do, through every toggle, selection, slider
  and field, is exactly the edits of the model and nothing else, but for the disabled toggle of
  the hash-prefix mode, which does nothing; the controls show the settings of the state, a
  category without a threshold as 50; and whatever is used, the hash-prefix mode stays what it is.
\<close>

theorem options_controls:
  "fires (OptionsPage w) = (if loading w then {} else insert (\<lambda>v. v) (onEdit ` {ed. possible ed})) \<and>
   (if loading w then ticks (OptionsPage w) = [] \<and> fields (OptionsPage w) = []
    else (let s = settings w in
      ticks (OptionsPage w) = [enabled s, shortsFilterEnabled s, showNotifications s, hashPrefixMode s, debugLogging s] \<and>
      fields (OptionsPage w) =
        [[Lit (defaultAction s)], [Num (hideThreshold s)]] @
        map (\<lambda>c. [Num (orDefault (categoryThresholds s c) 50)])
          [''fully_ai'', ''ai_voiceover'', ''ai_visuals'', ''ai_thumbnails'', ''ai_assisted''] @
        [[Lit (badgeStyle s)], [Lit (serverUrl s)], [Num (cacheTtlMinutes s)]])) \<and>
   (\<forall>f \<in> fires (OptionsPage w). hashPrefixMode (settings (f v)) = hashPrefixMode (settings v))"
proof -
  have f: "fires (OptionsPage w) = (if loading w then {} else insert (\<lambda>v. v) (onEdit ` {ed. possible ed}))"
    unfolding possible_edits image_Un
    by (auto simp: OptionsPage_def frame_view general_view category_view appearance_view privacy_view advanced_view image_Un)
  have "hashPrefixMode (settings (onEdit ed v)) = hashPrefixMode (settings v)" for ed
    by (cases ed) (simp_all add: onEdit_eq save_state editOf_def)
  with f have "\<forall>f \<in> fires (OptionsPage w). hashPrefixMode (settings (f v)) = hashPrefixMode (settings v)"
    by (auto split: if_splits)
  moreover have "if loading w then ticks (OptionsPage w) = [] \<and> fields (OptionsPage w) = []
    else (let s = settings w in
      ticks (OptionsPage w) = [enabled s, shortsFilterEnabled s, showNotifications s, hashPrefixMode s, debugLogging s] \<and>
      fields (OptionsPage w) =
        [[Lit (defaultAction s)], [Num (hideThreshold s)]] @
        map (\<lambda>c. [Num (orDefault (categoryThresholds s c) 50)])
          [''fully_ai'', ''ai_voiceover'', ''ai_visuals'', ''ai_thumbnails'', ''ai_assisted''] @
        [[Lit (badgeStyle s)], [Lit (serverUrl s)], [Num (cacheTtlMinutes s)]])"
    by (simp add: OptionsPage_def frame_view general_view category_view appearance_view privacy_view advanced_view
        Let_def CATEGORIES_def opt_list_def)
  ultimately show ?thesis using f by blast
qed

theorem options_controls_witness:
  "ticks (OptionsPage (settingsLoaded (openOptions 0 empty_items))) = [True, True, True, True, False]"
proof -
  let ?w = "settingsLoaded (openOptions 0 empty_items)"
  have "ticks (OptionsPage ?w) = [enabled (settings ?w), shortsFilterEnabled (settings ?w),
      showNotifications (settings ?w), hashPrefixMode (settings ?w), debugLogging (settings ?w)]"
    using options_controls [of ?w ?w] by (simp add: Let_def settingsLoaded_def)
  then show ?thesis
    by (simp add: settingsLoaded_def openOptions_def loadSettings_def empty_items_def orDefault_def DEFAULT_SETTINGS_def)
qed

end
