(* ===== verification/Popup.thy ===== *)
theory Popup
  imports Options Dom_Utils "HOL-Library.Multiset"
begin

text \<open>
  \<open>popup/popup.tsx\<close>: the panel behind the toolbar button. Modelled are the helpers, what the
  video panel shows, and the component's React state with every effect and handler; a render is
  taken to follow each state change at once; what it renders is in \<open>Popup_View\<close>. Messages to the worker
  are logged and answered later; an answer is the hub's \<open>MessageResponse\<close>, or the message is
  rejected. \<open>parseURL\<close> is the browser's \<open>new URL(url)\<close>, None where it throws.
\<close>

section \<open>Helpers\<close>

record parsed_url = url_parts +
  hostname :: string

record popup_env = sync_env +
  parseURL :: "string \<Rightarrow> parsed_url option"

definition getVideoIdFromUrl :: "'e popup_env_scheme \<Rightarrow> string \<Rightarrow> string option" where
  "getVideoIdFromUrl e addr =
     (case parseURL e addr of
        None \<Rightarrow> None
      | Some u \<Rightarrow>
          if strIncludes (hostname u) ''youtube.com''
          then (if pathname u = ''/watch'' then map_of (searchParams u) ''v'' else shortsMatch (pathname u))
          else None)"

text \<open>An invalid date makes every comparison with the resulting NaN false.\<close>

definition formatTimeAgo :: "'e sync_env_scheme \<Rightarrow> int \<Rightarrow> string option \<Rightarrow> string" where
  "formatTimeAgo e now isoDate =
     (if \<not> truthy isoDate then ''Never''
      else (case dateParse e (the isoDate) of
         None \<Rightarrow> ''NaNd ago''
       | Some t \<Rightarrow>
           (let diff = now - t;
                mins = diff div 60000
            in if mins < 1 then ''Just now''
               else if mins < 60 then toString10 (nat mins) @ ''m ago''
               else (let hours = mins div 60
                     in if hours < 24 then toString10 (nat hours) @ ''h ago''
                        else toString10 (nat (hours div 24)) @ ''d ago''))))"

definition scoreColor :: "rat \<Rightarrow> string" where
  "scoreColor s =
     (if s < 30 then ''var(--rt-success)'' else if s < 60 then ''var(--rt-accent)'' else ''var(--rt-danger)'')"

definition scoreVerdict :: "rat \<Rightarrow> string \<times> string" where
  "scoreVerdict s =
     (if s < 30 then (''Likely Human'', ''clean'')
      else if s < 60 then (''Suspect'', ''suspect'') else (''Likely AI'', ''flagged''))"

section \<open>The video panel\<close>

definition CATEGORY_LABELS :: "(string \<times> string) list" where
  "CATEGORY_LABELS =
     [(''fully_ai'', ''Fully AI''), (''ai_voiceover'', ''AI Voice''), (''ai_visuals'', ''AI Visuals''),
      (''ai_thumbnails'', ''AI Thumbnail''), (''ai_assisted'', ''AI Assist'')]"

text \<open>One bar: label, width in percent, number of votes.\<close>

type_synonym bar = "string \<times> rat \<times> int"

definition catEntries :: "CachedVideo \<Rightarrow> Categories" where
  "catEntries video = sort_key (\<lambda>entry. - weightedScore (snd entry)) (CachedVideo.categories video)"

definition maxScore :: "Categories \<Rightarrow> rat" where
  "maxScore es = (case map (\<lambda>entry. weightedScore (snd entry)) es of [] \<Rightarrow> 1 | x # xs \<Rightarrow> fold max xs x)"

definition catBar :: "rat \<Rightarrow> string \<times> CategoryVotes \<Rightarrow> bar" where
  "catBar highest entry =
     (orElse (map_of CATEGORY_LABELS (fst entry)) (fst entry),
      (weightedScore (snd entry) / max highest 1) * 100,
      votes (snd entry))"

datatype video_panel = NoData | Panel string int string string string "bar list"

definition currentVideoInfo :: "CachedVideo option \<Rightarrow> video_panel" where
  "currentVideoInfo video =
     (case video of
        None \<Rightarrow> NoData
      | Some v \<Rightarrow>
          (let verdict = scoreVerdict (CachedVideo.score v); es = catEntries v
           in Panel (scoreColor (CachedVideo.score v)) (mathRound (CachedVideo.score v))
                (snd verdict) (fst verdict) (CachedVideo.videoId v) (map (catBar (maxScore es)) es)))"

section \<open>State\<close>

datatype connection = Online | Offline | Checking

datatype sync_stage = NoSync | AwaitDelta | AwaitStatus

record popup = platform +
  stored :: sync_items
  loading :: bool
  enabled :: bool
  connected :: connection
  currentVideoId :: "string option"
  currentVideo :: "CachedVideo option"
  userInfo :: "UserInfoResponse option"
  syncStatus :: "SyncStatus option"
  syncing :: bool
  voteFeedback :: "(bool \<times> string) option"
  submitting :: "string option"
  selected :: "string option"
  cancelled :: bool
  loadStarted :: bool
  awaitInfo :: bool
  awaitLoadStatus :: bool
  awaitCheck :: "string option"
  votesInFlight :: nat
  syncStage :: sync_stage
  feedbackTimers :: "int list"
  messages :: "message list"

definition openPopup :: "int \<Rightarrow> sync_items \<Rightarrow> popup" where
  "openPopup now items = \<lparr>clock = now, stored = items, loading = True, enabled = True, connected = Checking,
     currentVideoId = None, currentVideo = None, userInfo = None, syncStatus = None, syncing = False,
     voteFeedback = None, submitting = None, selected = None, cancelled = False, loadStarted = True,
     awaitInfo = False, awaitLoadStatus = False, awaitCheck = None, votesInFlight = 0, syncStage = NoSync,
     feedbackTimers = [], messages = []\<rparr>"

definition sendMessage :: "message \<Rightarrow> 'w popup_scheme \<Rightarrow> 'w popup_scheme" where
  "sendMessage msg w = w\<lparr>messages := messages w @ [msg]\<rparr>"

section \<open>Loading\<close>

text \<open>
  \<open>loadData\<close>: the two local reads resolve, with the tab's URL (None: no tab, or no URL), or one
  of them rejects. Then three messages are sent, the last only on a video's page.
\<close>

definition loadData :: "'e popup_env_scheme \<Rightarrow> js_error + string option \<Rightarrow> 'w popup_scheme \<Rightarrow> 'w popup_scheme" where
  "loadData e tab w =
     (let w0 = w\<lparr>loadStarted := False\<rparr> in
      case tab of
        Inl err \<Rightarrow> if \<not> cancelled w0 then w0\<lparr>connected := Offline, loading := False\<rparr> else w0
      | Inr addr \<Rightarrow>
          if cancelled w0 then w0
          else (let vid = (if truthy addr then getVideoIdFromUrl e (the addr) else None);
                    w1 = w0\<lparr>enabled := (enabledItem (stored w0) \<noteq> Some False), currentVideoId := vid, loading := False\<rparr>;
                    w2 = (sendMessage GET_USER_INFO w1)\<lparr>awaitInfo := True\<rparr>;
                    w3 = (sendMessage GET_SYNC_STATUS w2)\<lparr>awaitLoadStatus := True\<rparr>
                in if truthy vid then (sendMessage (CHECK_VIDEOS (Some [the vid])) w3)\<lparr>awaitCheck := vid\<rparr> else w3))"

definition infoAnswered :: "js_error + MessageResponse \<Rightarrow> 'w popup_scheme \<Rightarrow> 'w popup_scheme" where
  "infoAnswered res w =
     (case res of
        Inl err \<Rightarrow> if \<not> cancelled w then w\<lparr>connected := Offline\<rparr> else w
      | Inr r \<Rightarrow>
          if \<not> cancelled w \<and> MessageResponse.success r
          then w\<lparr>userInfo := (case respData r of Some (BodyData (UserBody u)) \<Rightarrow> Some u | _ \<Rightarrow> None), connected := Online\<rparr>
          else w)"

definition statusOf :: "MessageResponse \<Rightarrow> SyncStatus option" where
  "statusOf r = (case respData r of Some (SyncStatusData s) \<Rightarrow> Some s | _ \<Rightarrow> None)"

definition loadStatusAnswered :: "js_error + MessageResponse \<Rightarrow> 'w popup_scheme \<Rightarrow> 'w popup_scheme" where
  "loadStatusAnswered res w =
     (case res of
        Inl err \<Rightarrow> w
      | Inr r \<Rightarrow> if \<not> cancelled w \<and> MessageResponse.success r then w\<lparr>syncStatus := statusOf r\<rparr> else w)"

definition checkAnswered :: "string \<Rightarrow> js_error + MessageResponse \<Rightarrow> 'w popup_scheme \<Rightarrow> 'w popup_scheme" where
  "checkAnswered vid res w =
     (case res of
        Inr r \<Rightarrow>
          (case respData r of
             Some (CheckData vs) \<Rightarrow>
               if \<not> cancelled w \<and> MessageResponse.success r \<and> 0 < length vs
               then (case find (\<lambda>v. CachedVideo.videoId v = vid) vs of None \<Rightarrow> w | Some v \<Rightarrow> w\<lparr>currentVideo := Some v\<rparr>)
               else w
           | _ \<Rightarrow> w)
      | Inl err \<Rightarrow> w)"

section \<open>Handlers\<close>

text \<open>Pausing unmounts the panels below, and with them the selection of the quick vote.\<close>

definition handleToggle :: "'w popup_scheme \<Rightarrow> 'w popup_scheme" where
  "handleToggle w =
     (let next = \<not> enabled w
      in w\<lparr>enabled := next, stored := (stored w)\<lparr>enabledItem := Some next\<rparr>,
           selected := (if next then selected w else None)\<rparr>)"

definition selectQuick :: "string \<Rightarrow> 'w popup_scheme \<Rightarrow> 'w popup_scheme" where
  "selectQuick c w = w\<lparr>selected := (if selected w = Some c then None else Some c)\<rparr>"

definition handleVote :: "string \<Rightarrow> 'w popup_scheme \<Rightarrow> 'w popup_scheme" where
  "handleVote c w =
     (if \<not> truthy (currentVideoId w) \<or> truthy (submitting w) then w
      else (sendMessage (SUBMIT_VOTE (Some (the (currentVideoId w), c)))
             (w\<lparr>submitting := Some c, voteFeedback := None\<rparr>))\<lparr>votesInFlight := Suc (votesInFlight w)\<rparr>)"

definition submitQuick :: "'w popup_scheme \<Rightarrow> 'w popup_scheme" where
  "submitQuick w = (if truthy (selected w) then handleVote (the (selected w)) w else w)"

definition voteAnswered :: "js_error + MessageResponse \<Rightarrow> 'w popup_scheme \<Rightarrow> 'w popup_scheme" where
  "voteAnswered res w =
     (let w1 = w\<lparr>voteFeedback := Some (case res of
            Inr r \<Rightarrow> if MessageResponse.success r then (True, ''Vote submitted'') else (False, orElse (respError r) ''Vote failed'')
          | Inl (Error msg) \<Rightarrow> (False, msg)
          | Inl (Thrown s) \<Rightarrow> (False, ''Connection error''))\<rparr>
      in w1\<lparr>submitting := None, feedbackTimers := feedbackTimers w1 @ [clock w1 + 3000]\<rparr>)"

definition onFeedbackTimer :: "'w popup_scheme \<Rightarrow> 'w popup_scheme" where
  "onFeedbackTimer w = w\<lparr>voteFeedback := None\<rparr>"

definition handleSync :: "'w popup_scheme \<Rightarrow> 'w popup_scheme" where
  "handleSync w = (if syncing w then w else (sendMessage SYNC_DELTA (w\<lparr>syncing := True\<rparr>))\<lparr>syncStage := AwaitDelta\<rparr>)"

definition deltaAnswered :: "js_error + MessageResponse \<Rightarrow> 'w popup_scheme \<Rightarrow> 'w popup_scheme" where
  "deltaAnswered res w =
     (case res of
        Inl err \<Rightarrow> w\<lparr>syncing := False, syncStage := NoSync\<rparr>
      | Inr r \<Rightarrow> (sendMessage GET_SYNC_STATUS w)\<lparr>syncStage := AwaitStatus\<rparr>)"

definition statusAnswered :: "js_error + MessageResponse \<Rightarrow> 'w popup_scheme \<Rightarrow> 'w popup_scheme" where
  "statusAnswered res w =
     (let w1 = (case res of
            Inl err \<Rightarrow> w
          | Inr r \<Rightarrow> if MessageResponse.success r then w\<lparr>syncStatus := statusOf r\<rparr> else w)
      in w1\<lparr>syncing := False, syncStage := NoSync\<rparr>)"

section \<open>The popup as a transition system\<close>

text \<open>
  What is on the screen: the panels when loaded and enabled, the quick vote's buttons when there
  is a video and no feedback, each button enabled as the code says.
\<close>

definition quickVoteShown :: "'w popup_scheme \<Rightarrow> bool" where
  "quickVoteShown w = (\<not> loading w \<and> enabled w \<and> truthy (currentVideoId w) \<and> voteFeedback w = None)"

definition syncButtonShown :: "'w popup_scheme \<Rightarrow> bool" where
  "syncButtonShown w = (\<not> loading w \<and> enabled w \<and> syncStatus w \<noteq> None)"

inductive popup_step :: "'e popup_env_scheme \<Rightarrow> 'w popup_scheme \<Rightarrow> 'w popup_scheme \<Rightarrow> bool" for e where
  load: "loadStarted w \<Longrightarrow> popup_step e w (loadData e tab w)"
| info: "awaitInfo w \<Longrightarrow> popup_step e w (infoAnswered r (w\<lparr>awaitInfo := False\<rparr>))"
| loadStatus: "awaitLoadStatus w \<Longrightarrow> popup_step e w (loadStatusAnswered r (w\<lparr>awaitLoadStatus := False\<rparr>))"
| check: "awaitCheck w = Some vid \<Longrightarrow> popup_step e w (checkAnswered vid r (w\<lparr>awaitCheck := None\<rparr>))"
| toggle: "\<not> loading w \<Longrightarrow> popup_step e w (handleToggle w)"
| select: "quickVoteShown w \<Longrightarrow> submitting w = None \<Longrightarrow> c \<in> set (map fst CATEGORY_LABELS) \<Longrightarrow> popup_step e w (selectQuick c w)"
| vote: "quickVoteShown w \<Longrightarrow> truthy (selected w) \<Longrightarrow> submitting w = None \<Longrightarrow> popup_step e w (submitQuick w)"
| voted: "0 < votesInFlight w \<Longrightarrow> popup_step e w (voteAnswered r (w\<lparr>votesInFlight := votesInFlight w - 1\<rparr>))"
| feedbackDue: "feedbackTimers w = t # ts \<Longrightarrow> t \<le> clock w \<Longrightarrow> popup_step e w (onFeedbackTimer (w\<lparr>feedbackTimers := ts\<rparr>))"
| sync: "syncButtonShown w \<Longrightarrow> \<not> syncing w \<Longrightarrow> popup_step e w (handleSync w)"
| deltaDone: "syncStage w = AwaitDelta \<Longrightarrow> popup_step e w (deltaAnswered r w)"
| statusDone: "syncStage w = AwaitStatus \<Longrightarrow> popup_step e w (statusAnswered r w)"
| passed: "0 \<le> d \<Longrightarrow> popup_step e w (w\<lparr>clock := clock w + d\<rparr>)"
| others: "popup_step e w (w\<lparr>stored := items\<rparr>)"
| unmounted: "popup_step e w (w\<lparr>cancelled := True\<rparr>)"

inductive_cases popup_stepE: "popup_step e w w'"


section \<open>Invariant\<close>

definition submits_ok :: "message \<Rightarrow> bool" where
  "submits_ok msg = (case msg of SUBMIT_VOTE (Some (vid, c)) \<Rightarrow> vid \<noteq> '''' \<and> c \<in> set (map fst CATEGORY_LABELS) | _ \<Rightarrow> True)"

definition popup_ok :: "'w popup_scheme \<Rightarrow> bool" where
  "popup_ok w \<longleftrightarrow>
     votesInFlight w = (if submitting w = None then 0 else 1) \<and>
     (syncing w \<longleftrightarrow> syncStage w \<noteq> NoSync) \<and>
     (submitting w \<noteq> None \<longrightarrow> voteFeedback w = None) \<and>
     (\<forall>c. selected w = Some c \<longrightarrow> c \<in> set (map fst CATEGORY_LABELS)) \<and>
     (\<forall>c. submitting w = Some c \<longrightarrow> c \<in> set (map fst CATEGORY_LABELS)) \<and>
     list_all submits_ok (messages w)"

lemma labels_nonempty: "c \<in> set (map fst CATEGORY_LABELS) \<Longrightarrow> c \<noteq> ''''"
  by (auto simp: CATEGORY_LABELS_def)

lemma submits_ok_simps [simp]:
  "submits_ok GET_USER_INFO" "submits_ok GET_SYNC_STATUS" "submits_ok SYNC_DELTA" "submits_ok (CHECK_VIDEOS p)"
  by (simp_all add: submits_ok_def)

lemma popup_ok_indep [simp]:
  "popup_ok (w\<lparr>clock := n\<rparr>) = popup_ok w" "popup_ok (w\<lparr>stored := its\<rparr>) = popup_ok w"
  "popup_ok (w\<lparr>cancelled := b\<rparr>) = popup_ok w" "popup_ok (w\<lparr>awaitInfo := b\<rparr>) = popup_ok w"
  "popup_ok (w\<lparr>awaitLoadStatus := b\<rparr>) = popup_ok w" "popup_ok (w\<lparr>awaitCheck := s\<rparr>) = popup_ok w"
  "popup_ok (w\<lparr>feedbackTimers := ts\<rparr>) = popup_ok w" "popup_ok (w\<lparr>syncStatus := st\<rparr>) = popup_ok w"
  "popup_ok (w\<lparr>currentVideo := v\<rparr>) = popup_ok w" "popup_ok (w\<lparr>connected := c\<rparr>) = popup_ok w"
  "popup_ok (w\<lparr>userInfo := i\<rparr>) = popup_ok w"
  by (simp_all add: popup_ok_def)

lemma loadData_ok: "popup_ok w \<Longrightarrow> popup_ok (loadData e tab w)"
  by (cases tab) (simp_all add: loadData_def sendMessage_def popup_ok_def Let_def)

lemma answers_ok:
  "popup_ok w \<Longrightarrow> popup_ok (infoAnswered r w)" "popup_ok w \<Longrightarrow> popup_ok (loadStatusAnswered r w)"
  "popup_ok w \<Longrightarrow> popup_ok (checkAnswered vid r w)"
  by (simp_all add: infoAnswered_def loadStatusAnswered_def checkAnswered_def
      split: sum.split option.split response_data.split)

lemma handleToggle_ok: "popup_ok w \<Longrightarrow> popup_ok (handleToggle w)"
  by (simp add: handleToggle_def Let_def popup_ok_def)

lemma selectQuick_ok: "popup_ok w \<Longrightarrow> c \<in> set (map fst CATEGORY_LABELS) \<Longrightarrow> popup_ok (selectQuick c w)"
  by (simp add: selectQuick_def popup_ok_def)

lemma submitQuick_ok:
  assumes "popup_ok w" and "submitting w = None"
  shows "popup_ok (submitQuick w)"
proof (cases "truthy (selected w) \<and> truthy (currentVideoId w)")
  case True
  then obtain c vid where got: "selected w = Some c" "currentVideoId w = Some vid" "vid \<noteq> ''''"
    by (auto simp: truthy_iff)
  with assms(1) have c: "c \<in> set (map fst CATEGORY_LABELS)" by (simp add: popup_ok_def)
  then have "submits_ok (SUBMIT_VOTE (Some (vid, c)))" using got(3) by (simp add: submits_ok_def)
  with assms got True c show ?thesis
    by (simp add: submitQuick_def handleVote_def sendMessage_def popup_ok_def truthy_def)
qed (use assms(1) in \<open>auto simp: submitQuick_def handleVote_def\<close>)

lemma popup_step_ok:
  assumes "popup_step e w w'" and "popup_ok w"
  shows "popup_ok w'"
  using assms(1)
proof cases
  case (voted r)
  with assms(2) show ?thesis
    by (simp add: voteAnswered_def Let_def popup_ok_def split: if_splits)
next
  case sync
  with assms(2) show ?thesis by (simp add: handleSync_def sendMessage_def popup_ok_def)
next
  case (deltaDone r)
  with assms(2) show ?thesis by (simp add: deltaAnswered_def sendMessage_def popup_ok_def split: sum.split)
next
  case (statusDone r)
  with assms(2) show ?thesis by (simp add: statusAnswered_def Let_def popup_ok_def split: sum.split)
next
  case (feedbackDue t ts)
  with assms(2) show ?thesis by (simp add: onFeedbackTimer_def popup_ok_def)
next
  case vote
  with assms(2) show ?thesis by (simp add: submitQuick_ok)
qed (use assms(2) in \<open>auto intro: loadData_ok answers_ok handleToggle_ok selectQuick_ok simp del: set_map\<close>)

interpretation popup_system: step_system "popup_step e" popup_ok
  by unfold_locales (rule popup_step_ok)

lemma openPopup_ok: "popup_ok (openPopup now items)"
  by (simp add: popup_ok_def openPopup_def)


section \<open>Properties\<close>

text \<open>
  C24: one vote and one sync at a time. In every state the popup can reach, whatever the user
  does and however the messages are answered, the vote in submission is the one vote in flight,
  no old feedback is shown beside it, the sync button says \<open>syncing\<close> exactly while a sync is under
  way, and every vote sent names a video and one of the five categories.
\<close>

theorem popup_one_vote_in_flight:
  assumes "rtranclp (popup_step e) (openPopup now items) w"
  shows "votesInFlight w = (if submitting w = None then 0 else 1) \<and>
     (submitting w \<noteq> None \<longrightarrow> voteFeedback w = None) \<and> (syncing w \<longleftrightarrow> syncStage w \<noteq> NoSync) \<and>
     (\<forall>vid c. SUBMIT_VOTE (Some (vid, c)) \<in> set (messages w) \<longrightarrow>
        vid \<noteq> '''' \<and> c \<in> {''fully_ai'', ''ai_voiceover'', ''ai_visuals'', ''ai_thumbnails'', ''ai_assisted''})"
proof -
  from popup_system.steps_ok [OF assms openPopup_ok] have ok: "popup_ok w" .
  then have "list_all submits_ok (messages w)" by (simp add: popup_ok_def)
  then have "\<forall>vid c. SUBMIT_VOTE (Some (vid, c)) \<in> set (messages w) \<longrightarrow>
      vid \<noteq> '''' \<and> c \<in> {''fully_ai'', ''ai_voiceover'', ''ai_visuals'', ''ai_thumbnails'', ''ai_assisted''}"
    by (fastforce simp: list_all_iff submits_ok_def CATEGORY_LABELS_def)
  with ok show ?thesis unfolding popup_ok_def by blast
qed

definition sample_popup_env :: popup_env where
  "sample_popup_env = sync_env.extend (sample_sync_env (ErrorBody None))
     \<lparr>parseURL = (\<lambda>u. Some \<lparr>pathname = ''/watch'', searchParams = [(''v'', u)], hostname = ''www.youtube.com''\<rparr>)\<rparr>"

lemma youtube_host: "strIncludes ''www.youtube.com'' ''youtube.com''"
  by (simp add: startsWith_def)

theorem popup_one_vote_in_flight_witness:
  "votesInFlight (submitQuick (selectQuick ''fully_ai'' (loadData sample_popup_env (Inr (Some ''abc'')) (openPopup 0 empty_items)))) = 1"
proof -
  let ?a = "loadData sample_popup_env (Inr (Some ''abc'')) (openPopup 0 empty_items)"
  let ?b = "selectQuick ''fully_ai'' ?a"
  have a: "quickVoteShown ?a" "submitting ?a = None" "quickVoteShown ?b" "submitting ?b = None" "selected ?b = Some ''fully_ai''"
    "submitting (submitQuick ?b) \<noteq> None"
    by (simp_all add: loadData_def openPopup_def Let_def quickVoteShown_def sendMessage_def getVideoIdFromUrl_def
        sample_popup_env_def sync_env.defs truthy_def youtube_host empty_items_def selectQuick_def submitQuick_def
        handleVote_def del: strIncludes.simps)
  have s1: "popup_step sample_popup_env (openPopup 0 empty_items) ?a"
    by (rule load) (simp add: openPopup_def)
  have s2: "popup_step sample_popup_env ?a ?b"
    by (rule select [OF a(1,2)]) (simp add: CATEGORY_LABELS_def)
  have s3: "popup_step sample_popup_env ?b (submitQuick ?b)"
    by (rule vote [OF a(3) _ a(4)]) (simp add: a(5) truthy_def)
  have "rtranclp (popup_step sample_popup_env) (openPopup 0 empty_items) (submitQuick ?b)"
    using s1 s2 s3 by (meson rtranclp.rtrancl_refl rtranclp.rtrancl_into_rtrancl)
  from popup_one_vote_in_flight [OF this] a(6) show ?thesis by simp
qed

text \<open>
  How the age of the last sync is shown. A missing date is \<open>Never\<close>; for a date the browser
  can parse, the age is shown in whole minutes below an hour, in whole hours below a day and in
  whole days from then on, each rounded down, and anything younger than a minute (also a date
  in the future) is \<open>Just now\<close>; a date it cannot parse is shown as \<open>NaNd ago\<close>.
\<close>

theorem formatTimeAgo_spec:
  "formatTimeAgo e now None = ''Never'' \<and>
   (s \<noteq> '''' \<longrightarrow> dateParse e s = None \<longrightarrow> formatTimeAgo e now (Some s) = ''NaNd ago'') \<and>
   (s \<noteq> '''' \<longrightarrow> dateParse e s = Some t \<longrightarrow>
      (now - t < 60000 \<longrightarrow> formatTimeAgo e now (Some s) = ''Just now'') \<and>
      (\<forall>n. 1 \<le> n \<and> n \<le> 59 \<and> int n * 60000 \<le> now - t \<and> now - t < (int n + 1) * 60000 \<longrightarrow>
         formatTimeAgo e now (Some s) = toString10 n @ ''m ago'') \<and>
      (\<forall>n. 1 \<le> n \<and> n \<le> 23 \<and> int n * 3600000 \<le> now - t \<and> now - t < (int n + 1) * 3600000 \<longrightarrow>
         formatTimeAgo e now (Some s) = toString10 n @ ''h ago'') \<and>
      (\<forall>n. 1 \<le> n \<and> int n * 86400000 \<le> now - t \<and> now - t < (int n + 1) * 86400000 \<longrightarrow>
         formatTimeAgo e now (Some s) = toString10 n @ ''d ago''))"
proof -
  let ?d = "now - t"
  let ?m = "?d div 60000"
  have h: "?m div 60 = ?d div 3600000" "?d div 3600000 div 24 = ?d div 86400000"
    by (simp_all add: div_mult2_eq [symmetric])
  have floor: "x div k = int n" if "int n * k \<le> x" "x < (int n + 1) * k" "0 < k" for x k n
    by (rule int_div_pos_eq [where r = "x - int n * k"]) (use that in \<open>simp_all add: algebra_simps\<close>)
  have eq: "formatTimeAgo e now (Some s) =
      (if ?m < 1 then ''Just now'' else if ?m < 60 then toString10 (nat ?m) @ ''m ago''
       else if ?d div 3600000 < 24 then toString10 (nat (?d div 3600000)) @ ''h ago''
       else toString10 (nat (?d div 86400000)) @ ''d ago'')" if "s \<noteq> ''''" "dateParse e s = Some t"
    using that by (simp add: formatTimeAgo_def truthy_def Let_def h)
  have min: "formatTimeAgo e now (Some s) = toString10 n @ ''m ago''"
    if "s \<noteq> ''''" "dateParse e s = Some t" "1 \<le> n" "n \<le> 59" "int n * 60000 \<le> ?d" "?d < (int n + 1) * 60000" for n
    using that eq [OF that(1,2)] floor [of n 60000 ?d] by simp
  have hour: "formatTimeAgo e now (Some s) = toString10 n @ ''h ago''"
    if "s \<noteq> ''''" "dateParse e s = Some t" "1 \<le> n" "n \<le> 23" "int n * 3600000 \<le> ?d" "?d < (int n + 1) * 3600000" for n
  proof -
    have f: "?d div 3600000 = int n" using floor [of n 3600000 ?d] that(5,6) by simp
    have "60 \<le> ?m" using that(3,5) by linarith
    with f that(4) eq [OF that(1,2)] show ?thesis by simp
  qed
  have day: "formatTimeAgo e now (Some s) = toString10 n @ ''d ago''"
    if "s \<noteq> ''''" "dateParse e s = Some t" "1 \<le> n" "int n * 86400000 \<le> ?d" "?d < (int n + 1) * 86400000" for n
  proof -
    have f: "?d div 86400000 = int n" using floor [of n 86400000 ?d] that(4,5) by simp
    have "60 \<le> ?m" "24 \<le> ?d div 3600000" using that(3,4) by linarith+
    with f eq [OF that(1,2)] show ?thesis by simp
  qed
  have now: "formatTimeAgo e now (Some s) = ''Just now''" if "s \<noteq> ''''" "dateParse e s = Some t" "?d < 60000"
    using that eq [OF that(1,2)] by simp
  have "formatTimeAgo e now None = ''Never''" "s \<noteq> '''' \<longrightarrow> dateParse e s = None \<longrightarrow> formatTimeAgo e now (Some s) = ''NaNd ago''"
    by (simp_all add: formatTimeAgo_def truthy_def)
  with now min hour day show ?thesis by blast
qed

theorem formatTimeAgo_spec_witness:
  "formatTimeAgo (sample_popup_env\<lparr>dateParse := (\<lambda>_. Some 0)\<rparr>) 7200000 (Some ''x'') = toString10 2 @ ''h ago''"
  using formatTimeAgo_spec [of "sample_popup_env\<lparr>dateParse := (\<lambda>_. Some 0)\<rparr>" 7200000 "''x''" 0] by fastforce

lemma fold_max: "x \<in> set xs \<or> x = a \<Longrightarrow> (x :: rat) \<le> fold max xs a"
proof (induction xs arbitrary: a)
  case (Cons y ys)
  have ge: "b \<le> fold max zs b" for zs and b :: rat
    by (induction zs arbitrary: b) (auto intro: order.trans [OF max.cobounded2])
  from Cons.prems consider "x \<in> set ys" | "x = y" | "x = a" by auto
  then show ?case
  proof cases
    case 1
    then show ?thesis using Cons.IH by simp
  next
    case 2
    then show ?thesis using order.trans [OF max.cobounded1 ge] by simp
  next
    case 3
    then show ?thesis using order.trans [OF max.cobounded2 ge] by simp
  qed
qed simp

lemma maxScore_ge: "entry \<in> set es \<Longrightarrow> weightedScore (snd entry) \<le> maxScore es"
  by (cases es) (auto simp: maxScore_def intro!: fold_max)

text \<open>
  The bars of the video panel. There is one bar for each category of the record, with its
  votes; they are ordered by weighted score, the strongest first; and when no score is negative
  every width is a percentage: between 0 and 100.
\<close>

theorem bars_spec:
  assumes "\<And>entry. entry \<in> set (CachedVideo.categories v) \<Longrightarrow> 0 \<le> weightedScore (snd entry)"
    and "currentVideoInfo (Some v) = Panel colour ring cls verdict vid bars"
  shows "vid = CachedVideo.videoId v \<and> length bars = length (CachedVideo.categories v) \<and>
     mset (map (\<lambda>(_, _, n). n) bars) = mset (map (votes \<circ> snd) (CachedVideo.categories v)) \<and>
     sorted_wrt (\<lambda>(_, x, _) (_, y, _). y \<le> x) bars \<and> list_all (\<lambda>(_, x, _). 0 \<le> x \<and> x \<le> 100) bars"
proof -
  let ?es = "catEntries v"
  let ?m = "max (maxScore ?es) 1"
  have bars: "bars = map (catBar (maxScore ?es)) ?es" "vid = CachedVideo.videoId v"
    using assms(2) by (simp_all add: currentVideoInfo_def Let_def)
  have ms: "mset ?es = mset (CachedVideo.categories v)" by (simp add: catEntries_def)
  have "sorted_wrt (\<lambda>a b. weightedScore (snd b) \<le> weightedScore (snd a)) ?es"
    using sorted_sort_key [of "\<lambda>entry. - weightedScore (snd entry)" "CachedVideo.categories v"]
    by (simp add: catEntries_def sorted_map)
  then have sorted: "sorted_wrt (\<lambda>(_, x, _) (_, y, _). y \<le> x) bars"
    unfolding bars(1) sorted_wrt_map by (rule sorted_wrt_mono_rel [rotated]) (simp add: catBar_def divide_right_mono)
  have "0 \<le> weightedScore (snd x) / ?m * 100 \<and> weightedScore (snd x) / ?m * 100 \<le> 100" if "x \<in> set ?es" for x
  proof -
    from that have "0 \<le> weightedScore (snd x)"
      using assms(1) ms by (metis mset_eq_setD)
    moreover have "weightedScore (snd x) \<le> ?m" using maxScore_ge [OF that] by (simp add: le_max_iff_disj)
    ultimately show ?thesis by (simp add: divide_le_eq)
  qed
  then have "list_all (\<lambda>(_, x, _). 0 \<le> x \<and> x \<le> 100) bars"
    by (auto simp: bars(1) list_all_iff catBar_def)
  moreover have "map (\<lambda>(_, _, n). n) bars = map (votes \<circ> snd) ?es"
    by (simp add: bars(1) catBar_def)
  with ms have "mset (map (\<lambda>(_, _, n). n) bars) = mset (map (votes \<circ> snd) (CachedVideo.categories v))"
    by (simp add: mset_map)
  moreover have "length bars = length (CachedVideo.categories v)"
    using ms by (metis bars(1) length_map size_mset)
  ultimately show ?thesis using sorted bars(2) by blast
qed

definition sample_rated :: CachedVideo where
  "sample_rated = \<lparr>CachedVideo.videoId = ''v'', CachedVideo.score = 75, CachedVideo.categories = [(''fully_ai'', \<lparr>votes = 3, weightedScore = 2\<rparr>)],
     CachedVideo.channelId = ''c'', CachedVideo.lastUpdated = ''d''\<rparr>"

theorem bars_spec_witness:
  "list_all (\<lambda>(_, x, _). 0 \<le> x \<and> x \<le> 100) [catBar 2 (''fully_ai'', \<lparr>votes = 3, weightedScore = 2\<rparr>)]"
proof -
  have "currentVideoInfo (Some sample_rated) = Panel (scoreColor 75) (mathRound 75) (snd (scoreVerdict 75)) (fst (scoreVerdict 75)) ''v''
      [catBar 2 (''fully_ai'', \<lparr>votes = 3, weightedScore = 2\<rparr>)]"
    by (simp add: currentVideoInfo_def Let_def sample_rated_def catEntries_def maxScore_def)
  from bars_spec [OF _ this] show ?thesis by (simp add: sample_rated_def)
qed

section \<open>The popup and the hub\<close>

text \<open>
  An unreachable server never makes the popup show \<open>Offline\<close>. The hub answers
  \<open>GET_USER_INFO\<close> also when the request fails, with \<open>success: false\<close>, which the popup ignores:
  connected to any hub, in any state and on any network, the connection indicator becomes
  \<open>Online\<close> when the request succeeds and stays what it was otherwise.
\<close>

theorem popup_never_offline:
  assumes "senderId sender = Some (runtimeId e)" and "\<not> senderTab sender" and "\<not> cancelled w"
  shows "connected (infoAnswered (Inr (fst (onMessage e GET_USER_INFO sender h))) w) =
     (case handleMessage e GET_USER_INFO h of (Inr r, _) \<Rightarrow> Online | (Inl err, _) \<Rightarrow> connected w)"
proof (cases "handleMessage e GET_USER_INFO h")
  case (Pair res h')
  show ?thesis
  proof (cases res)
    case (Inl err)
    with Pair assms show ?thesis by (simp add: onMessage_def infoAnswered_def failure_def)
  next
    case (Inr r)
    from Pair Inr have "MessageResponse.success r"
      by (auto simp: handleMessage_def bindE_Inr_iff okData_def)
    with Pair Inr assms show ?thesis by (simp add: onMessage_def infoAnswered_def)
  qed
qed

theorem popup_never_offline_witness:
  "connected (infoAnswered (Inr (fst (onMessage (sample_hub_env (ErrorBody None) 500) GET_USER_INFO
     \<lparr>senderId = Some ''realtube'', senderTab = False\<rparr> sample_hub))) (openPopup 0 empty_items)) \<noteq> Offline"
  using popup_never_offline [of "\<lparr>senderId = Some ''realtube'', senderTab = False\<rparr>" "sample_hub_env (ErrorBody None) 500"
      "openPopup 0 empty_items" sample_hub]
  by (simp add: openPopup_def split: prod.splits sum.splits)

end
