(* ===== verification/Popup_View.thy ===== *)
theory Popup_View
  imports Popup Jsx
begin

text \<open>
  What \<open>popup/popup.tsx\<close> renders, as a tree that depends on the popup's state and, for the age of
  the last sync, on the time: the icons, the score ring, the status bar, the panels. The last
  part shows that what the tree offers are the user's steps of \<open>Popup\<close>, and that the video panel
  reads as \<open>Popup.currentVideoInfo\<close> says.
\<close>

section \<open>Icons\<close>

definition IconEye :: "'h jsx" where
  "IconEye = svgIcon (9 / 5)
    [path ''M1 12s4-8 11-8 11 8 11 8-4 8-11 8S1 12 1 12z'',
     polygon ''12,8 16,12 12,16 8,12'']"

definition IconCheck :: "'h jsx" where
  "IconCheck = svgIcon (5 / 2) [path ''M5 13l4 4L19 7'']"

definition IconX :: "'h jsx" where
  "IconX = svgIcon 2
    [circle 12 12 10,
     line 15 9 9 15,
     line 9 9 15 15]"

definition IconRefresh :: "'h jsx" where
  "IconRefresh = svgIcon 2
    [path ''M21 2v6h-6'',
     path ''M3 12a9 9 0 0 1 15-6.7L21 8'',
     path ''M3 22v-6h6'',
     path ''M21 12a9 9 0 0 1-15 6.7L3 16'']"

definition IconPause :: "'h jsx" where
  "IconPause = svgIcon 2
    [circle 12 12 10,
     line 10 15 10 9,
     line 14 15 14 9]"

definition IconGear :: "'h jsx" where
  "IconGear = svgIcon 2
    [circle 12 12 3,
     path ''M19.4 15a1.65 1.65 0 0 0 .33 1.82l.06.06a2 2 0 1 1-2.83 2.83l-.06-.06a1.65 1.65 0 0 0-1.82-.33 1.65 1.65 0 0 0-1 1.51V21a2 2 0 0 1-4 0v-.09A1.65 1.65 0 0 0 9 19.4a1.65 1.65 0 0 0-1.82.33l-.06.06a2 2 0 1 1-2.83-2.83l.06-.06A1.65 1.65 0 0 0 4.68 15a1.65 1.65 0 0 0-1.51-1H3a2 2 0 0 1 0-4h.09A1.65 1.65 0 0 0 4.6 9a1.65 1.65 0 0 0-.33-1.82l-.06-.06a2 2 0 1 1 2.83-2.83l.06.06A1.65 1.65 0 0 0 9 4.68a1.65 1.65 0 0 0 1-1.51V3a2 2 0 0 1 4 0v.09a1.65 1.65 0 0 0 1 1.51 1.65 1.65 0 0 0 1.82-.33l.06-.06a2 2 0 1 1 2.83 2.83l-.06.06A1.65 1.65 0 0 0 19.4 9a1.65 1.65 0 0 0 1.51 1H21a2 2 0 0 1 0 4h-.09a1.65 1.65 0 0 0-1.51 1z'']"

lemma popup_icons_inert [simp]:
  "inert IconEye" "inert IconCheck" "inert IconX" "inert IconRefresh" "inert IconPause" "inert IconGear"
  by (simp_all add: IconEye_def IconCheck_def IconX_def IconRefresh_def IconPause_def IconGear_def inert_svgIcon)

text \<open>The categories of the quick vote; an icon is a character, by its code point.\<close>

definition CATEGORIES :: "(string \<times> string \<times> nat) list" where
  "CATEGORIES =
     [(''fully_ai'', ''Fully AI'', 0x2B22), (''ai_voiceover'', ''AI Voice'', 0x266A),
      (''ai_visuals'', ''AI Visuals'', 0x25C6), (''ai_thumbnails'', ''AI Thumbnail'', 0x25A3),
      (''ai_assisted'', ''AI Assist'', 0x2726)]"

section \<open>Components\<close>

text \<open>\<open>Math.PI\<close>, the double.\<close>

definition MATH_PI :: rat where
  "MATH_PI = 884279719003555 / 281474976710656"

definition circumference :: rat where
  "circumference = 2 * MATH_PI * 20"

definition ringOffset :: "rat \<Rightarrow> rat" where
  "ringOffset s = circumference - (s / 100) * circumference"

definition ScoreRing :: "rat \<Rightarrow> 'h jsx" where
  "ScoreRing s =
     Elem ''div'' [cls ''rt-score-ring'']
       [Elem ''svg'' [lit ''viewBox'' ''0 0 48 48'']
          [Elem ''circle'' [cls ''rt-score-ring-bg'', lit ''cx'' ''24'', lit ''cy'' ''24'', Attr ''r'' [Num 20]] [],
           Elem ''circle''
             [cls ''rt-score-ring-fill'', lit ''cx'' ''24'', lit ''cy'' ''24'', Attr ''r'' [Num 20], lit ''stroke'' (scoreColor s),
              Attr ''strokeDasharray'' [Num circumference], Attr ''strokeDashoffset'' [Num (ringOffset s)]] []],
        Elem ''span'' [cls ''rt-score-ring-value'', Style [(''color'', [Lit (scoreColor s)])]]
          [Text [Num (of_int (mathRound s))]]]"

definition connName :: "connection \<Rightarrow> string" where
  "connName c = (case c of Online \<Rightarrow> ''online'' | Offline \<Rightarrow> ''offline'' | Checking \<Rightarrow> ''unknown'')"

text \<open>\<open>chrome.runtime.openOptionsPage()\<close> opens the settings page and leaves the popup as it is.\<close>

definition openOptionsPage :: "'w \<Rightarrow> 'w" where
  "openOptionsPage w = w"

type_synonym 'w popup_view = "('w popup_scheme \<Rightarrow> 'w popup_scheme) jsx"

definition StatusBar :: "bool \<Rightarrow> ('w popup_scheme \<Rightarrow> 'w popup_scheme) \<Rightarrow> connection \<Rightarrow> 'w popup_view" where
  "StatusBar on onToggle conn =
     Elem ''div'' [cls ''rt-header'']
       [Elem ''div'' [cls ''rt-header-left'']
          [Elem ''span'' [cls ''rt-logo-icon''] [IconEye],
           Elem ''span'' [cls ''rt-header-title'']
             [says ''RealTube'', Elem ''span'' [cls ''rt-header-version''] [says ''v0.1.0'']]],
        Elem ''div'' [cls ''rt-header-right'']
          [Elem ''span''
             [cls (''rt-conn-dot '' @ connName conn),
              lit ''title'' (if conn = Online then ''Connected'' else if conn = Offline then ''Offline'' else ''Checking...'')] [],
           Elem ''button'' [cls ''rt-gear-btn'', lit ''title'' ''Settings'', OnClick openOptionsPage] [IconGear],
           Elem ''label'' [cls ''rt-toggle'', lit ''title'' (if on then ''Disable RealTube'' else ''Enable RealTube'')]
             [Elem ''input'' [lit ''type'' ''checkbox'', Flag ''checked'' on, OnCheck (\<lambda>_. onToggle)] [],
              Elem ''span'' [cls ''rt-toggle-track''] [],
              Elem ''span'' [cls ''rt-toggle-thumb''] []]]]"

definition catBarRow :: "rat \<Rightarrow> string \<times> CategoryVotes \<Rightarrow> 'h jsx" where
  "catBarRow highest entry =
     (case catBar highest entry of (label, width, n) \<Rightarrow>
        Elem ''div'' [cls ''rt-cat-bar-row'', lit ''key'' (fst entry)]
          [Elem ''span'' [cls ''rt-cat-bar-label''] [says label],
           Elem ''div'' [cls ''rt-cat-bar-track'']
             [Elem ''div'' [cls ''rt-cat-bar-fill'', Style [(''width'', [Num width, Lit ''%''])]] []],
           Elem ''span'' [cls ''rt-cat-bar-value''] [Text [Num (of_int n)]]])"

definition CurrentVideoInfo :: "CachedVideo option \<Rightarrow> 'h jsx" where
  "CurrentVideoInfo video =
     (case video of
        None \<Rightarrow>
          Elem ''div'' [cls ''rt-section'']
            [Elem ''div'' [cls ''rt-section-label''] [says ''Current Video''],
             Elem ''div'' [cls ''rt-no-data''] [says ''No AI data for this video'']]
      | Some v \<Rightarrow>
          (let (verdict, verdictCls) = scoreVerdict (CachedVideo.score v); es = catEntries v; highest = maxScore es in
           Elem ''div'' [cls ''rt-section'']
             [Elem ''div'' [cls ''rt-section-label''] [says ''Current Video''],
              Elem ''div'' [cls ''rt-video-score-row'']
                [ScoreRing (CachedVideo.score v),
                 Elem ''div'' [cls ''rt-video-meta'']
                   [Elem ''div'' [cls (''rt-video-verdict '' @ verdictCls)] [says verdict],
                    Elem ''div'' [cls ''rt-video-id''] [says (CachedVideo.videoId v)]]],
              (if es \<noteq> [] then Elem ''div'' [cls ''rt-cat-bars''] (map (catBarRow highest) es) else Nothing)]))"

definition quickVoteButton :: "string option \<Rightarrow> string option \<Rightarrow> string \<times> string \<times> nat \<Rightarrow> 'w popup_view" where
  "quickVoteButton sel sub cat =
     (case cat of (catId, label, icon) \<Rightarrow>
        Elem ''button''
          [lit ''key'' catId, cls (''rt-qv-btn'' @ (if sel = Some catId then '' selected'' else '''')),
           Flag ''disabled'' (sub \<noteq> None), OnClick (selectQuick catId)]
          [Elem ''span'' [] [Text [Code icon]], Elem ''span'' [] [says label]])"

definition QuickVote :: "(bool \<times> string) option \<Rightarrow> string option \<Rightarrow> string option \<Rightarrow> 'w popup_view" where
  "QuickVote feedback sub sel =
     (case feedback of
        Some (ok, msg) \<Rightarrow>
          Elem ''div'' [cls ''rt-section'']
            [Elem ''div'' [cls ''rt-section-label''] [says ''Quick Vote''],
             Elem ''div'' [cls (''rt-vote-feedback '' @ (if ok then ''success'' else ''error''))]
               [(if ok then IconCheck else IconX), Elem ''span'' [] [says msg]]]
      | None \<Rightarrow>
          Elem ''div'' [cls ''rt-section'']
            [Elem ''div'' [cls ''rt-section-label''] [says ''Quick Vote''],
             Elem ''div'' [cls ''rt-quick-vote-grid''] (map (quickVoteButton sel sub) CATEGORIES),
             Elem ''button''
               [cls ''rt-qv-submit'', Flag ''disabled'' (\<not> truthy sel \<or> sub \<noteq> None), OnClick submitQuick]
               [(if truthy sub then Elem ''span'' [cls ''rt-spinner''] [] else says ''Vote'')]])"

definition statCard :: "string \<Rightarrow> piece list \<Rightarrow> string \<Rightarrow> 'h jsx" where
  "statCard c v label =
     Elem ''div'' [cls ''rt-stat-card'']
       [Elem ''div'' [cls c] [Text v], Elem ''div'' [cls ''rt-stat-label''] [says label]]"

definition UserStats :: "UserInfoResponse option \<Rightarrow> 'h jsx" where
  "UserStats user =
     (case user of
        None \<Rightarrow> Nothing
      | Some u \<Rightarrow>
          Elem ''div'' [cls ''rt-section'']
            [Elem ''div'' [cls ''rt-section-label''] [says ''Your Stats''],
             Elem ''div'' [cls ''rt-stats-grid'']
               [statCard ''rt-stat-value accent'' [Num (of_int (mathRound (trustScore u)))] ''Trust'',
                statCard ''rt-stat-value'' [Grouped (of_int (totalVotes u))] ''Votes'',
                statCard ''rt-stat-value'' [Num (of_int (mathRound (accuracyRate u))), Lit ''%''] ''Accuracy'']])"

definition cacheRow :: "string \<Rightarrow> piece list \<Rightarrow> 'h jsx" where
  "cacheRow label v =
     Elem ''div'' [cls ''rt-cache-row'']
       [Elem ''span'' [cls ''rt-cache-key''] [says label], Elem ''span'' [cls ''rt-cache-val''] [Text v]]"

definition CacheInfo :: "'e sync_env_scheme \<Rightarrow> int \<Rightarrow> SyncStatus option \<Rightarrow> bool \<Rightarrow> 'w popup_view" where
  "CacheInfo e now synced busy =
     (case synced of
        None \<Rightarrow> Nothing
      | Some s \<Rightarrow>
          Elem ''div'' [cls ''rt-section'']
            [Elem ''div'' [cls ''rt-section-label''] [says ''Cache''],
             cacheRow ''Videos cached'' [Grouped (of_nat (videoCount s))],
             cacheRow ''Channels cached'' [Grouped (of_nat (channelCount s))],
             cacheRow ''Last sync'' [Lit (formatTimeAgo e now (lastDeltaSync s))],
             Elem ''button''
               [cls (''rt-sync-btn'' @ (if busy then '' syncing'' else '''')), OnClick handleSync, Flag ''disabled'' busy]
               [IconRefresh, says (if busy then ''Syncing...'' else ''Sync Now'')]])"

section \<open>The popup\<close>

definition PopupPage :: "'e sync_env_scheme \<Rightarrow> 'w popup_scheme \<Rightarrow> 'w popup_view" where
  "PopupPage e w =
     (if loading w then
        Elem ''div'' [cls ''rt-popup-loading'']
          [Elem ''span'' [cls ''rt-spinner''] [], Elem ''span'' [] [says ''Loading...'']]
      else Fragment
        [StatusBar (enabled w) handleToggle (connected w),
         (if \<not> enabled w then
            Elem ''div'' [cls ''rt-disabled-banner''] [IconPause, Elem ''span'' [] [says ''RealTube is paused'']]
          else Fragment
            [(if truthy (currentVideoId w) then Fragment
                [CurrentVideoInfo (currentVideo w), QuickVote (voteFeedback w) (submitting w) (selected w)]
              else Nothing),
             UserStats (userInfo w),
             CacheInfo e (clock w) (syncStatus w) (syncing w)]),
         Elem ''div'' [cls ''rt-footer'']
           [Elem ''span'' [cls ''rt-footer-text'']
              [Text [Lit ''RealTube '', Code 0x2014, Lit '' Community AI Detection'']]]])"

section \<open>What the popup offers and shows\<close>

lemma CurrentVideoInfo_fires: "fires (CurrentVideoInfo v) = {}"
  by (auto simp: CurrentVideoInfo_def ScoreRing_def catBarRow_def Let_def split: option.split prod.split)

lemma UserStats_fires: "fires (UserStats i) = {}"
  by (simp add: UserStats_def statCard_def split: option.split)

lemma quickVoteButton_fires:
  "fires (quickVoteButton sel sub cat) = (if sub = None then {selectQuick (fst cat)} else {})"
  by (cases cat) (simp add: quickVoteButton_def)

lemma QuickVote_fires:
  "fires (QuickVote fb sub sel) =
     (if fb = None \<and> sub = None
      then selectQuick ` set (map fst CATEGORY_LABELS) \<union> (if truthy sel then {submitQuick} else {}) else {})"
  by (cases fb) (auto simp: QuickVote_def quickVoteButton_fires inertD CATEGORIES_def CATEGORY_LABELS_def)

lemma CacheInfo_fires: "fires (CacheInfo e now st busy) = (if st \<noteq> None \<and> \<not> busy then {handleSync} else {})"
  by (cases st) (simp_all add: CacheInfo_def cacheRow_def inertD)

lemma StatusBar_fires: "fires (StatusBar on h c) = {openOptionsPage, h}"
  by (auto simp: StatusBar_def inertD)

text \<open>The texts of the video panel are those of its summary.\<close>

lemma catBarRow_texts: "texts (catBarRow m x) = (case catBar m x of (l, _, n) \<Rightarrow> [[Lit l], [Num (of_int n)]])"
  by (simp add: catBarRow_def split: prod.split)

lemma panel_texts:
  "texts (CurrentVideoInfo v) = [Lit ''Current Video''] # (case currentVideoInfo v of
       NoData \<Rightarrow> [[Lit ''No AI data for this video'']]
     | Panel colour ring c verdict vid bars \<Rightarrow>
         [[Num (of_int ring)], [Lit verdict], [Lit vid]] @ concat (map (\<lambda>(l, _, n). [[Lit l], [Num (of_int n)]]) bars))"
  by (cases v) (simp_all add: CurrentVideoInfo_def currentVideoInfo_def ScoreRing_def Let_def split_def catBarRow_texts comp_def)

lemma ring_range: "0 \<le> s \<Longrightarrow> s \<le> 100 \<Longrightarrow> 0 \<le> ringOffset s \<and> ringOffset s \<le> circumference"
  by (simp add: ringOffset_def circumference_def MATH_PI_def)

section \<open>Property\<close>

text \<open>
  C25: the popup offers exactly the user's steps. While it loads there is nothing to use.
  Afterwards the tree offers the switch and the settings button; the choice of a category exactly
  when the quick vote is shown and no vote is in submission, and the vote button when one is
  chosen besides; the sync button exactly when it is shown and no sync is under way. Whatever is
  used is a step of the popup, but for the settings button, which leaves it as it is.
\<close>

theorem popup_controls:
  "fires (PopupPage e w) =
     (if loading w then {}
      else {openOptionsPage, handleToggle} \<union>
        (if quickVoteShown w \<and> submitting w = None
         then selectQuick ` {''fully_ai'', ''ai_voiceover'', ''ai_visuals'', ''ai_thumbnails'', ''ai_assisted''} \<union>
              (if truthy (selected w) then {submitQuick} else {})
         else {}) \<union>
        (if syncButtonShown w \<and> \<not> syncing w then {handleSync} else {})) \<and>
   (\<forall>f \<in> fires (PopupPage e w). f = openOptionsPage \<or> popup_step e' w (f w))"
proof -
  have f: "fires (PopupPage e w) =
     (if loading w then {}
      else {openOptionsPage, handleToggle} \<union>
        (if quickVoteShown w \<and> submitting w = None
         then selectQuick ` set (map fst CATEGORY_LABELS) \<union> (if truthy (selected w) then {submitQuick} else {}) else {}) \<union>
        (if syncButtonShown w \<and> \<not> syncing w then {handleSync} else {}))"
    by (auto simp: PopupPage_def StatusBar_fires CurrentVideoInfo_fires QuickVote_fires UserStats_fires CacheInfo_fires
        inertD quickVoteShown_def syncButtonShown_def)
  moreover have "\<forall>f \<in> fires (PopupPage e w). f = openOptionsPage \<or> popup_step e' w (f w)"
    unfolding f by (auto intro: popup_step.intros split: if_splits simp del: set_map)
  ultimately show ?thesis by (simp add: CATEGORY_LABELS_def)
qed

theorem popup_controls_witness:
  "submitQuick \<in> fires (PopupPage sample_popup_env
     (selectQuick ''fully_ai'' (loadData sample_popup_env (Inr (Some ''abc'')) (openPopup 0 empty_items))))"
proof -
  let ?w = "selectQuick ''fully_ai'' (loadData sample_popup_env (Inr (Some ''abc'')) (openPopup 0 empty_items))"
  have "\<not> loading ?w" "quickVoteShown ?w" "submitting ?w = None" "truthy (selected ?w)"
    by (simp_all add: loadData_def openPopup_def Let_def quickVoteShown_def sendMessage_def getVideoIdFromUrl_def
        sample_popup_env_def sync_env.defs truthy_def youtube_host empty_items_def selectQuick_def del: strIncludes.simps)
  with popup_controls [of sample_popup_env ?w sample_popup_env] show ?thesis by simp
qed

end
