(* ===== verification/Spec2Isabelle.thy ===== *)
theory Spec2Isabelle
  imports Lookup_Steps Id_Steps Content Options_View Popup_View
begin

text \<open>
  The RealTube browser extension (\<open>realtube-extension/src\<close>), which hides videos that its users have
  flagged as AI-generated from YouTube's pages. This is the root of the development: it says
  what the other theories model and show, and proves the properties that span components.

  \<^bold>\<open>The program.\<close> A background worker keeps a cache of flagged videos in IndexedDB
  (\<open>background/cache.ts\<close>), talks to the RealTube server (\<open>api-client.ts\<close>), derives an anonymous user
  id (\<open>identity.ts\<close>), synchronises the cache (\<open>sync.ts\<close>), queues votes that could not be sent
  (\<open>offline-queue.ts\<close>) and answers the messages of the other parts (\<open>background.ts\<close>). A content
  script in each YouTube tab (\<open>content/\<close>) finds the videos on the page (\<open>dom-utils.ts\<close>), asks the
  worker about them and hides the flagged ones (\<open>hide.ts\<close>), skips flagged shorts (\<open>shorts.ts\<close>),
  offers a vote button (\<open>vote-ui.ts\<close>) and reacts to navigation and settings (\<open>content.ts\<close>). The
  popup (\<open>popup/popup.tsx\<close>) and the settings page (\<open>options/options.tsx\<close>) talk to the worker and
  write the settings to \<open>chrome.storage.sync\<close>, which the content script listens to.

  \<^bold>\<open>The model.\<close> An asynchronous function is an effect: from the state to a thrown error or a value,
  and the state then (\<open>Prelude\<close>). A module's variables are a record that extends the record of
  the module it imports, so that every operation runs on the state of any module above it. What
  the platform decides (which storage transactions fail, what the network answers, the random
  numbers, the digest, how URLs and dates are parsed, what the page contains) is an environment
  record or part of the state; nothing is assumed of it except in the hypotheses of a property.
  Where handlers interleave at their awaits, a module also has a step relation.

  \<^item> \<open>Prelude\<close>: effects, the judgements \<open>preserves\<close>, \<open>unchanged\<close> and \<open>resolves\<close> with the rule
    collections \<open>pres\<close>, \<open>frame\<close> and \<open>live\<close>, the interface \<open>step_system\<close> of a step relation and an
    invariant it keeps, which every step relation below instantiates, list lemmas. \<open>Js_Std\<close>: the part of the JavaScript
    library that is used, and the interface \<open>timer_slot\<close> of a timer kept in a variable.
  \<^item> \<open>Object_Store\<close>: IndexedDB object stores, with the interface \<open>object_store\<close>. \<open>Cache\<close>: every
    exported operation of \<open>cache.ts\<close> as one transaction; its lemmas show that the stores stay
    ordered and unique under any operations and failures, and what the reads return.
  \<^item> \<open>Identity\<close>: local id, UUID fallback, iterated hash, hash prefixes; interface
    \<open>user_identity\<close> (an id once given is given again), also of the hub. \<open>Id_Steps\<close>: any number of concurrent
    calls for the local id, interleaved at their awaits.
  \<^item> \<open>Api_Client\<close>: base URL, retry loop (\<open>MAX_RETRIES\<close> is 3: the loop is a function of the
    remaining attempts and always ends), endpoints.
  \<^item> \<open>Sync\<close>: delta and full sync over the cache, the choice between them, the timers; interface
    \<open>delta_batch\<close> for the shared shape of the video and channel halves of a delta; \<open>afterDelta\<close> and
    \<open>afterFull\<close> are the abstract updates the syncs implement.
  \<^item> \<open>Offline_Queue\<close>: the queue and its flush, as one effect and as the steps between its awaits
    (\<open>flush_next\<close>); an uninterrupted flush of n votes ends within 2n + 3 steps, and \<open>flush_steps\<close>
    is run with exactly that many.
  \<^item> \<open>Background\<close>: the message hub; the lookups that one message starts concurrently run one after
    the other there. \<open>Lookup_Steps\<close>: these lookups interleaved at their awaits, with the order of
    the hub as one schedule; the specification of a check holds for every schedule, and every
    schedule ends (a step lowers the number of open requests, or that of the records to file).
  \<^item> \<open>Dom_Utils\<close>, \<open>Hide\<close>, \<open>Shorts\<close>, \<open>Vote_Ui\<close>, \<open>Content\<close>: the content script, with the interface
    \<open>element_hider\<close> for the two ways of hiding, and the step relations \<open>ui_step\<close> of the vote button
    and \<open>content_step\<close> of the whole tab.
  \<^item> \<open>Options\<close>, \<open>Popup\<close>: the settings page and the popup, with the step relations \<open>options_step\<close> and
    \<open>popup_step\<close>. \<open>Jsx\<close>: the trees React renders, and what the user can do with one. \<open>Options_View\<close>,
    \<open>Popup_View\<close>: what the two pages render in each state, icons included; the controls of the
    trees are shown to be the user's steps of the two step relations.

  Each property of a component stands in its theory; the ones below compose the hub with the
  tab and the popup. A property that shows something the code does not mean to do says so.

  \<^bold>\<open>Not modelled.\<close> The style sheets, the mounting of the React pages and the markup of the vote
  button (what of it can be clicked is in the guards of \<open>ui_step\<close>); console output; the servers in
  \<open>realtube-go\<close> and \<open>realtube-python\<close>, their database migrations and the nginx configuration, which
  are other programs in other languages: to the extension they are the network. Strings are
  lists of code units below 256, numbers are integers or rationals (no rounding of doubles).
\<close>

section \<open>The parts agree on the categories and the threshold\<close>

lemma categories_agree:
  "Vote_Ui.CATEGORIES = Popup_View.CATEGORIES"
  "map fst Vote_Ui.CATEGORIES = map fst CATEGORY_LABELS"
  "map (\<lambda>(i, l, _). (i, l)) Vote_Ui.CATEGORIES = CATEGORY_LABELS"
  "map fst Options.CATEGORIES = map fst CATEGORY_LABELS"
  "set (map fst CATEGORY_LABELS) = dom (categoryThresholds DEFAULT_SETTINGS)"
  by (simp_all add: Vote_Ui.CATEGORIES_def Popup_View.CATEGORIES_def CATEGORY_LABELS_def Options.CATEGORIES_def DEFAULT_SETTINGS_def
      insert_commute)

lemma threshold_agrees: "hideThreshold (loadSettings empty_items) = DEFAULT_THRESHOLD"
  by (simp add: loadSettings_def empty_items_def orDefault_def DEFAULT_SETTINGS_def DEFAULT_THRESHOLD_def)

section \<open>The tab and the hub\<close>

text \<open>
  What the hub's answer to \<open>CHECK_VIDEOS\<close> is to the content script: a list of videos where the
  check succeeded, as \<open>hide.ts\<close> and \<open>shorts.ts\<close> read it.
\<close>

definition checkAnswer :: "MessageResponse \<Rightarrow> CachedVideo list option" where
  "checkAnswer r =
     (if MessageResponse.success r then (case respData r of Some (CheckData vs) \<Rightarrow> Some vs | _ \<Rightarrow> None) else None)"

definition hubReply :: "'e background_env_scheme \<Rightarrow> MessageSender \<Rightarrow> 'w background_scheme \<Rightarrow> string list \<Rightarrow>
    js_error + CachedVideo list option" where
  "hubReply e sender h ids = Inr (checkAnswer (fst (onMessage e (CHECK_VIDEOS (Some ids)) sender h)))"

lemma hubReply_checks:
  assumes "senderId sender = Some (runtimeId e)" and "checkVideos e ids h = (Inr vs, h')"
  shows "hubReply e sender h ids = Inr (Some vs)"
proof -
  from assms(2) have "handleMessage e (CHECK_VIDEOS (Some ids)) h = (Inr (okData (CheckData vs)), h')"
    by (simp add: handleMessage_def payloadOf_def bindE_def)
  with assms(1) show ?thesis by (simp add: hubReply_def onMessage_def okData_def checkAnswer_def)
qed

text \<open>What a check hides, in terms of the videos it was answered.\<close>

lemma check_hides:
  "checkAndHideVideos t m w = (r, w') \<Longrightarrow> isHidden (nodes w' el) \<longleftrightarrow> isHidden (nodes w el) \<or>
     (\<exists>v \<in> set (replied t w m). getThreshold w \<le> CachedVideo.score v \<and> map_of m (CachedVideo.videoId v) = Some el)"
  using hider.hides by (auto simp: checkAndHideVideos_eq fold_hideAt set_flagged)

lemma cachedVideos_iff: "v \<in> set (cachedVideos h ids) \<longleftrightarrow> CachedVideo.videoId v \<in> set ids \<and> videoLookup h (CachedVideo.videoId v) = Some v"
proof -
  have "CachedVideo.videoId v = k" if "videoLookup h k = Some v" for k using that by (rule store_get_key)
  then show ?thesis unfolding cachedVideos_def set_map_filter by blast
qed



section \<open>The two ways to vote, and the hub\<close>

text \<open>What the hub's answer to \<open>SUBMIT_VOTE\<close> is to the vote button.\<close>

definition voteReply :: "MessageResponse \<Rightarrow> vote_reply" where
  "voteReply r = Response (MessageResponse.success r) (respData r = Some QueuedData) (respError r)"


text \<open>
  C38: the popup reports a refused vote as submitted. When the server refuses every vote, also
  for good (as it does for an unknown category), the hub queues the vote and answers success; of
  that answer the vote button makes \<open>Vote saved offline\<close>, the popup \<open>Vote submitted\<close>.
\<close>

theorem refused_vote_feedback:
  assumes "db_up h" and "no_idb_faults e" and "nonempty_uuid e" and "refusesVotes e"
    and "senderId sender = Some (runtimeId e)" and "dropdownEl u \<noteq> None"
  shows "\<exists>r h'. onMessage e (SUBMIT_VOTE (Some (vid, cat))) sender h = (r, h') \<and>
     store_get vote_key (pendingVotesStore (data h')) vid =
       Some \<lparr>PendingVote.videoId = vid, PendingVote.category = cat, timestamp = clock h'\<rparr> \<and>
     voteFeedback (voteAnswered (Inr r) p) = Some (True, ''Vote submitted'') \<and>
     dropdownEl (submitEnd (voteReply r) u) = Some (Feedback True ''Vote saved offline'')"
  using assms(1-3)
proof (cases rule: submitVote_cases [where vid = vid and cat = cat])
  case (sent b h' uid)
  with refused_not_accepted [OF assms(4)] show ?thesis by blast
next
  case (queued h')
  with assms(5,6) show ?thesis
    by (intro exI [of _ "okData QueuedData"] exI [of _ h'])
      (simp add: onMessage_def okData_def voteAnswered_def Let_def voteReply_def submitEnd_def showFeedback_def)
qed

theorem refused_vote_feedback_witness:
  "\<exists>r h'. onMessage (sample_hub_env (ErrorBody (Some ''Invalid category'')) 400) (SUBMIT_VOTE (Some (''v1'', ''bogus'')))
     \<lparr>senderId = Some ''realtube'', senderTab = False\<rparr> sample_hub = (r, h') \<and>
     voteFeedback (voteAnswered (Inr r) (openPopup 0 empty_items)) = Some (True, ''Vote submitted'')"
proof -
  have "refusesVotes (sample_hub_env (ErrorBody (Some ''Invalid category'')) 400)"
    by (simp add: refusesVotes_def resp_ok_def)
  from refused_vote_feedback [OF sample_hub_up _ _ this, of "\<lparr>senderId = Some ''realtube'', senderTab = False\<rparr>"
      "sample_ui\<lparr>dropdownEl := Some (Choosing None False False)\<rparr>" "''v1''" "''bogus''" "openPopup 0 empty_items"]
  have "\<exists>r h'. onMessage (sample_hub_env (ErrorBody (Some ''Invalid category'')) 400) (SUBMIT_VOTE (Some (''v1'', ''bogus'')))
       \<lparr>senderId = Some ''realtube'', senderTab = False\<rparr> sample_hub = (r, h') \<and>
     store_get vote_key (pendingVotesStore (data h')) ''v1'' =
       Some \<lparr>PendingVote.videoId = ''v1'', PendingVote.category = ''bogus'', timestamp = clock h'\<rparr> \<and>
     voteFeedback (voteAnswered (Inr r) (openPopup 0 empty_items)) = Some (True, ''Vote submitted'') \<and>
     dropdownEl (submitEnd (voteReply r) (sample_ui\<lparr>dropdownEl := Some (Choosing None False False)\<rparr>)) =
       Some (Feedback True ''Vote saved offline'')"
    by simp
  then show ?thesis by blast
qed

section \<open>The settings and the tab\<close>

text \<open>
  A write of \<open>chrome.storage.sync\<close> as the tabs see it: the changed ones of the two settings the
  content script listens to, with their new values.
\<close>

definition changeOf :: "bool option \<Rightarrow> bool option \<Rightarrow> bool option option" where
  "changeOf old new = (if old = new then None else Some new)"

definition synced :: "sync_items \<Rightarrow> sync_items \<Rightarrow> 'e page_env_scheme \<Rightarrow> 'w content_scheme \<Rightarrow> 'w content_scheme" where
  "synced old new e w =
     (let w1 = w\<lparr>storedEnabled := enabledItem new, storedShorts := shortsFilterItem new\<rparr> in
      if settingsListener w1
      then onSettingsChanged e ''sync'' (changeOf (enabledItem old) (enabledItem new))
             (changeOf (shortsFilterItem old) (shortsFilterItem new)) w1
      else w1)"



end
